(* ===== verification/Prelude.thy ===== *)
theory Prelude
  imports Main "HOL-Library.Multiset" "HOL-Library.Word"
begin

text \<open>
  Shared base of the gateway development: the collections of simplification facts the
  component theories fill, the names of the machine types, and the generic facts on lists,
  rotations and words that several components use.

  \<^item> \<open>frame_simps\<close>: what an operation leaves unchanged (a setter of one field does not
    touch another one, an operation on a pool keeps its length).
  \<^item> \<open>header_simps\<close>: look-ups in a header map after an update.
  \<^item> \<open>slot_simps\<close>: the effect of the balancer operations on one slot of the pool.
\<close>

named_theorems frame_simps
named_theorems header_simps
named_theorems slot_simps

type_synonym u64 = "64 word"

text \<open>A clock reading: nanoseconds since the Unix epoch, as \<open>time.Now()\<close> gives it.\<close>

type_synonym time = int

section \<open>Lists\<close>

lemma nth_map_upt_mod:
  assumes "xs \<noteq> []"
  shows "map (\<lambda>j. xs ! ((c + j) mod length xs)) [0..<length xs] = rotate c xs"
proof (rule nth_equalityI)
  fix i assume "i < length (map (\<lambda>j. xs ! ((c + j) mod length xs)) [0..<length xs])"
  then have i: "i < length xs" by simp
  have "rotate c xs ! i = xs ! ((c + i) mod length xs)"
    using i by (simp add: nth_rotate)
  then show "map (\<lambda>j. xs ! ((c + j) mod length xs)) [0..<length xs] ! i = rotate c xs ! i"
    using i by simp
qed simp

text \<open>
  A cyclic scan of a list that makes as many steps as the list is long meets every element
  as often as the list holds it, wherever it starts.
\<close>

lemma mset_rotate [simp]: "mset (rotate n xs) = mset xs"
proof (induction n)
  case 0
  show ?case by simp
next
  case (Suc n)
  have "mset (rotate1 ys) = mset ys" for ys :: "'a list"
    by (cases ys) simp_all
  then show ?case using Suc by simp
qed

lemma mset_cyclic_scan:
  assumes "xs \<noteq> []"
  shows "mset (map (\<lambda>j. xs ! ((c + j) mod length xs)) [0..<length xs]) = mset xs"
  by (simp only: nth_map_upt_mod [OF assms] mset_rotate)

lemma count_list_replicate [simp]:
  "count_list (replicate n a) b = (if a = b then n else 0)"
  by (induction n) auto

lemma count_list_concat: "count_list (concat xss) a = sum_list (map (\<lambda>xs. count_list xs a) xss)"
  by (induction xss) auto

lemma count_list_distinct: "distinct xs \<Longrightarrow> count_list xs a = (if a \<in> set xs then 1 else 0)"
  by (induction xs) auto

lemma map_upt_shift: "map (\<lambda>j. f (c + j)) [0..<Suc n] = f c # map (\<lambda>j. f (Suc c + j)) [0..<n]"
  by (simp add: upt_conv_Cons map_Suc_upt [symmetric] comp_def del: upt_Suc)

lemma sum_list_update_diff:
  fixes xs :: "int list"
  assumes "i < length xs"
  shows "sum_list (xs[i := v]) = sum_list xs - xs ! i + v"
  using assms by (induction xs arbitrary: i) (auto split: nat.splits)

text \<open>
  Applying an update to one slot of a list: how an operation on one pointer of a pool acts
  on the pool. Out of range nothing happens.
\<close>

definition at_slot :: "nat \<Rightarrow> ('a \<Rightarrow> 'a) \<Rightarrow> 'a list \<Rightarrow> 'a list" where
  "at_slot i f xs = xs[i := f (xs ! i)]"

lemma length_at_slot [simp]: "length (at_slot i f xs) = length xs"
  by (simp add: at_slot_def)

lemma at_slot_Nil [simp]: "at_slot i f [] = []"
  by (simp add: at_slot_def)

lemma at_slot_Cons [simp]:
  "at_slot 0 f (x # xs) = f x # xs" "at_slot (Suc i) f (x # xs) = x # at_slot i f xs"
  by (simp_all add: at_slot_def)

lemma nth_at_slot [slot_simps]:
  "j < length xs \<Longrightarrow> at_slot i f xs ! j = (if j = i then f (xs ! j) else xs ! j)"
  by (simp add: at_slot_def nth_list_update)

lemma map_at_slot: "(\<And>x. h (f x) = g (h x)) \<Longrightarrow> map h (at_slot i f xs) = at_slot i g (map h xs)"
  by (cases "i < length xs") (simp_all add: at_slot_def map_update list_update_beyond)

lemma map_at_slot_id: "(\<And>x. h (f x) = h x) \<Longrightarrow> map h (at_slot i f xs) = map h xs"
  by (cases "i < length xs")
    (simp_all add: at_slot_def map_update list_update_beyond list_update_same_conv)

lemma at_slot_at_slot [simp]: "at_slot i f (at_slot i g xs) = at_slot i (\<lambda>x. f (g x)) xs"
  by (cases "i < length xs") (simp_all add: at_slot_def list_update_beyond)

lemma at_slot_cong_id: "(\<And>x. f x = x) \<Longrightarrow> at_slot i f xs = xs"
  by (cases "i < length xs") (simp_all add: at_slot_def list_update_beyond)

lemma list_all_at_slot:
  "list_all P xs \<Longrightarrow> (\<And>x. P x \<Longrightarrow> P (f x)) \<Longrightarrow> list_all P (at_slot i f xs)"
  by (cases "i < length xs")
    (auto simp: at_slot_def list_all_length nth_list_update list_update_beyond)

section \<open>Words\<close>

text \<open>Adding to an unsigned counter is addition of naturals as long as it does not wrap.\<close>

lemma unat_counter_add:
  fixes c :: u64
  assumes "unat c + n < 2 ^ 64"
  shows "unat (c + of_nat n) = unat c + n"
proof -
  have "unat (of_nat n :: u64) = n"
    using assms by (simp add: unat_of_nat take_bit_nat_eq_self)
  then show ?thesis
    using assms by (simp add: unat_word_ariths)
qed

text \<open>Signed 64-bit arithmetic: an integer result wraps around.\<close>

definition wrap64 :: "int \<Rightarrow> int" where
  "wrap64 x = (x + 2 ^ 63) mod 2 ^ 64 - 2 ^ 63"

lemma wrap64_id: "- (2 ^ 63) \<le> x \<Longrightarrow> x < 2 ^ 63 \<Longrightarrow> wrap64 x = x"
  by (simp add: wrap64_def)

end
