(* ===== verification/Upstreams.thy ===== *)
theory Upstreams
  imports Prelude
begin

text \<open>
  The upstream record and its three-state circuit breaker
  (\<^verbatim>\<open>src/internal/types/upstream.go\<close>). The fields keep the names of the Go
  structure; atomics are plain fields, because every operation of this theory runs
  alone (the interleavings of \<open>TryHalfOpen\<close> are the subject of \<open>Half_Open_Race\<close>).
  Every operation that reads the clock takes the reading as an argument. The 64-bit
  counters are integers: they count requests in flight and consecutive failures.
\<close>

section \<open>Data\<close>

datatype CircuitState = CircuitClosed | CircuitOpen | CircuitHalfOpen

record URL =
  url_Scheme :: string
  url_Host :: string
  url_Path :: string
  url_RawQuery :: string

record Upstream =
  UpstreamURL :: URL
  Healthy :: bool
  ActiveConns :: int
  Weight :: int
  FailureCount :: int
  CircuitOpenUntil :: int
  circuitState :: CircuitState
  halfOpenInFlight :: int
  CBFailureThreshold :: int
  CBOpenDuration :: int
  CBHalfOpenRequests :: int

definition unix_seconds :: "time \<Rightarrow> int" where
  "unix_seconds t = t div 1000000000"

section \<open>Operations\<close>

definition State :: "Upstream \<Rightarrow> CircuitState" where
  "State u = circuitState u"

definition Upstream_CircuitOpen :: "time \<Rightarrow> Upstream \<Rightarrow> bool" where
  "Upstream_CircuitOpen now u =
     (case State u of
        CircuitOpen \<Rightarrow> unix_seconds now < CircuitOpenUntil u
      | CircuitHalfOpen \<Rightarrow> halfOpenInFlight u \<ge> CBHalfOpenRequests u
      | CircuitClosed \<Rightarrow> False)"

text \<open>The number of probes a half-open circuit admits at once.\<close>

definition maxProbes :: "Upstream \<Rightarrow> int" where
  "maxProbes u = (if CBHalfOpenRequests u \<le> 0 then 1 else CBHalfOpenRequests u)"

text \<open>
  The reservation loop of \<open>TryHalfOpen\<close>: run alone, its compare-and-swap succeeds the
  first time.
\<close>

definition reserveProbe :: "Upstream \<Rightarrow> bool \<times> Upstream" where
  "reserveProbe u =
     (let cur = halfOpenInFlight u
      in if cur \<ge> maxProbes u then (False, u)
         else (True, u\<lparr>halfOpenInFlight := cur + 1\<rparr>))"

definition TryHalfOpen :: "time \<Rightarrow> Upstream \<Rightarrow> bool \<times> Upstream" where
  "TryHalfOpen now u =
     (case State u of
        CircuitOpen \<Rightarrow>
          (if unix_seconds now < CircuitOpenUntil u then (False, u)
           else reserveProbe (u\<lparr>circuitState := CircuitHalfOpen, halfOpenInFlight := 0\<rparr>))
      | CircuitHalfOpen \<Rightarrow> reserveProbe u
      | CircuitClosed \<Rightarrow> (False, u))"

definition RecordSuccess :: "Upstream \<Rightarrow> Upstream" where
  "RecordSuccess u =
     (let u1 = (if State u = CircuitHalfOpen
                then u\<lparr>halfOpenInFlight := halfOpenInFlight u - 1,
                       circuitState := CircuitClosed,
                       Healthy := True\<rparr>
                else u)
      in u1\<lparr>FailureCount := 0\<rparr>)"

definition OpenCircuit :: "time \<Rightarrow> int \<Rightarrow> Upstream \<Rightarrow> Upstream" where
  "OpenCircuit now d u =
     u\<lparr>CircuitOpenUntil := unix_seconds (now + d), circuitState := CircuitOpen\<rparr>"

definition effThreshold :: "Upstream \<Rightarrow> int" where
  "effThreshold u = (if CBFailureThreshold u \<le> 0 then 3 else CBFailureThreshold u)"

definition effDuration :: "Upstream \<Rightarrow> int" where
  "effDuration u = (if CBOpenDuration u \<le> 0 then 30 * 1000000000 else CBOpenDuration u)"

definition RecordFailure :: "time \<Rightarrow> Upstream \<Rightarrow> Upstream" where
  "RecordFailure now u =
     (let n = FailureCount u + 1;
          u1 = u\<lparr>FailureCount := n\<rparr>;
          u2 = (if State u1 = CircuitHalfOpen
                then u1\<lparr>halfOpenInFlight := halfOpenInFlight u1 - 1\<rparr> else u1)
      in if n \<ge> effThreshold u
         then (OpenCircuit now (effDuration u) (u2\<lparr>Healthy := False\<rparr>))\<lparr>FailureCount := 0\<rparr>
         else u2)"

text \<open>
  Everything that can happen to an upstream while the gateway runs: the breaker
  operations, the health checker storing its verdict, and the balancer counting a
  connection in or out.
\<close>

datatype upop =
    DoTryHalfOpen time
  | DoRecordSuccess
  | DoRecordFailure time
  | DoHealthy bool
  | DoConns int

fun up_step :: "Upstream \<Rightarrow> upop \<Rightarrow> Upstream" where
  "up_step u (DoTryHalfOpen now) = snd (TryHalfOpen now u)"
| "up_step u DoRecordSuccess = RecordSuccess u"
| "up_step u (DoRecordFailure now) = RecordFailure now u"
| "up_step u (DoHealthy b) = u\<lparr>Healthy := b\<rparr>"
| "up_step u (DoConns d) = u\<lparr>ActiveConns := ActiveConns u + d\<rparr>"

definition up_run :: "Upstream \<Rightarrow> upop list \<Rightarrow> Upstream" where
  "up_run u ops = foldl up_step u ops"

text \<open>The part of an upstream fixed when the route is built.\<close>

definition up_config :: "Upstream \<Rightarrow> URL \<times> int \<times> int \<times> int \<times> int" where
  "up_config u =
     (UpstreamURL u, Weight u, CBFailureThreshold u, CBOpenDuration u, CBHalfOpenRequests u)"

text \<open>
  The invariant of the breaker's counters: a failure count below the threshold, and at
  most \<open>maxProbes\<close> probes counted as in flight.
\<close>

definition up_inv :: "Upstream \<Rightarrow> bool" where
  "up_inv u \<longleftrightarrow>
     0 \<le> FailureCount u \<and> FailureCount u < effThreshold u \<and> halfOpenInFlight u \<le> maxProbes u"

section \<open>Lemmas\<close>

lemmas breaker_defs =
  State_def maxProbes_def reserveProbe_def TryHalfOpen_def RecordSuccess_def OpenCircuit_def
  effThreshold_def effDuration_def RecordFailure_def Let_def

lemma effThreshold_pos [simp]: "0 < effThreshold u"
  by (simp add: effThreshold_def)

lemma maxProbes_pos [simp]: "0 < maxProbes u"
  by (simp add: maxProbes_def)

lemma effDuration_pos [simp]: "0 < effDuration u"
  by (simp add: effDuration_def)

lemma effThreshold_config: "up_config u = up_config v \<Longrightarrow> effThreshold u = effThreshold v"
  by (simp add: up_config_def effThreshold_def)

lemma maxProbes_config: "up_config u = up_config v \<Longrightarrow> maxProbes u = maxProbes v"
  by (simp add: up_config_def maxProbes_def)

lemma limits_update [simp]:
  "effThreshold (u\<lparr>FailureCount := a\<rparr>) = effThreshold u"
  "effThreshold (u\<lparr>Healthy := b\<rparr>) = effThreshold u"
  "effDuration (u\<lparr>FailureCount := a\<rparr>) = effDuration u"
  "maxProbes (u\<lparr>halfOpenInFlight := a\<rparr>) = maxProbes u"
  "maxProbes (u\<lparr>circuitState := c\<rparr>) = maxProbes u"
  by (simp_all add: effThreshold_def effDuration_def maxProbes_def)

lemma up_step_config [frame_simps]: "up_config (up_step u opn) = up_config u"
  by (cases opn) (auto simp: up_config_def breaker_defs split: CircuitState.splits)

lemma up_run_simps [simp]:
  "up_run u [] = u"
  "up_run u (x # xs) = up_run (up_step u x) xs"
  "up_run u (xs @ ys) = up_run (up_run u xs) ys"
  by (simp_all add: up_run_def)

lemma up_run_config [frame_simps]: "up_config (up_run u ops) = up_config u"
  by (induction ops arbitrary: u) (simp_all add: frame_simps)

lemma ActiveConns_breaker [frame_simps]:
  "ActiveConns (snd (TryHalfOpen now u)) = ActiveConns u"
  "ActiveConns (RecordSuccess u) = ActiveConns u"
  "ActiveConns (RecordFailure now u) = ActiveConns u"
  by (simp_all add: breaker_defs split: CircuitState.splits)

lemma UpstreamURL_breaker [frame_simps]:
  "UpstreamURL (snd (TryHalfOpen now u)) = UpstreamURL u"
  "UpstreamURL (RecordSuccess u) = UpstreamURL u"
  "UpstreamURL (RecordFailure now u) = UpstreamURL u"
  by (simp_all add: breaker_defs split: CircuitState.splits)

lemma Weight_TryHalfOpen [frame_simps]: "Weight (snd (TryHalfOpen now u)) = Weight u"
  by (simp add: breaker_defs split: CircuitState.splits)

lemma up_step_inv: "up_inv u \<Longrightarrow> up_inv (up_step u opn)"
  by (cases opn) (auto simp: up_inv_def breaker_defs split: CircuitState.splits)

text \<open>A failure below the threshold only counts; one that reaches it opens the circuit.\<close>

lemma RecordFailure_below:
  "FailureCount u + 1 < effThreshold u \<Longrightarrow> State u \<noteq> CircuitHalfOpen \<Longrightarrow>
   RecordFailure now u = u\<lparr>FailureCount := FailureCount u + 1\<rparr>"
  by (simp add: RecordFailure_def Let_def State_def)

lemma RecordFailure_reach:
  "FailureCount u + 1 \<ge> effThreshold u \<Longrightarrow>
   circuitState (RecordFailure now u) = CircuitOpen \<and>
   CircuitOpenUntil (RecordFailure now u) = unix_seconds (now + effDuration u) \<and>
   \<not> Healthy (RecordFailure now u) \<and> FailureCount (RecordFailure now u) = 0"
  by (simp add: RecordFailure_def OpenCircuit_def Let_def)

text \<open>A row of failures that stays below the threshold.\<close>

lemma failures_below:
  assumes "State u = CircuitClosed" and "FailureCount u + int (length ts) < effThreshold u"
  shows "up_run u (map DoRecordFailure ts)
         = u\<lparr>FailureCount := FailureCount u + int (length ts)\<rparr>"
  using assms
proof (induction ts arbitrary: u)
  case Nil
  then show ?case by simp
next
  case (Cons t ts)
  let ?u = "u\<lparr>FailureCount := FailureCount u + 1\<rparr>"
  have step: "RecordFailure t u = ?u"
    using Cons.prems by (intro RecordFailure_below) simp_all
  have "up_run ?u (map DoRecordFailure ts)
        = ?u\<lparr>FailureCount := FailureCount ?u + int (length ts)\<rparr>"
    using Cons.prems by (intro Cons.IH) (simp_all add: State_def)
  then show ?case using step by (simp add: algebra_simps)
qed

text \<open>Reservations in the half-open state, one after the other.\<close>

fun grants :: "Upstream \<Rightarrow> time list \<Rightarrow> bool list" where
  "grants u [] = []"
| "grants u (t # ts) = (let (ok, u') = TryHalfOpen t u in ok # grants u' ts)"

lemma grants_half_open:
  assumes "State u = CircuitHalfOpen" and "halfOpenInFlight u \<le> maxProbes u"
  shows "count_list (grants u ts) True = min (length ts) (nat (maxProbes u - halfOpenInFlight u))"
  using assms
proof (induction ts arbitrary: u)
  case Nil
  then show ?case by simp
next
  case (Cons t ts)
  show ?case
  proof (cases "halfOpenInFlight u \<ge> maxProbes u")
    case True
    then have "TryHalfOpen t u = (False, u)"
      using Cons.prems by (simp add: TryHalfOpen_def reserveProbe_def)
    then show ?thesis using Cons.IH [OF Cons.prems] Cons.prems True by simp
  next
    case False
    let ?u = "u\<lparr>halfOpenInFlight := halfOpenInFlight u + 1\<rparr>"
    have "TryHalfOpen t u = (True, ?u)"
      using Cons.prems False by (simp add: TryHalfOpen_def reserveProbe_def)
    moreover have "count_list (grants ?u ts) True
        = min (length ts) (nat (maxProbes ?u - halfOpenInFlight ?u))"
      using Cons.prems False by (intro Cons.IH) (simp_all add: State_def)
    ultimately show ?thesis using False by simp
  qed
qed

section \<open>Properties\<close>

text \<open>
  C21. The breaker trips exactly at its threshold. From a closed circuit with no failure
  recorded, a row of failures shorter than the threshold leaves the circuit closed, the
  upstream's health as it was, and counts every failure; the failure that reaches the
  threshold opens the circuit until the configured duration after it, marks the upstream
  unhealthy and resets the count.
\<close>

theorem trips_exactly_at_threshold:
  assumes "State u = CircuitClosed" and "FailureCount u = 0"
    and "int (length ts) + 1 = effThreshold u"
  shows "(\<forall>k \<le> length ts.
            up_run u (map DoRecordFailure (take k ts)) = u\<lparr>FailureCount := int k\<rparr>) \<and>
         (let v = up_run u (map DoRecordFailure (ts @ [t])) in
            State v = CircuitOpen \<and> CircuitOpenUntil v = unix_seconds (t + effDuration u) \<and>
            \<not> Healthy v \<and> FailureCount v = 0)"
proof
  show "\<forall>k \<le> length ts.
      up_run u (map DoRecordFailure (take k ts)) = u\<lparr>FailureCount := int k\<rparr>"
    using failures_below [of u "take k ts" for k] assms by simp
  have "up_run u (map DoRecordFailure ts) = u\<lparr>FailureCount := int (length ts)\<rparr>"
    using failures_below [of u ts] assms by simp
  then show "let v = up_run u (map DoRecordFailure (ts @ [t])) in
      State v = CircuitOpen \<and> CircuitOpenUntil v = unix_seconds (t + effDuration u) \<and>
      \<not> Healthy v \<and> FailureCount v = 0"
    using RecordFailure_reach [of "u\<lparr>FailureCount := int (length ts)\<rparr>" t] assms
    by (simp add: Let_def State_def)
qed

text \<open>An upstream as the route builder makes it, with the defaults of the configuration.\<close>

definition sample_upstream :: "string \<Rightarrow> Upstream" where
  "sample_upstream host =
     \<lparr>UpstreamURL = \<lparr>url_Scheme = ''http'', url_Host = host, url_Path = [], url_RawQuery = []\<rparr>,
      Healthy = True, ActiveConns = 0, Weight = 1, FailureCount = 0, CircuitOpenUntil = 0,
      circuitState = CircuitClosed, halfOpenInFlight = 0,
      CBFailureThreshold = 3, CBOpenDuration = 30000000000, CBHalfOpenRequests = 1\<rparr>"

theorem trips_exactly_at_threshold_witness:
  "State (up_run (sample_upstream ''a'') (map DoRecordFailure [0, 1000000000, 2000000000]))
     = CircuitOpen \<and>
   CircuitOpenUntil (up_run (sample_upstream ''a'')
     (map DoRecordFailure [0, 1000000000, 2000000000])) = 32"
proof -
  have "State (sample_upstream ''a'') = CircuitClosed" "FailureCount (sample_upstream ''a'') = 0"
    "int (length [0::int, 1000000000]) + 1 = effThreshold (sample_upstream ''a'')"
    by (simp_all add: sample_upstream_def State_def effThreshold_def)
  from trips_exactly_at_threshold [OF this, of 2000000000] show ?thesis
    by (simp add: Let_def sample_upstream_def unix_seconds_def effDuration_def
        del: up_run_simps)
qed

text \<open>
  An opened circuit refuses traffic for the configured duration, up to the resolution of
  the stored deadline: it refuses every clock reading more than one second before the
  deadline \<open>now + d\<close>, and none from the deadline on.
\<close>

lemma open_window_length:
  assumes "0 < d"
  shows "(t + 1000000000 \<le> now + d \<longrightarrow> Upstream_CircuitOpen t (OpenCircuit now d u)) \<and>
         (now + d \<le> t \<longrightarrow> \<not> Upstream_CircuitOpen t (OpenCircuit now d u) \<and>
            fst (TryHalfOpen t (OpenCircuit now d u)))"
proof -
  have open_iff: "Upstream_CircuitOpen t (OpenCircuit now d u)
      \<longleftrightarrow> unix_seconds t < unix_seconds (now + d)"
    by (simp add: Upstream_CircuitOpen_def OpenCircuit_def State_def)
  have "t + 1000000000 \<le> now + d \<Longrightarrow> unix_seconds t < unix_seconds (now + d)"
    unfolding unix_seconds_def by linarith
  moreover have "now + d \<le> t \<Longrightarrow> unix_seconds (now + d) \<le> unix_seconds t"
    unfolding unix_seconds_def by (rule zdiv_mono1) simp_all
  moreover have "unix_seconds (now + d) \<le> unix_seconds t \<Longrightarrow>
      fst (TryHalfOpen t (OpenCircuit now d u))"
    by (auto simp: breaker_defs)
  ultimately show ?thesis by (auto simp: open_iff)
qed

lemma open_window_length_instance:
  "Upstream_CircuitOpen 29000000000 (OpenCircuit 0 30000000000 (sample_upstream ''a'')) \<and>
   \<not> Upstream_CircuitOpen 30000000000 (OpenCircuit 0 30000000000 (sample_upstream ''a''))"
  using open_window_length [of 30000000000 29000000000 0 "sample_upstream ''a''"]
    open_window_length [of 30000000000 30000000000 0 "sample_upstream ''a''"]
  by simp

text \<open>
  Probe admission. Once the timer of an open circuit has expired, the calls of
  \<open>TryHalfOpen\<close> made one after the other grant exactly \<open>maxProbes\<close> probes (or as many as
  there are calls, if fewer) until a result is recorded.
\<close>

lemma probes_granted:
  assumes "State u = CircuitOpen" and "CircuitOpenUntil u \<le> unix_seconds t"
  shows "count_list (grants u (t # ts)) True = min (Suc (length ts)) (nat (maxProbes u))"
proof -
  let ?h = "u\<lparr>circuitState := CircuitHalfOpen, halfOpenInFlight := 0\<rparr>"
  have "TryHalfOpen t u = TryHalfOpen t ?h"
    using assms by (simp add: TryHalfOpen_def State_def)
  then have "grants u (t # ts) = grants ?h (t # ts)" by simp
  moreover have "maxProbes ?h = maxProbes u" by (simp add: maxProbes_def)
  moreover have "0 \<le> maxProbes u" using maxProbes_pos [of u] by linarith
  ultimately show ?thesis
    using grants_half_open [of ?h "t # ts"] by (simp add: State_def del: grants.simps)
qed

lemma probes_granted_instance:
  "count_list (grants (OpenCircuit 0 1000000000 (sample_upstream ''a''))
     [2000000000, 2000000000, 3000000000]) True = 1"
proof -
  let ?u = "OpenCircuit 0 1000000000 (sample_upstream ''a'')"
  have "State ?u = CircuitOpen" "CircuitOpenUntil ?u \<le> unix_seconds 2000000000"
    by (simp_all add: OpenCircuit_def State_def unix_seconds_def)
  from probes_granted [OF this, of "[2000000000, 3000000000]"] show ?thesis
    by (simp add: OpenCircuit_def sample_upstream_def maxProbes_def del: grants.simps)
qed

text \<open>
  C22. Whatever happens to an upstream (probes, results, health verdicts, connections, in any
  order), its failure count stays below its threshold, the probes counted in flight stay
  within the configured number, and what the route builder configured never changes.
\<close>

theorem breaker_invariant:
  assumes "up_inv u"
  shows "up_inv (up_run u ops) \<and> up_config (up_run u ops) = up_config u"
proof
  show "up_inv (up_run u ops)"
    using assms by (induction ops arbitrary: u) (simp_all add: up_step_inv)
  show "up_config (up_run u ops) = up_config u" by (simp add: frame_simps)
qed

theorem breaker_invariant_witness:
  "up_inv (up_run (sample_upstream ''a'')
     [DoRecordFailure 0, DoRecordFailure 1, DoRecordFailure 2, DoTryHalfOpen 40000000000])"
proof -
  have "up_inv (sample_upstream ''a'')"
    by (simp add: up_inv_def sample_upstream_def effThreshold_def maxProbes_def)
  from breaker_invariant [OF this] show ?thesis by blast
qed

text \<open>
  C23. The breaker is the three-state machine its documentation draws. An operation that
  changes the state either opens the circuit (a failure that reaches the threshold, from
  closed or half-open), or starts probing (an expired timer, from open), or closes the
  circuit (a success, from half-open); there is no other edge, so an open circuit closes
  only by way of a probe.
\<close>

theorem breaker_edges:
  assumes "State (up_step u opn) \<noteq> State u"
  shows "State (up_step u opn) = CircuitOpen \<and> FailureCount u + 1 \<ge> effThreshold u \<and>
           (\<exists>now. opn = DoRecordFailure now) \<or>
         State u = CircuitOpen \<and> State (up_step u opn) = CircuitHalfOpen \<and>
           (\<exists>now. opn = DoTryHalfOpen now \<and> CircuitOpenUntil u \<le> unix_seconds now) \<or>
         State u = CircuitHalfOpen \<and> State (up_step u opn) = CircuitClosed \<and>
           opn = DoRecordSuccess"
  using assms
  by (cases opn) (auto simp: breaker_defs split: CircuitState.splits if_splits)

theorem breaker_edges_witness:
  "State (up_step (OpenCircuit 0 1000000000 (sample_upstream ''a'')) (DoTryHalfOpen 2000000000))
     = CircuitHalfOpen"
proof -
  let ?u = "OpenCircuit 0 1000000000 (sample_upstream ''a'')"
  let ?v = "up_step ?u (DoTryHalfOpen 2000000000)"
  have "State ?v \<noteq> State ?u"
    by (simp add: breaker_defs unix_seconds_def sample_upstream_def)
  from breaker_edges [OF this] show ?thesis
    by (auto simp: OpenCircuit_def State_def)
qed

end
