(* ===== verification/Half_Open_Race.thy ===== *)
theory Half_Open_Race
  imports Upstreams
begin

text \<open>
  \<open>TryHalfOpen\<close> under concurrency (\<^verbatim>\<open>src/internal/types/upstream.go\<close>, lines 53 to 86).
  Goroutines share the three atomics the function touches; a step of the system is one
  atomic load, store or compare-and-swap of one goroutine, so every interleaving of the
  calls is a path of the step relation. The clock has passed the deadline for the readings
  of the model that get past the timer check; which reading a goroutine makes is part of
  the step.

  The theory shows how many probes can be granted: with the circuit already half-open
  never more than configured, and around the transition from open to half-open at most
  twice as many less the count left over, which two goroutines attain.
\<close>

section \<open>The system\<close>

text \<open>
  Where a goroutine is: before its first load; after the load of an open state, before the
  timer check; before the compare-and-swap of the state; before the store of 0; before the
  load of the in-flight count; before the compare-and-swap of the count it read; returned.
\<close>

datatype pc =
    Start
  | CheckTimer
  | SwapState
  | StoreZero
  | LoadCount
  | SwapCount int
  | Returned bool

record shared =
  sh_state :: CircuitState
  sh_until :: int
  sh_inflight :: int
  sh_max :: int
  sh_pc :: "nat \<Rightarrow> pc"

text \<open>One atomic step of goroutine \<open>i\<close> at clock reading \<open>now\<close>.\<close>

inductive try_step :: "shared \<Rightarrow> shared \<Rightarrow> bool" where
  load_open:
    "sh_pc s i = Start \<Longrightarrow> sh_state s = CircuitOpen \<Longrightarrow>
     try_step s (s\<lparr>sh_pc := (sh_pc s)(i := CheckTimer)\<rparr>)"
| load_half:
    "sh_pc s i = Start \<Longrightarrow> sh_state s = CircuitHalfOpen \<Longrightarrow>
     try_step s (s\<lparr>sh_pc := (sh_pc s)(i := LoadCount)\<rparr>)"
| load_closed:
    "sh_pc s i = Start \<Longrightarrow> sh_state s = CircuitClosed \<Longrightarrow>
     try_step s (s\<lparr>sh_pc := (sh_pc s)(i := Returned False)\<rparr>)"
| timer_active:
    "sh_pc s i = CheckTimer \<Longrightarrow> unix_seconds now < sh_until s \<Longrightarrow>
     try_step s (s\<lparr>sh_pc := (sh_pc s)(i := Returned False)\<rparr>)"
| timer_expired:
    "sh_pc s i = CheckTimer \<Longrightarrow> \<not> unix_seconds now < sh_until s \<Longrightarrow>
     try_step s (s\<lparr>sh_pc := (sh_pc s)(i := SwapState)\<rparr>)"
| swap_state_won:
    "sh_pc s i = SwapState \<Longrightarrow> sh_state s = CircuitOpen \<Longrightarrow>
     try_step s (s\<lparr>sh_state := CircuitHalfOpen, sh_pc := (sh_pc s)(i := StoreZero)\<rparr>)"
| swap_state_lost:
    "sh_pc s i = SwapState \<Longrightarrow> sh_state s \<noteq> CircuitOpen \<Longrightarrow>
     try_step s (s\<lparr>sh_pc := (sh_pc s)(i := LoadCount)\<rparr>)"
| store_zero:
    "sh_pc s i = StoreZero \<Longrightarrow>
     try_step s (s\<lparr>sh_inflight := 0, sh_pc := (sh_pc s)(i := LoadCount)\<rparr>)"
| count_full:
    "sh_pc s i = LoadCount \<Longrightarrow> sh_inflight s \<ge> sh_max s \<Longrightarrow>
     try_step s (s\<lparr>sh_pc := (sh_pc s)(i := Returned False)\<rparr>)"
| count_free:
    "sh_pc s i = LoadCount \<Longrightarrow> sh_inflight s < sh_max s \<Longrightarrow>
     try_step s (s\<lparr>sh_pc := (sh_pc s)(i := SwapCount (sh_inflight s))\<rparr>)"
| swap_count_won:
    "sh_pc s i = SwapCount cur \<Longrightarrow> sh_inflight s = cur \<Longrightarrow>
     try_step s (s\<lparr>sh_inflight := cur + 1, sh_pc := (sh_pc s)(i := Returned True)\<rparr>)"
| swap_count_lost:
    "sh_pc s i = SwapCount cur \<Longrightarrow> sh_inflight s \<noteq> cur \<Longrightarrow>
     try_step s (s\<lparr>sh_pc := (sh_pc s)(i := LoadCount)\<rparr>)"

text \<open>Every schedule: finitely many steps.\<close>

abbreviation try_steps :: "shared \<Rightarrow> shared \<Rightarrow> bool" where
  "try_steps \<equiv> try_step\<^sup>*\<^sup>*"

definition enter :: "CircuitState \<Rightarrow> int \<Rightarrow> int \<Rightarrow> int \<Rightarrow> shared" where
  "enter st until inflight mx =
     \<lparr>sh_state = st, sh_until = until, sh_inflight = inflight, sh_max = mx, sh_pc = (\<lambda>_. Start)\<rparr>"

text \<open>The goroutines that hold a granted probe, and those about to store 0.\<close>

definition winners :: "shared \<Rightarrow> nat set" where
  "winners s = {i. sh_pc s i = Returned True}"

definition storing :: "shared \<Rightarrow> nat set" where
  "storing s = {i. sh_pc s i = StoreZero}"

section \<open>Invariants\<close>

lemma winners_fun_upd:
  "winners (s\<lparr>sh_pc := (sh_pc s)(i := p)\<rparr>)
     = (if p = Returned True then insert i (winners s) else winners s - {i})"
  by (auto simp: winners_def)

lemma storing_fun_upd:
  "storing (s\<lparr>sh_pc := (sh_pc s)(i := p)\<rparr>)
     = (if p = StoreZero then insert i (storing s) else storing s - {i})"
  by (auto simp: storing_def)

lemma winners_shared [simp]:
  "winners (s\<lparr>sh_inflight := n\<rparr>) = winners s" "winners (s\<lparr>sh_state := c\<rparr>) = winners s"
  "winners (s\<lparr>sh_inflight := n, sh_pc := f\<rparr>) = winners (s\<lparr>sh_pc := f\<rparr>)"
  "winners (s\<lparr>sh_state := c, sh_pc := f\<rparr>) = winners (s\<lparr>sh_pc := f\<rparr>)"
  by (simp_all add: winners_def)

lemma storing_shared [simp]:
  "storing (s\<lparr>sh_inflight := n, sh_pc := f\<rparr>) = storing (s\<lparr>sh_pc := f\<rparr>)"
  "storing (s\<lparr>sh_state := c, sh_pc := f\<rparr>) = storing (s\<lparr>sh_pc := f\<rparr>)"
  by (simp_all add: storing_def)

lemma pc_not_winner: "sh_pc s i = p \<Longrightarrow> p \<noteq> Returned True \<Longrightarrow> i \<notin> winners s"
  by (simp add: winners_def)

lemma pc_not_storing: "sh_pc s i = p \<Longrightarrow> p \<noteq> StoreZero \<Longrightarrow> i \<notin> storing s"
  by (simp add: storing_def)

text \<open>A count about to be swapped was read below the limit.\<close>

definition swaps_below :: "shared \<Rightarrow> bool" where
  "swaps_below s \<longleftrightarrow> (\<forall>i cur. sh_pc s i = SwapCount cur \<longrightarrow> cur < sh_max s)"

lemma swaps_belowD: "sh_pc s i = SwapCount cur \<Longrightarrow> swaps_below s \<Longrightarrow> cur < sh_max s"
  by (simp add: swaps_below_def)

lemma try_step_swaps_below: "try_step s t \<Longrightarrow> swaps_below s \<Longrightarrow> swaps_below t"
  by (induction rule: try_step.induct) (simp_all add: swaps_below_def)

lemma try_step_max: "try_step s t \<Longrightarrow> sh_max t = sh_max s"
  by (induction rule: try_step.induct) simp_all

text \<open>
  With the circuit half-open from the start, nobody is between the load of an open state
  and the store of 0, and the in-flight count is the count at the start plus the winners.
\<close>

definition half_inv :: "int \<Rightarrow> shared \<Rightarrow> bool" where
  "half_inv k s \<longleftrightarrow>
     sh_state s = CircuitHalfOpen \<and> swaps_below s \<and>
     (\<forall>i. sh_pc s i \<notin> {CheckTimer, SwapState, StoreZero}) \<and>
     finite (winners s) \<and> int (card (winners s)) + k = sh_inflight s \<and>
     sh_inflight s \<le> sh_max s"

lemma half_inv_step:
  assumes "try_step s t" and "half_inv k s"
  shows "half_inv k t"
proof -
  have "swaps_below t"
    using assms try_step_swaps_below by (simp add: half_inv_def)
  with assms show ?thesis
  proof (induction rule: try_step.induct)
    case (swap_count_won s i cur)
    then have "cur < sh_max s" "i \<notin> winners s"
      by (auto simp: half_inv_def swaps_below_def pc_not_winner)
    with swap_count_won show ?case
      by (auto simp: half_inv_def winners_fun_upd)
  qed (auto simp: half_inv_def winners_fun_upd pc_not_winner)
qed

text \<open>
  From an open circuit there are three phases: nobody has swapped the state yet; the
  goroutine that did has not stored 0 yet; it has.
\<close>

fun early :: "pc \<Rightarrow> bool" where
  "early Start = True"
| "early CheckTimer = True"
| "early SwapState = True"
| "early (Returned b) = (\<not> b)"
| "early _ = False"

definition before_swap :: "int \<Rightarrow> shared \<Rightarrow> bool" where
  "before_swap k s \<longleftrightarrow>
     sh_state s = CircuitOpen \<and> sh_inflight s = k \<and>
     (\<forall>i. early (sh_pc s i))"

definition before_store :: "int \<Rightarrow> shared \<Rightarrow> bool" where
  "before_store k s \<longleftrightarrow>
     sh_state s = CircuitHalfOpen \<and> (\<exists>j. storing s = {j}) \<and>
     int (card (winners s)) + k = sh_inflight s"

definition after_store :: "int \<Rightarrow> shared \<Rightarrow> bool" where
  "after_store k s \<longleftrightarrow>
     sh_state s = CircuitHalfOpen \<and> storing s = {} \<and>
     int (card (winners s)) \<le> sh_max s - k + sh_inflight s"

definition open_inv :: "int \<Rightarrow> shared \<Rightarrow> bool" where
  "open_inv k s \<longleftrightarrow>
     swaps_below s \<and> finite (winners s) \<and> 0 < sh_max s \<and> sh_inflight s \<le> sh_max s \<and>
     (before_swap k s \<or> before_store k s \<or> after_store k s)"

lemma before_swap_pc: "before_swap k s \<Longrightarrow> sh_pc s i = p \<Longrightarrow> early p"
  by (auto simp: before_swap_def)

lemma before_swap_empty: "before_swap k s \<Longrightarrow> winners s = {} \<and> storing s = {}"
  by (auto simp: winners_def storing_def dest: before_swap_pc)

lemma phase_step:
  assumes "try_step s t" and "open_inv k s"
  shows "before_swap k t \<or> before_store k t \<or> after_store k t"
proof -
  from assms(2) consider "before_swap k s" | "before_store k s" | "after_store k s"
    by (auto simp: open_inv_def)
  then show ?thesis
  proof cases
    case 1
    then have empty: "winners s = {}" "storing s = {}"
      using before_swap_empty by auto
    from assms(1) 1 empty show ?thesis
    proof (induction rule: try_step.induct)
      case (swap_state_won s i)
      then have "before_store k (s\<lparr>sh_state := CircuitHalfOpen,
          sh_pc := (sh_pc s)(i := StoreZero)\<rparr>)"
        by (auto simp: before_store_def before_swap_def winners_fun_upd storing_fun_upd)
      then show ?case by blast
    qed ((fastforce dest: before_swap_pc | (auto simp: before_swap_def)[1])+)
  next
    case 2
    from assms 2 show ?thesis
    proof (induction rule: try_step.induct)
      case (store_zero s i)
      then have "i \<in> storing s" "i \<notin> winners s" "sh_inflight s \<le> sh_max s"
        by (simp_all add: storing_def open_inv_def pc_not_winner)
      then have "storing s = {i}" using store_zero.prems by (auto simp: before_store_def)
      with store_zero \<open>i \<notin> winners s\<close> \<open>sh_inflight s \<le> sh_max s\<close> have "after_store k (s\<lparr>sh_inflight := 0,
          sh_pc := (sh_pc s)(i := LoadCount)\<rparr>)"
        by (auto simp: after_store_def before_store_def winners_fun_upd storing_fun_upd)
      then show ?case by blast
    qed (auto simp: before_store_def open_inv_def winners_fun_upd storing_fun_upd
         pc_not_winner pc_not_storing)
  next
    case 3
    from assms 3 show ?thesis
    proof (induction rule: try_step.induct)
      case (store_zero s i)
      then have "i \<in> storing s" "storing s = {}"
        by (simp_all add: storing_def after_store_def)
      then show ?case by simp
    qed (auto simp: after_store_def open_inv_def winners_fun_upd storing_fun_upd
         pc_not_winner pc_not_storing)
  qed
qed

lemma open_inv_step:
  assumes "try_step s t" and "open_inv k s"
  shows "open_inv k t"
proof -
  have "swaps_below s" "finite (winners s)" "0 < sh_max s" "sh_inflight s \<le> sh_max s"
    using assms(2) by (auto simp: open_inv_def)
  with assms(1) have "finite (winners t) \<and> 0 < sh_max t \<and> sh_inflight t \<le> sh_max t"
    by (induction rule: try_step.induct) (auto simp: winners_fun_upd dest: swaps_belowD)
  then show ?thesis
    using phase_step [OF assms] try_step_swaps_below [OF assms(1) \<open>swaps_below s\<close>]
    by (simp add: open_inv_def)
qed

lemma try_steps_inv:
  assumes "try_steps s t" and "I s" and "\<And>s t. try_step s t \<Longrightarrow> I s \<Longrightarrow> I t"
  shows "I t"
  using assms by (induction rule: rtranclp_induct) blast+

lemma open_inv_bound:
  assumes "open_inv k s"
  shows "int (card (winners s)) \<le> 2 * sh_max s - k"
proof -
  consider "before_swap k s" | "before_store k s" | "after_store k s"
    using assms by (auto simp: open_inv_def)
  then show ?thesis
  proof cases
    case 1
    then have "winners s = {}" "k \<le> sh_max s"
      using before_swap_empty assms by (auto simp: open_inv_def before_swap_def)
    then show ?thesis using assms by (simp add: open_inv_def)
  next
    case 2
    then show ?thesis using assms by (auto simp: before_store_def open_inv_def)
  next
    case 3
    then show ?thesis using assms by (auto simp: after_store_def open_inv_def)
  qed
qed

lemma try_steps_max: "try_steps s t \<Longrightarrow> sh_max t = sh_max s"
  by (induction rule: rtranclp_induct) (simp_all add: try_step_max)

section \<open>Properties\<close>

text \<open>
  C27. In a half-open circuit the probe limit holds under every interleaving: starting with
  \<open>k\<close> probes in flight, any number of concurrent calls of \<open>TryHalfOpen\<close> never have more than
  \<open>max - k\<close> of them granted, and the in-flight count is exact.
\<close>

theorem half_open_limit_concurrent:
  assumes "k \<le> mx" and "try_steps (enter CircuitHalfOpen until k mx) s"
  shows "finite (winners s) \<and> int (card (winners s)) + k = sh_inflight s \<and> sh_inflight s \<le> mx"
proof -
  have "half_inv k (enter CircuitHalfOpen until k mx)"
    using assms(1) by (simp add: half_inv_def enter_def swaps_below_def winners_def)
  then have "half_inv k s"
    using assms(2) half_inv_step try_steps_inv by metis
  then show ?thesis
    using try_steps_max [OF assms(2)] by (simp add: half_inv_def enter_def)
qed

text \<open>The system with goroutines 0 and 1 at given points and all others not started.\<close>

definition pair :: "CircuitState \<Rightarrow> int \<Rightarrow> int \<Rightarrow> int \<Rightarrow> pc \<Rightarrow> pc \<Rightarrow> shared" where
  "pair st until n mx p q =
     \<lparr>sh_state = st, sh_until = until, sh_inflight = n, sh_max = mx,
      sh_pc = (\<lambda>_. Start)(0 := p, 1 := q)\<rparr>"

abbreviation at :: "CircuitState \<Rightarrow> int \<Rightarrow> pc \<Rightarrow> pc \<Rightarrow> shared" where
  "at st n p q \<equiv> pair st 0 n 1 p q"

lemma pair_sel [simp]:
  "sh_pc (pair st until n mx p q) 0 = p" "sh_pc (pair st until n mx p q) (Suc 0) = q"
  "sh_state (pair st until n mx p q) = st" "sh_inflight (pair st until n mx p q) = n"
  "sh_max (pair st until n mx p q) = mx" "sh_until (pair st until n mx p q) = until"
  by (simp_all add: pair_def)

lemma pair_upd [simp]:
  "(pair st until n mx p q)\<lparr>sh_pc := (sh_pc (pair st until n mx p q))(0 := r)\<rparr>
     = pair st until n mx r q"
  "(pair st until n mx p q)\<lparr>sh_pc := (sh_pc (pair st until n mx p q))(Suc 0 := r)\<rparr>
     = pair st until n mx p r"
  "(pair st until n mx p q)\<lparr>sh_inflight := m, sh_pc := (sh_pc (pair st until n mx p q))(0 := r)\<rparr>
     = pair st until m mx r q"
  "(pair st until n mx p q)\<lparr>sh_inflight := m, sh_pc := (sh_pc (pair st until n mx p q))(Suc 0 := r)\<rparr>
     = pair st until m mx p r"
  "(pair st until n mx p q)\<lparr>sh_state := c, sh_pc := (sh_pc (pair st until n mx p q))(0 := r)\<rparr>
     = pair c until n mx r q"
  by (auto simp: pair_def fun_eq_iff)

lemma enter_pair: "enter st until n mx = pair st until n mx Start Start"
  by (simp add: enter_def pair_def fun_eq_iff)

lemmas enter_at = enter_pair [of _ 0 _ 1]

lemma half_open_run: "try_steps (at CircuitHalfOpen 0 Start Start)
    (at CircuitHalfOpen 1 (Returned True) Start)"
proof -
  have "try_step (at CircuitHalfOpen 0 Start Start) (at CircuitHalfOpen 0 LoadCount Start)"
    using load_half [of "at CircuitHalfOpen 0 Start Start" 0] by simp
  moreover have "try_step (at CircuitHalfOpen 0 LoadCount Start)
      (at CircuitHalfOpen 0 (SwapCount 0) Start)"
    using count_free [of "at CircuitHalfOpen 0 LoadCount Start" 0] by simp
  moreover have "try_step (at CircuitHalfOpen 0 (SwapCount 0) Start)
      (at CircuitHalfOpen 1 (Returned True) Start)"
    using swap_count_won [of "at CircuitHalfOpen 0 (SwapCount 0) Start" 0] by simp
  ultimately show ?thesis by (meson converse_rtranclp_into_rtranclp rtranclp.rtrancl_refl)
qed

theorem half_open_limit_concurrent_witness:
  "card (winners (at CircuitHalfOpen 1 (Returned True) Start)) = 1"
  using half_open_limit_concurrent [of 0 1 0 "at CircuitHalfOpen 1 (Returned True) Start"]
    half_open_run
  by (simp add: enter_at)

text \<open>
  C28. Around the transition from open to half-open the limit is weaker: with the stale count
  \<open>k\<close> of the previous half-open period, at most \<open>2 * max - k\<close> of any number of concurrent
  calls are granted, whatever the interleaving. The stale count may be negative, when a failed
  probe closed the circuit (\<open>failed_probe_closes_circuit\<close>); the bound is then above twice the limit.
\<close>

theorem reopen_limit_concurrent:
  assumes "k \<le> mx" and "0 < mx"
    and "try_steps (enter CircuitOpen until k mx) s"
  shows "finite (winners s) \<and> int (card (winners s)) \<le> 2 * mx - k"
proof -
  have "open_inv k (enter CircuitOpen until k mx)"
    using assms(1,2)
    by (simp add: open_inv_def before_swap_def enter_def swaps_below_def winners_def)
  then have "open_inv k s"
    using assms(3) open_inv_step try_steps_inv by metis
  then show ?thesis
    using try_steps_max [OF assms(3)] open_inv_bound [of k s]
    by (auto simp: open_inv_def enter_def)
qed

text \<open>
  The schedule behind the bound: goroutine 0 swaps the state; goroutine 1 loses that swap,
  reads the count and takes the only slot; goroutine 0 then stores 0 and takes it again.
\<close>

lemma reopen_run: "try_steps (at CircuitOpen 0 Start Start)
    (at CircuitHalfOpen 1 (Returned True) (Returned True))"
proof -
  have "try_step (at CircuitOpen 0 Start Start) (at CircuitOpen 0 CheckTimer Start)"
    using load_open [of "at CircuitOpen 0 Start Start" 0] by simp
  moreover have "try_step (at CircuitOpen 0 CheckTimer Start) (at CircuitOpen 0 CheckTimer CheckTimer)"
    using load_open [of "at CircuitOpen 0 CheckTimer Start" 1] by simp
  moreover have "try_step (at CircuitOpen 0 CheckTimer CheckTimer)
      (at CircuitOpen 0 SwapState CheckTimer)"
    using timer_expired [of "at CircuitOpen 0 CheckTimer CheckTimer" 0 0]
    by (simp add: unix_seconds_def)
  moreover have "try_step (at CircuitOpen 0 SwapState CheckTimer)
      (at CircuitOpen 0 SwapState SwapState)"
    using timer_expired [of "at CircuitOpen 0 SwapState CheckTimer" 1 0]
    by (simp add: unix_seconds_def)
  moreover have "try_step (at CircuitOpen 0 SwapState SwapState)
      (at CircuitHalfOpen 0 StoreZero SwapState)"
    using swap_state_won [of "at CircuitOpen 0 SwapState SwapState" 0] by simp
  moreover have "try_step (at CircuitHalfOpen 0 StoreZero SwapState)
      (at CircuitHalfOpen 0 StoreZero LoadCount)"
    using swap_state_lost [of "at CircuitHalfOpen 0 StoreZero SwapState" 1] by simp
  moreover have "try_step (at CircuitHalfOpen 0 StoreZero LoadCount)
      (at CircuitHalfOpen 0 StoreZero (SwapCount 0))"
    using count_free [of "at CircuitHalfOpen 0 StoreZero LoadCount" 1] by simp
  moreover have "try_step (at CircuitHalfOpen 0 StoreZero (SwapCount 0))
      (at CircuitHalfOpen 1 StoreZero (Returned True))"
    using swap_count_won [of "at CircuitHalfOpen 0 StoreZero (SwapCount 0)" 1] by simp
  moreover have "try_step (at CircuitHalfOpen 1 StoreZero (Returned True))
      (at CircuitHalfOpen 0 LoadCount (Returned True))"
    using store_zero [of "at CircuitHalfOpen 1 StoreZero (Returned True)" 0] by simp
  moreover have "try_step (at CircuitHalfOpen 0 LoadCount (Returned True))
      (at CircuitHalfOpen 0 (SwapCount 0) (Returned True))"
    using count_free [of "at CircuitHalfOpen 0 LoadCount (Returned True)" 0] by simp
  moreover have "try_step (at CircuitHalfOpen 0 (SwapCount 0) (Returned True))
      (at CircuitHalfOpen 1 (Returned True) (Returned True))"
    using swap_count_won [of "at CircuitHalfOpen 0 (SwapCount 0) (Returned True)" 0] by simp
  ultimately show ?thesis by (meson converse_rtranclp_into_rtranclp rtranclp.rtrancl_refl)
qed

theorem reopen_limit_concurrent_witness:
  "card (winners (at CircuitHalfOpen 1 (Returned True) (Returned True))) \<le> 2"
  using reopen_limit_concurrent [of 0 1 0 "at CircuitHalfOpen 1 (Returned True) (Returned True)"]
    reopen_run
  by (simp add: enter_at)

text \<open>
  The configured limit is not a limit there: with one probe configured and an expired
  timer, two concurrent calls of \<open>TryHalfOpen\<close> can both be granted, because the winner of
  the state swap stores 0 over the slot the other goroutine has just taken.
\<close>

lemma reopen_grants_two_probes:
  "\<exists>s. try_steps (enter CircuitOpen 0 0 1) s \<and> {0, 1} \<subseteq> winners s \<and>
       sh_inflight s = 1"
  using reopen_run by (auto simp: enter_at winners_def intro!: exI [of _ "at _ _ _ _"])

text \<open>The reservation loop, run by goroutine 0 alone.\<close>

lemma solo_reserve:
  "try_steps (pair st until n mx LoadCount Start)
     (if n \<ge> mx then pair st until n mx (Returned False) Start
      else pair st until (n + 1) mx (Returned True) Start)"
proof (cases "n \<ge> mx")
  case True
  then have "try_step (pair st until n mx LoadCount Start)
      (pair st until n mx (Returned False) Start)"
    using count_full [of "pair st until n mx LoadCount Start" 0] by simp
  with True show ?thesis by auto
next
  case False
  then have "try_step (pair st until n mx LoadCount Start) (pair st until n mx (SwapCount n) Start)"
    using count_free [of "pair st until n mx LoadCount Start" 0] by simp
  moreover have "try_step (pair st until n mx (SwapCount n) Start)
      (pair st until (n + 1) mx (Returned True) Start)"
    using swap_count_won [of "pair st until n mx (SwapCount n) Start" 0] by simp
  ultimately show ?thesis
    using False by (auto intro: converse_rtranclp_into_rtranclp)
qed

lemma solo_expired:
  assumes "\<not> unix_seconds now < until"
  shows "try_steps (pair CircuitOpen until n mx Start Start)
           (pair CircuitHalfOpen until 0 mx LoadCount Start)"
proof -
  have "try_step (pair CircuitOpen until n mx Start Start)
      (pair CircuitOpen until n mx CheckTimer Start)"
    using load_open [of "pair CircuitOpen until n mx Start Start" 0] by simp
  moreover have "try_step (pair CircuitOpen until n mx CheckTimer Start)
      (pair CircuitOpen until n mx SwapState Start)"
    using timer_expired [of "pair CircuitOpen until n mx CheckTimer Start" 0 now] assms by simp
  moreover have "try_step (pair CircuitOpen until n mx SwapState Start)
      (pair CircuitHalfOpen until n mx StoreZero Start)"
    using swap_state_won [of "pair CircuitOpen until n mx SwapState Start" 0] by simp
  moreover have "try_step (pair CircuitHalfOpen until n mx StoreZero Start)
      (pair CircuitHalfOpen until 0 mx LoadCount Start)"
    using store_zero [of "pair CircuitHalfOpen until n mx StoreZero Start" 0] by simp
  ultimately show ?thesis by (meson converse_rtranclp_into_rtranclp rtranclp.rtrancl_refl)
qed

lemma solo_active:
  assumes "unix_seconds now < until"
  shows "try_steps (pair CircuitOpen until n mx Start Start)
           (pair CircuitOpen until n mx (Returned False) Start)"
proof -
  have "try_step (pair CircuitOpen until n mx Start Start)
      (pair CircuitOpen until n mx CheckTimer Start)"
    using load_open [of "pair CircuitOpen until n mx Start Start" 0] by simp
  moreover have "try_step (pair CircuitOpen until n mx CheckTimer Start)
      (pair CircuitOpen until n mx (Returned False) Start)"
    using timer_active [of "pair CircuitOpen until n mx CheckTimer Start" 0 now] assms by simp
  ultimately show ?thesis by (meson converse_rtranclp_into_rtranclp rtranclp.rtrancl_refl)
qed

text \<open>
  The atomic steps implement the sequential function: a goroutine that runs
  \<open>TryHalfOpen\<close> undisturbed returns the result the sequential model gives and leaves the
  circuit state and the in-flight count as it does.
\<close>

lemma solo_run_is_TryHalfOpen:
  "let (ok, u') = TryHalfOpen now u in
     try_steps (enter (State u) (CircuitOpenUntil u) (halfOpenInFlight u) (maxProbes u))
       (pair (State u') (CircuitOpenUntil u) (halfOpenInFlight u') (maxProbes u)
          (Returned ok) Start)"
proof (cases "State u")
  case CircuitClosed
  then show ?thesis
    using load_closed [of "pair CircuitClosed (CircuitOpenUntil u) (halfOpenInFlight u)
        (maxProbes u) Start Start" 0]
    by (simp add: TryHalfOpen_def enter_pair r_into_rtranclp)
next
  case CircuitOpen
  show ?thesis
  proof (cases "unix_seconds now < CircuitOpenUntil u")
    case True
    with CircuitOpen show ?thesis by (simp add: TryHalfOpen_def enter_pair solo_active)
  next
    case False
    note to_count = solo_expired [OF False, of "halfOpenInFlight u" "maxProbes u"]
    have "maxProbes (u\<lparr>circuitState := CircuitHalfOpen, halfOpenInFlight := 0\<rparr>) = maxProbes u"
      by (simp add: maxProbes_def)
    then show ?thesis
      using CircuitOpen False
        rtranclp_trans [OF to_count solo_reserve [of CircuitHalfOpen "CircuitOpenUntil u" 0]]
      by (auto simp: TryHalfOpen_def reserveProbe_def enter_pair State_def Let_def)
  qed
next
  case CircuitHalfOpen
  have "try_step (pair CircuitHalfOpen (CircuitOpenUntil u) (halfOpenInFlight u) (maxProbes u)
      Start Start) (pair CircuitHalfOpen (CircuitOpenUntil u) (halfOpenInFlight u) (maxProbes u)
      LoadCount Start)"
    using load_half [of "pair CircuitHalfOpen (CircuitOpenUntil u) (halfOpenInFlight u)
      (maxProbes u) Start Start" 0] by simp
  then show ?thesis
    using CircuitHalfOpen solo_reserve [of CircuitHalfOpen "CircuitOpenUntil u"
        "halfOpenInFlight u" "maxProbes u"]
    by (auto simp: TryHalfOpen_def reserveProbe_def enter_pair State_def Let_def
        intro: converse_rtranclp_into_rtranclp)
qed

end
