(* ===== verification/Go_Strings.thy ===== *)
theory Go_Strings
  imports Prelude
begin

text \<open>
  The string functions of the Go standard library the gateway calls
  (\<^verbatim>\<open>strings\<close>, \<^verbatim>\<open>net.SplitHostPort\<close>, \<^verbatim>\<open>http.CanonicalHeaderKey\<close>). A Go string is a list of
  bytes. Case folding and white space are those of ASCII text, which is what header names,
  methods, host names and configuration tokens are made of; other bytes are left alone.
\<close>

section \<open>Characters\<close>

definition is_upper :: "char \<Rightarrow> bool" where
  "is_upper c = (65 \<le> (of_char c :: nat) \<and> (of_char c :: nat) \<le> 90)"

definition is_lower :: "char \<Rightarrow> bool" where
  "is_lower c = (97 \<le> (of_char c :: nat) \<and> (of_char c :: nat) \<le> 122)"

definition is_digit :: "char \<Rightarrow> bool" where
  "is_digit c = (48 \<le> (of_char c :: nat) \<and> (of_char c :: nat) \<le> 57)"

definition hex_val :: "char \<Rightarrow> nat option" where
  "hex_val c =
     (let n = (of_char c :: nat)
      in if 48 \<le> n \<and> n \<le> 57 then Some (n - 48)
         else if 97 \<le> n \<and> n \<le> 102 then Some (n - 87)
         else if 65 \<le> n \<and> n \<le> 70 then Some (n - 55)
         else None)"

definition digit_val :: "char \<Rightarrow> nat" where
  "digit_val c = of_char c - 48"

definition dec_val :: "string \<Rightarrow> int" where
  "dec_val s = fold (\<lambda>c acc. 10 * acc + int (digit_val c)) s 0"

definition lower_char :: "char \<Rightarrow> char" where
  "lower_char c = (if is_upper c then char_of ((of_char c :: nat) + 32) else c)"

definition upper_char :: "char \<Rightarrow> char" where
  "upper_char c = (if is_lower c then char_of ((of_char c :: nat) - 32) else c)"

definition is_space :: "char \<Rightarrow> bool" where
  "is_space c = (of_char c \<in> {9, 10, 11, 12, 13, 32 :: nat})"

section \<open>Package strings\<close>

definition ToLower :: "string \<Rightarrow> string" where
  "ToLower s = map lower_char s"

definition ToUpper :: "string \<Rightarrow> string" where
  "ToUpper s = map upper_char s"

definition EqualFold :: "string \<Rightarrow> string \<Rightarrow> bool" where
  "EqualFold s t = (ToLower s = ToLower t)"

definition HasPrefix :: "string \<Rightarrow> string \<Rightarrow> bool" where
  "HasPrefix s p = (take (length p) s = p)"

definition TrimPrefix :: "string \<Rightarrow> string \<Rightarrow> string" where
  "TrimPrefix s p = (if HasPrefix s p then drop (length p) s else s)"

definition HasSuffix :: "string \<Rightarrow> string \<Rightarrow> bool" where
  "HasSuffix s p = (length p \<le> length s \<and> drop (length s - length p) s = p)"

definition TrimSuffix :: "string \<Rightarrow> string \<Rightarrow> string" where
  "TrimSuffix s p = (if HasSuffix s p then take (length s - length p) s else s)"

definition trim_by :: "(char \<Rightarrow> bool) \<Rightarrow> string \<Rightarrow> string" where
  "trim_by P s = rev (dropWhile P (rev (dropWhile P s)))"

definition TrimSpace :: "string \<Rightarrow> string" where
  "TrimSpace s = trim_by is_space s"

text \<open>\<open>s[a:b]\<close>.\<close>

definition slice :: "string \<Rightarrow> nat \<Rightarrow> nat \<Rightarrow> string" where
  "slice s a b = take (b - a) (drop a s)"

fun split_on :: "char \<Rightarrow> string \<Rightarrow> string list" where
  "split_on c [] = [[]]"
| "split_on c (x # xs) =
     (if x = c then [] # split_on c xs
      else (case split_on c xs of [] \<Rightarrow> [[x]] | w # ws \<Rightarrow> (x # w) # ws))"

text \<open>The index of the first occurrence of a non-empty substring, if there is one.\<close>

fun Index :: "string \<Rightarrow> string \<Rightarrow> nat option" where
  "Index [] p = (if p = [] then Some 0 else None)"
| "Index (x # xs) p = (if HasPrefix (x # xs) p then Some 0 else map_option Suc (Index xs p))"

definition Contains :: "string \<Rightarrow> string \<Rightarrow> bool" where
  "Contains s p = (Index s p \<noteq> None)"

text \<open>\<open>strconv.Itoa\<close>.\<close>

definition digit_char :: "nat \<Rightarrow> char" where
  "digit_char d = char_of (48 + d)"

fun show_nat :: "nat \<Rightarrow> string" where
  "show_nat n = (if n < 10 then [digit_char n] else show_nat (n div 10) @ [digit_char (n mod 10)])"

definition Itoa :: "int \<Rightarrow> string" where
  "Itoa i = (if i < 0 then CHR ''-'' # show_nat (nat (- i)) else show_nat (nat i))"

declare show_nat.simps [simp del]

section \<open>Header keys and addresses\<close>

definition token_char :: "char \<Rightarrow> bool" where
  "token_char c = (is_upper c \<or> is_lower c \<or> is_digit c \<or>
     c \<in> set ''!#$%&*+-.^_|~'' \<or> c = CHR 0x27 \<or> c = CHR 0x60)"

fun canon_chars :: "bool \<Rightarrow> string \<Rightarrow> string" where
  "canon_chars up [] = []"
| "canon_chars up (c # cs) =
     (if up then upper_char c else lower_char c) # canon_chars (c = CHR ''-'') cs"

definition CanonicalHeaderKey :: "string \<Rightarrow> string" where
  "CanonicalHeaderKey s = (if list_all token_char s then canon_chars True s else s)"

definition last_index :: "char \<Rightarrow> string \<Rightarrow> nat option" where
  "last_index c s =
     (if c \<in> set s then Some (length s - 1 - length (takeWhile (\<lambda>x. x \<noteq> c) (rev s))) else None)"

text \<open>\<open>net.SplitHostPort\<close>: host and port of \<^verbatim>\<open>host:port\<close> or \<^verbatim>\<open>[host]:port\<close>, \<open>None\<close> for an error.\<close>

definition SplitHostPort :: "string \<Rightarrow> (string \<times> string) option" where
  "SplitHostPort s =
     (case last_index (CHR '':'') s of
        None \<Rightarrow> None
      | Some i \<Rightarrow>
          (if hd s = CHR ''['' then
             (if CHR '']'' \<notin> set s then None
              else let e = length (takeWhile (\<lambda>x. x \<noteq> CHR '']'') s)
                   in if e + 1 \<noteq> i then None
                      else if CHR ''['' \<in> set (drop 1 s) \<or> CHR '']'' \<in> set (drop (e + 1) s) then None
                      else Some (slice s 1 e, drop (i + 1) s))
           else
             (if CHR '':'' \<in> set (take i s) then None
              else if CHR ''['' \<in> set s \<or> CHR '']'' \<in> set s then None
              else Some (take i s, drop (i + 1) s))))"

section \<open>Lemmas\<close>

lemma EqualFold_refl [simp]: "EqualFold s s"
  by (simp add: EqualFold_def)

lemma EqualFold_sym: "EqualFold s t \<Longrightarrow> EqualFold t s"
  by (simp add: EqualFold_def)

lemma EqualFold_trans: "EqualFold s t \<Longrightarrow> EqualFold t u \<Longrightarrow> EqualFold s u"
  by (simp add: EqualFold_def)

lemma HasPrefix_iff: "HasPrefix s p \<longleftrightarrow> (\<exists>t. s = p @ t)"
  by (metis HasPrefix_def append_eq_conv_conj append_take_drop_id)

lemma HasPrefix_Nil [simp]: "HasPrefix s []"
  by (simp add: HasPrefix_def)

lemma TrimPrefix_append [simp]: "TrimPrefix (p @ s) p = s"
  by (simp add: TrimPrefix_def HasPrefix_def)

lemma trim_by_Nil [simp]: "trim_by P [] = []"
  by (simp add: trim_by_def)

lemma slice_full [simp]: "slice s 0 (length s) = s"
  by (simp add: slice_def)

lemma split_on_nonempty [simp]: "split_on c s \<noteq> []"
  by (induction s) (auto split: list.splits)

lemma split_on_app_sep:
  "c \<notin> set w \<Longrightarrow> split_on c (w @ c # s) = w # split_on c s"
  by (induction w) auto

lemma split_on_no_sep: "c \<notin> set w \<Longrightarrow> split_on c w = [w]"
  by (induction w) auto

lemma of_char_less: "(of_char c :: nat) < 256"
  by simp

lemma lower_upper_char [simp]: "lower_char (upper_char c) = lower_char c"
  using of_char_less [of c]
  by (auto simp: lower_char_def upper_char_def is_upper_def is_lower_def)

lemma upper_lower_char [simp]: "upper_char (lower_char c) = upper_char c"
  using of_char_less [of c]
  by (auto simp: lower_char_def upper_char_def is_upper_def is_lower_def)

lemma upper_upper_char [simp]: "upper_char (upper_char c) = upper_char c"
  using of_char_less [of c] by (auto simp: upper_char_def is_lower_def)

lemma lower_lower_char [simp]: "lower_char (lower_char c) = lower_char c"
  using of_char_less [of c] by (auto simp: lower_char_def is_upper_def)

lemma ToLower_canon_chars: "ToLower (canon_chars up s) = ToLower s"
  by (induction s arbitrary: up) (auto simp: ToLower_def)

lemma EqualFold_canonical [simp]: "EqualFold (CanonicalHeaderKey s) t = EqualFold s t"
  by (simp add: EqualFold_def CanonicalHeaderKey_def ToLower_canon_chars)

lemma canonical_Nil_iff [simp]: "CanonicalHeaderKey s = [] \<longleftrightarrow> s = []"
  by (cases s) (simp_all add: CanonicalHeaderKey_def)

end
