(* ===== verification/Http.thy ===== *)
theory Http
  imports Go_Strings Upstreams "HOL-Library.AList"
begin

text \<open>
  The types of \<^verbatim>\<open>net/http\<close> the gateway works on: the header map with its canonical keys, the
  request and the response. A header is an association list in the order in which Go's map
  iteration would visit it, so a statement about every header is one about every iteration
  order. \<open>header_iface\<close> states the laws of the header operations; what the proxy and the
  plugins need of a row of deletions is proved inside it.
\<close>

section \<open>Headers\<close>

type_synonym header = "(string \<times> string list) list"

definition header_vals :: "header \<Rightarrow> string \<Rightarrow> string list" where
  "header_vals h k = (case map_of h k of None \<Rightarrow> [] | Some vs \<Rightarrow> vs)"

definition Values :: "header \<Rightarrow> string \<Rightarrow> string list" where
  "Values h k = header_vals h (CanonicalHeaderKey k)"

definition Get :: "header \<Rightarrow> string \<Rightarrow> string" where
  "Get h k = (case Values h k of [] \<Rightarrow> [] | v # _ \<Rightarrow> v)"

definition Set :: "string \<Rightarrow> string \<Rightarrow> header \<Rightarrow> header" where
  "Set k v h = AList.update (CanonicalHeaderKey k) [v] h"

definition Add :: "string \<Rightarrow> string \<Rightarrow> header \<Rightarrow> header" where
  "Add k v h = AList.update (CanonicalHeaderKey k) (Values h k @ [v]) h"

definition Del :: "string \<Rightarrow> header \<Rightarrow> header" where
  "Del k h = AList.delete (CanonicalHeaderKey k) h"

section \<open>Requests and responses\<close>

datatype Ctx = Background | WithTimeout Ctx int

record Request =
  Method :: string
  ReqURL :: URL
  ReqHost :: string
  ReqHeader :: header
  RemoteAddr :: string
  ReqTLS :: bool
  BodyLimit :: "int option"
  ReqCtx :: Ctx

text \<open>
  A response as \<open>RoundTrip\<close> returns it: the chunks its body yields when read, and whether
  reading it ends in an error.
\<close>

record Response =
  StatusCode :: int
  RespHeader :: header
  RespBody :: "string list"
  RespBodyErr :: bool
  Trailer :: header

text \<open>An error value, by what \<open>errors.As\<close> and \<open>errors.Is\<close> find in its chain.\<close>

record go_error =
  is_MaxBytesError :: bool
  is_net_Error :: bool
  is_ECONNRESET :: bool
  is_EPIPE :: bool

section \<open>The header interface\<close>

locale header_iface =
  fixes vals :: "'h \<Rightarrow> string \<Rightarrow> string list"
    and put :: "string \<Rightarrow> string list \<Rightarrow> 'h \<Rightarrow> 'h"
    and del :: "string \<Rightarrow> 'h \<Rightarrow> 'h"
    and key :: "string \<Rightarrow> string"
  assumes vals_put: "vals (put k vs h) j = (if j = key k then vs else vals h j)"
    and vals_del: "vals (del k h) j = (if j = key k then [] else vals h j)"
begin

definition del_all :: "string list \<Rightarrow> 'h \<Rightarrow> 'h" where
  "del_all ks h = fold del ks h"

lemma vals_del_all: "vals (del_all ks h) j = (if j \<in> key ` set ks then [] else vals h j)"
  unfolding del_all_def
  by (induction ks arbitrary: h) (auto simp: vals_del)

text \<open>The order of a row of deletions does not matter.\<close>

lemma vals_del_all_perm: "set ks = set ls \<Longrightarrow> vals (del_all ks h) j = vals (del_all ls h) j"
  by (simp add: vals_del_all)

end

definition put_vals :: "string \<Rightarrow> string list \<Rightarrow> header \<Rightarrow> header" where
  "put_vals k vs h = AList.update (CanonicalHeaderKey k) vs h"

interpretation hdr: header_iface header_vals put_vals Del CanonicalHeaderKey
proof
  show "header_vals (put_vals k vs h) j = (if j = CanonicalHeaderKey k then vs else header_vals h j)"
    for k vs h j
    by (simp add: header_vals_def put_vals_def AList.update_conv')
  show "header_vals (Del k h) j = (if j = CanonicalHeaderKey k then [] else header_vals h j)"
    for k h j
    by (simp add: header_vals_def Del_def AList.delete_conv')
qed

lemma Set_put: "Set k v h = put_vals k [v] h"
  by (simp add: Set_def put_vals_def)

lemma Add_put: "Add k v h = put_vals k (Values h k @ [v]) h"
  by (simp add: Add_def put_vals_def)

lemma vals_Set [header_simps]:
  "header_vals (Set k v h) j = (if j = CanonicalHeaderKey k then [v] else header_vals h j)"
  by (simp add: Set_put hdr.vals_put)

lemma vals_Add [header_simps]:
  "header_vals (Add k v h) j =
     (if j = CanonicalHeaderKey k then header_vals h j @ [v] else header_vals h j)"
  by (simp add: Add_put hdr.vals_put Values_def)

lemma vals_Del [header_simps]:
  "header_vals (Del k h) j = (if j = CanonicalHeaderKey k then [] else header_vals h j)"
  by (rule hdr.vals_del)

lemma vals_Nil [header_simps]: "header_vals [] k = []"
  by (simp add: header_vals_def)

lemma Get_vals: "Get h k = (case header_vals h (CanonicalHeaderKey k) of [] \<Rightarrow> [] | v # _ \<Rightarrow> v)"
  by (simp add: Get_def Values_def)

lemma Get_Set [header_simps]:
  "Get (Set k v h) j = (if CanonicalHeaderKey j = CanonicalHeaderKey k then v else Get h j)"
  by (simp add: Get_vals header_simps)

lemma Get_Del [header_simps]:
  "Get (Del k h) j = (if CanonicalHeaderKey j = CanonicalHeaderKey k then [] else Get h j)"
  by (simp add: Get_vals header_simps)

text \<open>
  The keys of a header map are distinct, and no key is bound to an empty list of values: the
  operations keep both.
\<close>

definition header_wf :: "header \<Rightarrow> bool" where
  "header_wf h \<longleftrightarrow> distinct (map fst h) \<and> [] \<notin> snd ` set h"

lemma header_wf_put: "header_wf h \<Longrightarrow> vs \<noteq> [] \<Longrightarrow> header_wf (put_vals k vs h)"
proof -
  assume wf: "header_wf h" and vs: "vs \<noteq> []"
  have sub: "snd ` set (AList.update j vs g) \<subseteq> insert vs (snd ` set g)" for j g
    by (induction g) auto
  have "[] \<notin> snd ` set (AList.update (CanonicalHeaderKey k) vs h)"
    using sub [of "CanonicalHeaderKey k" h] wf vs by (auto simp: header_wf_def simp del: image_iff)
  moreover have "distinct (map fst (AList.update (CanonicalHeaderKey k) vs h))"
    using wf by (simp add: header_wf_def AList.distinct_update)
  ultimately show ?thesis unfolding header_wf_def put_vals_def by blast
qed

lemma header_wf_Set: "header_wf h \<Longrightarrow> header_wf (Set k v h)"
  by (simp add: Set_put header_wf_put)

lemma header_wf_Add: "header_wf h \<Longrightarrow> header_wf (Add k v h)"
  by (simp add: Add_put header_wf_put)

lemma header_wf_Del: "header_wf h \<Longrightarrow> header_wf (Del k h)"
  by (auto simp: header_wf_def Del_def AList.delete_eq distinct_map_filter)

end
