(* ===== verification/Config.thy ===== *)
theory Config
  imports Go_Strings Complex_Main
begin

text \<open>
  The configuration of the gateway (\<^verbatim>\<open>src/internal/config/config.go\<close>): its records and the
  defaults applied after loading. Dynamic values (\<open>interface{}\<close>) are a datatype of the types
  the loaders produce; a map is an association list in iteration order, a \<open>float64\<close> a rational.
\<close>

section \<open>Data\<close>

datatype cfg_value =
    CStr string
  | CInt int
  | CFloat rat
  | CBool bool
  | CList "cfg_value list"
  | CMap "(string \<times> cfg_value) list"

text \<open>The conversion of a float to an integer.\<close>

definition trunc :: "rat \<Rightarrow> int" where
  "trunc x = (if x \<ge> 0 then \<lfloor>x\<rfloor> else \<lceil>x\<rceil>)"

type_synonym cfg_map = "(string \<times> cfg_value) list"

record HealthConfig =
  hc_Path :: string
  hc_IntervalSeconds :: int
  hc_TimeoutSeconds :: int

record ServerConfig =
  srv_Host :: string
  srv_Port :: int
  srv_HTTPSPort :: int
  srv_ReadTimeout :: int
  srv_WriteTimeout :: int
  srv_IdleTimeout :: int
  srv_TLSCertFile :: string
  srv_TLSKeyFile :: string
  srv_RedirectHTTPToHTTPS :: bool

record UpstreamConfig =
  uc_URL :: string
  uc_Weight :: int

record CircuitBreakerConfig =
  cb_FailureThreshold :: int
  cb_OpenDurationSeconds :: int
  cb_HalfOpenRequests :: int

record PluginConfig =
  pc_Name :: string
  pc_Enabled :: bool
  pc_Config :: cfg_map

record RouteConfig =
  rc_Name :: string
  rc_Host :: string
  rc_PathPrefix :: string
  rc_Upstreams :: "UpstreamConfig list"
  rc_TimeoutSeconds :: int
  rc_MaxBodyBytes :: int
  rc_MaxRetries :: int
  rc_Plugins :: "PluginConfig list"
  rc_CircuitBreaker :: CircuitBreakerConfig

record ProxyConfig =
  px_Algorithm :: string
  px_Routes :: "RouteConfig list"

record RateConfig =
  rate_RequestsPerSecond :: rat
  rate_Burst :: int

record AdminConfig =
  adm_Enabled :: bool
  adm_Host :: string
  adm_Port :: int

record GzipConfig =
  gz_Enabled :: bool
  gz_Level :: int
  gz_MinLength :: int
  gz_ContentTypes :: "string list"

record Config =
  cfg_Server :: ServerConfig
  cfg_Proxy :: ProxyConfig
  cfg_Rate :: RateConfig
  cfg_Health :: HealthConfig
  cfg_Admin :: AdminConfig
  cfg_Plugins :: "PluginConfig list"
  cfg_Gzip :: GzipConfig

text \<open>The zero value of the structure.\<close>

definition zero_CircuitBreaker :: CircuitBreakerConfig where
  "zero_CircuitBreaker =
     \<lparr>cb_FailureThreshold = 0, cb_OpenDurationSeconds = 0, cb_HalfOpenRequests = 0\<rparr>"

definition zero_Config :: Config where
  "zero_Config =
     \<lparr>cfg_Server = \<lparr>srv_Host = [], srv_Port = 0, srv_HTTPSPort = 0, srv_ReadTimeout = 0,
        srv_WriteTimeout = 0, srv_IdleTimeout = 0, srv_TLSCertFile = [], srv_TLSKeyFile = [],
        srv_RedirectHTTPToHTTPS = False\<rparr>,
      cfg_Proxy = \<lparr>px_Algorithm = [], px_Routes = []\<rparr>,
      cfg_Rate = \<lparr>rate_RequestsPerSecond = 0, rate_Burst = 0\<rparr>,
      cfg_Health = \<lparr>hc_Path = [], hc_IntervalSeconds = 0, hc_TimeoutSeconds = 0\<rparr>,
      cfg_Admin = \<lparr>adm_Enabled = False, adm_Host = [], adm_Port = 0\<rparr>,
      cfg_Plugins = [],
      cfg_Gzip = \<lparr>gz_Enabled = False, gz_Level = 0, gz_MinLength = 0, gz_ContentTypes = []\<rparr>\<rparr>"

section \<open>Defaults\<close>

definition defaultContentTypes :: "string list" where
  "defaultContentTypes =
     [''text/plain'', ''text/html'', ''text/css'', ''application/json'', ''application/javascript'']"

definition default_upstream :: "UpstreamConfig \<Rightarrow> UpstreamConfig" where
  "default_upstream u = (if uc_Weight u \<le> 0 then u\<lparr>uc_Weight := 1\<rparr> else u)"

definition default_breaker :: "CircuitBreakerConfig \<Rightarrow> CircuitBreakerConfig" where
  "default_breaker b =
     (let b1 = (if cb_FailureThreshold b = 0 then b\<lparr>cb_FailureThreshold := 3\<rparr> else b);
          b2 = (if cb_OpenDurationSeconds b1 = 0 then b1\<lparr>cb_OpenDurationSeconds := 30\<rparr> else b1)
      in if cb_HalfOpenRequests b2 = 0 then b2\<lparr>cb_HalfOpenRequests := 1\<rparr> else b2)"

definition default_route :: "RouteConfig \<Rightarrow> RouteConfig" where
  "default_route r =
     (let r1 = (if rc_PathPrefix r = [] then r\<lparr>rc_PathPrefix := ''/''\<rparr> else r);
          r2 = (if rc_TimeoutSeconds r1 = 0 then r1\<lparr>rc_TimeoutSeconds := 30\<rparr> else r1);
          r3 = (if rc_MaxRetries r2 = 0 then r2\<lparr>rc_MaxRetries := 2\<rparr> else r2);
          r4 = r3\<lparr>rc_CircuitBreaker := default_breaker (rc_CircuitBreaker r3)\<rparr>
      in r4\<lparr>rc_Upstreams := map default_upstream (rc_Upstreams r4)\<rparr>)"

definition default_admin :: "AdminConfig \<Rightarrow> AdminConfig" where
  "default_admin a =
     (let a1 = (if adm_Host a = [] then a\<lparr>adm_Host := ''127.0.0.1''\<rparr> else a)
      in if adm_Port a1 = 0 then a1\<lparr>adm_Port := 8090\<rparr> else a1)"

definition default_gzip :: "GzipConfig \<Rightarrow> GzipConfig" where
  "default_gzip g =
     (let g1 = (if gz_Level g = 0 then g\<lparr>gz_Level := 6\<rparr> else g);
          g2 = (if gz_MinLength g1 = 0 then g1\<lparr>gz_MinLength := 1024\<rparr> else g1)
      in if length (gz_ContentTypes g2) = 0
         then g2\<lparr>gz_ContentTypes := defaultContentTypes\<rparr> else g2)"

definition default_health :: "HealthConfig \<Rightarrow> HealthConfig" where
  "default_health h =
     (let h1 = (if hc_Path h = [] then h\<lparr>hc_Path := ''/''\<rparr> else h);
          h2 = (if hc_IntervalSeconds h1 = 0 then h1\<lparr>hc_IntervalSeconds := 5\<rparr> else h1)
      in if hc_TimeoutSeconds h2 = 0 then h2\<lparr>hc_TimeoutSeconds := 2\<rparr> else h2)"

definition applyDefaults :: "Config \<Rightarrow> Config" where
  "applyDefaults cfg =
     cfg\<lparr>cfg_Admin := default_admin (cfg_Admin cfg),
         cfg_Gzip := default_gzip (cfg_Gzip cfg),
         cfg_Health := default_health (cfg_Health cfg),
         cfg_Proxy := (cfg_Proxy cfg)\<lparr>px_Routes := map default_route (px_Routes (cfg_Proxy cfg))\<rparr>\<rparr>"

section \<open>Lemmas\<close>

lemmas default_defs =
  default_upstream_def default_breaker_def default_route_def default_admin_def default_gzip_def
  default_health_def defaultContentTypes_def Let_def

lemma default_upstream_idem [simp]: "default_upstream (default_upstream u) = default_upstream u"
  by (simp add: default_upstream_def)

lemma default_breaker_idem [simp]: "default_breaker (default_breaker b) = default_breaker b"
  by (simp add: default_breaker_def Let_def)

lemma default_route_idem [simp]: "default_route (default_route r) = default_route r"
  by (simp add: default_route_def Let_def comp_def)

text \<open>A route that can serve: no zero value is left where the proxy would misread it.\<close>

definition route_ready :: "RouteConfig \<Rightarrow> bool" where
  "route_ready r \<longleftrightarrow>
     rc_PathPrefix r \<noteq> [] \<and> rc_TimeoutSeconds r \<noteq> 0 \<and> rc_MaxRetries r \<noteq> 0 \<and>
     cb_FailureThreshold (rc_CircuitBreaker r) \<noteq> 0 \<and>
     cb_OpenDurationSeconds (rc_CircuitBreaker r) \<noteq> 0 \<and>
     cb_HalfOpenRequests (rc_CircuitBreaker r) \<noteq> 0 \<and>
     (\<forall>u \<in> set (rc_Upstreams r). 0 < uc_Weight u)"

lemma default_route_ready: "route_ready (default_route r)"
  by (auto simp: route_ready_def default_defs)

lemma default_route_id: "route_ready r \<Longrightarrow> default_route r = r"
proof -
  assume ready: "route_ready r"
  then have "map default_upstream (rc_Upstreams r) = rc_Upstreams r"
    by (auto simp: route_ready_def default_upstream_def intro!: map_idI)
  with ready show ?thesis
    by (simp add: route_ready_def default_route_def default_breaker_def Let_def)
qed

section \<open>Properties\<close>

text \<open>
  Defaults are applied once and for all: after \<open>applyDefaults\<close> every route has a path prefix, a
  timeout, a retry budget, breaker limits and positive weights, the admin, gzip and health
  sections are filled in, and applying the defaults again changes nothing.
\<close>

lemma applyDefaults_complete:
  "list_all route_ready (px_Routes (cfg_Proxy (applyDefaults cfg))) \<and>
   adm_Host (cfg_Admin (applyDefaults cfg)) \<noteq> [] \<and> adm_Port (cfg_Admin (applyDefaults cfg)) \<noteq> 0 \<and>
   gz_Level (cfg_Gzip (applyDefaults cfg)) \<noteq> 0 \<and> gz_MinLength (cfg_Gzip (applyDefaults cfg)) \<noteq> 0 \<and>
   gz_ContentTypes (cfg_Gzip (applyDefaults cfg)) \<noteq> [] \<and>
   hc_Path (cfg_Health (applyDefaults cfg)) \<noteq> [] \<and>
   hc_IntervalSeconds (cfg_Health (applyDefaults cfg)) \<noteq> 0 \<and>
   hc_TimeoutSeconds (cfg_Health (applyDefaults cfg)) \<noteq> 0 \<and>
   applyDefaults (applyDefaults cfg) = applyDefaults cfg"
  by (simp add: applyDefaults_def list.pred_map comp_def default_route_ready list_all_iff)
    (simp add: default_admin_def default_gzip_def default_health_def defaultContentTypes_def Let_def)

text \<open>
  Defaults never override what was configured: a configuration in which every section is
  filled in is left as it is, whatever the values, and the server, rate limit and plugin
  sections are never touched.
\<close>

lemma applyDefaults_conservative:
  "cfg_Server (applyDefaults cfg) = cfg_Server cfg \<and> cfg_Rate (applyDefaults cfg) = cfg_Rate cfg \<and>
   cfg_Plugins (applyDefaults cfg) = cfg_Plugins cfg \<and>
   px_Algorithm (cfg_Proxy (applyDefaults cfg)) = px_Algorithm (cfg_Proxy cfg) \<and>
   map rc_Name (px_Routes (cfg_Proxy (applyDefaults cfg))) = map rc_Name (px_Routes (cfg_Proxy cfg)) \<and>
   (list_all route_ready (px_Routes (cfg_Proxy cfg)) \<and>
      adm_Host (cfg_Admin cfg) \<noteq> [] \<and> adm_Port (cfg_Admin cfg) \<noteq> 0 \<and>
      gz_Level (cfg_Gzip cfg) \<noteq> 0 \<and> gz_MinLength (cfg_Gzip cfg) \<noteq> 0 \<and>
      gz_ContentTypes (cfg_Gzip cfg) \<noteq> [] \<and> hc_Path (cfg_Health cfg) \<noteq> [] \<and>
      hc_IntervalSeconds (cfg_Health cfg) \<noteq> 0 \<and> hc_TimeoutSeconds (cfg_Health cfg) \<noteq> 0 \<longrightarrow>
    applyDefaults cfg = cfg)"
proof -
  have "map default_route rs = rs" if "list_all route_ready rs" for rs
    using that by (auto simp: list_all_iff default_route_id intro!: map_idI)
  then show ?thesis
    by (simp add: applyDefaults_def default_admin_def default_gzip_def default_health_def
        default_route_def Let_def)
qed

lemma applyDefaults_conservative_instance:
  "applyDefaults (applyDefaults zero_Config) = applyDefaults zero_Config"
proof -
  have "list_all route_ready (px_Routes (cfg_Proxy (applyDefaults zero_Config)))"
    by (simp add: applyDefaults_def zero_Config_def)
  then show ?thesis
    using applyDefaults_conservative [of "applyDefaults zero_Config"]
    by (simp add: applyDefaults_def zero_Config_def default_admin_def default_gzip_def
        default_health_def defaultContentTypes_def Let_def)
qed

end
