(* ===== verification/Writer.thy ===== *)
theory Writer
  imports Http Config
begin

text \<open>
  Response writers. A handler writes to a chain of wrappers around the writer of the HTTP
  server: the response recorder of the logging middleware
  (\<^verbatim>\<open>src/internal/middleware/recorder.go\<close>), the gzip writer (\<^verbatim>\<open>gzip.go\<close>) and the writer of the
  response transformer plugin (\<^verbatim>\<open>src/internal/plugin/plugins/response_transformer.go\<close>). The chain
  is a list, outermost wrapper first; Go's dynamic dispatch is a case distinction on the
  first element. All wrappers share the header map of the server's writer.

  The server's writer follows \<^verbatim>\<open>net/http\<close>: the first \<open>WriteHeader\<close> that is not informational sends
  the status and the headers as they are then; \<open>Write\<close> sends status 200 first if none was sent,
  and fails when the status admits no body or the connection is broken. Its three optional
  interfaces are flags. The writer that \<open>http.TimeoutHandler\<close> gives to the handler it runs is a
  server writer too, with \<open>bw_timeout\<close> set: it only buffers, so it takes a body with every
  status, and an informational status is final for it.

  \<open>WriteHeader\<close> panics on a status code outside 100 to 999. The functions below give its effect up to
  that point, and \<open>WriteHeader_panics\<close> says whether it panics; a caller whose code can be such a
  number asks for it, for the other callers the code is a constant of the source.
\<close>

section \<open>The server's writer\<close>

record base_writer =
  bw_header :: header
  bw_sent :: "(int \<times> header) option"
  bw_body :: string
  bw_flushes :: nat
  bw_broken :: bool
  bw_flusher :: bool
  bw_hijacker :: bool
  bw_readfrom :: bool
  bw_timeout :: bool

datatype write_result = Wrote nat | WriteFailed nat | WritePanic

definition informational :: "int \<Rightarrow> bool" where
  "informational code = (100 \<le> code \<and> code \<le> 199 \<and> code \<noteq> 101)"

definition bodyAllowed :: "int \<Rightarrow> bool" where
  "bodyAllowed code = (\<not> (100 \<le> code \<and> code \<le> 199) \<and> code \<noteq> 204 \<and> code \<noteq> 304)"

definition invalid_code :: "int \<Rightarrow> bool" where
  "invalid_code code = (code < 100 \<or> code > 999)"

definition base_WriteHeader :: "int \<Rightarrow> base_writer \<Rightarrow> base_writer" where
  "base_WriteHeader code b =
     (if invalid_code code then b
      else case bw_sent b of
        Some _ \<Rightarrow> b
      | None \<Rightarrow> if informational code \<and> \<not> bw_timeout b then b else b\<lparr>bw_sent := Some (code, bw_header b)\<rparr>)"

text \<open>
  The server's writer checks the code after it has seen that no header was sent, the one of
  \<open>http.TimeoutHandler\<close> before.
\<close>

definition base_WriteHeader_panics :: "int \<Rightarrow> base_writer \<Rightarrow> bool" where
  "base_WriteHeader_panics code b = (invalid_code code \<and> (bw_timeout b \<or> bw_sent b = None))"

definition base_Write :: "string \<Rightarrow> base_writer \<Rightarrow> base_writer \<times> write_result" where
  "base_Write bs b =
     (let b1 = base_WriteHeader 200 b
      in if bs = [] then (b1, Wrote 0)
         else if bw_broken b1 \<or> \<not> bw_timeout b1 \<and> \<not> bodyAllowed (fst (the (bw_sent b1)))
         then (b1, WriteFailed 0)
         else (b1\<lparr>bw_body := bw_body b1 @ bs\<rparr>, Wrote (length bs)))"

section \<open>The wrappers\<close>

record ResponseRecorder =
  rec_StatusCode :: int
  rec_Bytes :: int

text \<open>
  The gzip encoder: what it writes when it is first written to, and what \<open>Close\<close> has written
  after that for all the data it was given.
\<close>

record gzip_codec =
  cd_head :: string
  cd_rest :: "string \<Rightarrow> string"

text \<open>
  \<open>gzw_gz\<close> is the \<open>gzip.Writer\<close>: \<open>None\<close> is nil, \<open>Some data\<close> one that was given \<open>data\<close>; \<open>gzw_headed\<close> says
  that it has been written to.
\<close>

record gzipResponseWriter =
  gzw_cfg :: GzipConfig
  gzw_codec :: gzip_codec
  gzw_gz :: "string option"
  gzw_headed :: bool
  gzw_buf :: string
  gzw_status :: int
  gzw_activated :: bool
  gzw_headersSent :: bool

record transformResponseWriter =
  tw_addHeaders :: "(string \<times> string) list"
  tw_removeHeaders :: "string list"
  tw_renameHeaders :: "(string \<times> string) list"
  tw_wroteHeader :: bool

datatype layer =
    Recorder ResponseRecorder
  | Gzip gzipResponseWriter
  | Transform transformResponseWriter

record writer =
  w_layers :: "layer list"
  w_base :: base_writer

definition NewResponseRecorder :: ResponseRecorder where
  "NewResponseRecorder = \<lparr>rec_StatusCode = 200, rec_Bytes = 0\<rparr>"

definition newTransformResponseWriter ::
  "(string \<times> string) list \<Rightarrow> string list \<Rightarrow> (string \<times> string) list \<Rightarrow> transformResponseWriter" where
  "newTransformResponseWriter add remove rename =
     \<lparr>tw_addHeaders = add, tw_removeHeaders = remove, tw_renameHeaders = rename,
      tw_wroteHeader = False\<rparr>"

text \<open>The loops of \<open>applyTransforms\<close>: remove, rename, add.\<close>

definition transform_headers ::
  "string list \<Rightarrow> (string \<times> string) list \<Rightarrow> (string \<times> string) list \<Rightarrow> header \<Rightarrow> header" where
  "transform_headers remove rename add h =
     (let h1 = fold Del remove h;
          h2 = fold (\<lambda>(old, newName) h.
                 let val = Get h old in if val \<noteq> [] then Del old (Set newName val h) else h) rename h1
      in fold (\<lambda>(k, v). Set k v) add h2)"

definition applyTransforms :: "transformResponseWriter \<Rightarrow> base_writer \<Rightarrow> base_writer" where
  "applyTransforms t b =
     b\<lparr>bw_header := transform_headers (tw_removeHeaders t) (tw_renameHeaders t) (tw_addHeaders t)
                     (bw_header b)\<rparr>"

definition transform_once ::
  "transformResponseWriter \<Rightarrow> base_writer \<Rightarrow> transformResponseWriter \<times> base_writer" where
  "transform_once t b =
     (if \<not> tw_wroteHeader t
      then (let t1 = t\<lparr>tw_wroteHeader := True\<rparr> in (t1, applyTransforms t1 b)) else (t, b))"

subsection \<open>WriteHeader\<close>

fun layers_WriteHeader :: "int \<Rightarrow> layer list \<Rightarrow> base_writer \<Rightarrow> layer list \<times> base_writer" where
  "layers_WriteHeader code [] b = ([], base_WriteHeader code b)"
| "layers_WriteHeader code (Recorder r # ls) b =
     (let (ls', b') = layers_WriteHeader code ls b
      in (Recorder (r\<lparr>rec_StatusCode := code\<rparr>) # ls', b'))"
| "layers_WriteHeader code (Gzip g # ls) b = (Gzip (g\<lparr>gzw_status := code\<rparr>) # ls, b)"
| "layers_WriteHeader code (Transform t # ls) b =
     (let (t', b1) = transform_once t b;
          (ls', b') = layers_WriteHeader code ls b1
      in (Transform t' # ls', b'))"

fun WriteHeader_panics :: "int \<Rightarrow> layer list \<Rightarrow> base_writer \<Rightarrow> bool" where
  "WriteHeader_panics code [] b = base_WriteHeader_panics code b"
| "WriteHeader_panics code (Gzip g # ls) b = False"
| "WriteHeader_panics code (_ # ls) b = WriteHeader_panics code ls b"

lemma WriteHeader_panics_invalid: "WriteHeader_panics code ls b \<Longrightarrow> invalid_code code"
  by (induction code ls b rule: WriteHeader_panics.induct) (auto simp: base_WriteHeader_panics_def)

lemma valid_code_no_panic [simp]: "\<not> invalid_code code \<Longrightarrow> \<not> WriteHeader_panics code ls b"
  using WriteHeader_panics_invalid by blast

lemma length_layers_WriteHeader [simp]:
  "length (fst (layers_WriteHeader code ls b)) = length ls"
  by (induction code ls b rule: layers_WriteHeader.induct) (auto split: prod.splits)

subsection \<open>The decision of the gzip writer\<close>

definition wildcard_match :: "string \<Rightarrow> string \<Rightarrow> bool" where
  "wildcard_match ct allowed =
     (EqualFold ct allowed \<or>
      HasSuffix allowed ''/*'' \<and> HasPrefix (ToLower ct) (ToLower (TrimSuffix allowed ''*'')))"

definition matchContentType :: "GzipConfig \<Rightarrow> string \<Rightarrow> bool" where
  "matchContentType cfg ct =
     (if ct = [] then False
      else let ct1 = (case Index ct '';'' of Some idx \<Rightarrow> TrimSpace (take idx ct) | None \<Rightarrow> ct)
           in list_ex (wildcard_match ct1) (gz_ContentTypes cfg))"

text \<open>
  The pool's \<open>gzip.NewWriterLevel\<close> returns nil for a level it does not know, and the error is
  dropped; \<open>activate\<close> then panics when it resets that writer.
\<close>

definition gzip_nil_writer :: "gzipResponseWriter \<Rightarrow> base_writer \<Rightarrow> bool" where
  "gzip_nil_writer g b =
     (matchContentType (gzw_cfg g) (Get (bw_header b) ''Content-Type'') \<and>
      \<not> (- 2 \<le> gz_Level (gzw_cfg g) \<and> gz_Level (gzw_cfg g) \<le> 9))"

text \<open>\<open>activate\<close> up to the flush of the headers.\<close>

definition gzip_decide ::
  "gzipResponseWriter \<Rightarrow> base_writer \<Rightarrow> gzipResponseWriter \<times> base_writer" where
  "gzip_decide g b =
     (let g1 = g\<lparr>gzw_activated := True\<rparr>;
          ct = Get (bw_header b) ''Content-Type''
      in if matchContentType (gzw_cfg g1) ct
         then (g1\<lparr>gzw_gz := Some []\<rparr>,
               b\<lparr>bw_header := Add ''Vary'' ''Accept-Encoding''
                    (Del ''Content-Length'' (Set ''Content-Encoding'' ''gzip'' (bw_header b)))\<rparr>)
         else (g1, b))"

definition flushHeaders ::
  "gzipResponseWriter \<Rightarrow> layer list \<Rightarrow> base_writer \<Rightarrow> gzipResponseWriter \<times> layer list \<times> base_writer" where
  "flushHeaders g ls b =
     (if gzw_headersSent g then (g, ls, b)
      else let g1 = g\<lparr>gzw_headersSent := True\<rparr>
           in if gzw_status g1 \<noteq> 0
              then (let (ls', b') = layers_WriteHeader (gzw_status g1) ls b in (g1, ls', b'))
              else (g1, ls, b))"

definition flushHeaders_panics :: "gzipResponseWriter \<Rightarrow> layer list \<Rightarrow> base_writer \<Rightarrow> bool" where
  "flushHeaders_panics g ls b =
     (\<not> gzw_headersSent g \<and> gzw_status g \<noteq> 0 \<and> WriteHeader_panics (gzw_status g) ls b)"

lemma length_flushHeaders [simp]: "length (fst (snd (flushHeaders g ls b))) = length ls"
  by (simp add: flushHeaders_def Let_def case_prod_beta)

subsection \<open>Write\<close>

text \<open>
  In the gzip case: an activated writer hands the bytes to its \<open>gzip.Writer\<close>, which panics when
  that is nil; otherwise the bytes are buffered and, once there are enough of them, \<open>activate\<close>
  decides, flushes the headers and writes the buffer, encoded or not. A panic leaves the writer as
  it is then, and no handler goes on writing after it.
\<close>

function layers_Write ::
  "string \<Rightarrow> layer list \<Rightarrow> base_writer \<Rightarrow> layer list \<times> base_writer \<times> write_result" where
  "layers_Write bs [] b = (let (b', res) = base_Write bs b in ([], b', res))"
| "layers_Write bs (Recorder r # ls) b =
     (let (ls', b', res) = layers_Write bs ls b;
          n = (case res of Wrote n \<Rightarrow> n | WriteFailed n \<Rightarrow> n | WritePanic \<Rightarrow> 0)
      in (Recorder (r\<lparr>rec_Bytes := rec_Bytes r + int n\<rparr>) # ls', b', res))"
| "layers_Write bs (Transform t # ls) b =
     (let (t', b1) = transform_once t b;
          (ls', b', res) = layers_Write bs ls b1
      in (Transform t' # ls', b', res))"
| "layers_Write bs (Gzip g # ls) b =
     (if gzw_activated g then
        (case gzw_gz g of
           None \<Rightarrow> (Gzip g # ls, b, WritePanic)
         | Some data \<Rightarrow> (Gzip (g\<lparr>gzw_gz := Some (data @ bs)\<rparr>) # ls, b, Wrote (length bs)))
      else
        (let g1 = g\<lparr>gzw_buf := gzw_buf g @ bs\<rparr>
         in if int (length (gzw_buf g1)) < gz_MinLength (gzw_cfg g1)
            then (Gzip g1 # ls, b, Wrote (length bs))
            else if gzip_nil_writer g1 b
            then (Gzip (g1\<lparr>gzw_activated := True\<rparr>) # ls, b, WritePanic)
            else (let d = gzip_decide g1 b;
                      f = flushHeaders (fst d) ls (snd d);
                      g3 = fst f
                  in if flushHeaders_panics (fst d) ls (snd d)
                     then (Gzip g3 # fst (snd f), snd (snd f), WritePanic)
                     else (let buf = gzw_buf g3;
                               g4 = g3\<lparr>gzw_buf := [], gzw_headed := True,
                                       gzw_gz := map_option (\<lambda>data. data @ buf) (gzw_gz g3)\<rparr>;
                               out = (if gzw_gz g3 = None then buf else cd_head (gzw_codec g3));
                               w = layers_Write out (fst (snd f)) (snd (snd f))
                           in (Gzip g4 # fst w, fst (snd w),
                               if snd (snd w) = WritePanic then WritePanic else Wrote (length bs))))))"
  by pat_completeness auto
termination by (relation "measure (\<lambda>x. length (fst (snd x)))") auto

text \<open>\<open>close\<close> of the gzip writer, deferred by the middleware.\<close>

definition gzip_close ::
  "gzipResponseWriter \<Rightarrow> layer list \<Rightarrow> base_writer
     \<Rightarrow> gzipResponseWriter \<times> layer list \<times> base_writer \<times> write_result" where
  "gzip_close g ls b =
     (if \<not> gzw_activated g then
        (let (g1, ls1, b1) = flushHeaders g ls b
         in if flushHeaders_panics g ls b then (g1, ls1, b1, WritePanic)
            else if length (gzw_buf g1) > 0
            then (let (ls2, b2, res) = layers_Write (gzw_buf g1) ls1 b1 in (g1, ls2, b2, res))
            else (g1, ls1, b1, Wrote 0))
      else
        (case gzw_gz g of
           None \<Rightarrow> (g, ls, b, Wrote 0)
         | Some data \<Rightarrow>
             (let (ls1, b1, res) = layers_Write ((if gzw_headed g then [] else cd_head (gzw_codec g))
                    @ cd_rest (gzw_codec g) data) ls b
              in (g\<lparr>gzw_gz := None\<rparr>, ls1, b1, res))))"

section \<open>The methods of the chain\<close>

definition w_header :: "writer \<Rightarrow> header" where
  "w_header w = bw_header (w_base w)"

definition w_set_header :: "(header \<Rightarrow> header) \<Rightarrow> writer \<Rightarrow> writer" where
  "w_set_header f w = w\<lparr>w_base := (w_base w)\<lparr>bw_header := f (bw_header (w_base w))\<rparr>\<rparr>"

definition w_WriteHeader :: "int \<Rightarrow> writer \<Rightarrow> writer" where
  "w_WriteHeader code w =
     (let (ls, b) = layers_WriteHeader code (w_layers w) (w_base w) in \<lparr>w_layers = ls, w_base = b\<rparr>)"

definition w_WriteHeader_panics :: "int \<Rightarrow> writer \<Rightarrow> bool" where
  "w_WriteHeader_panics code w = WriteHeader_panics code (w_layers w) (w_base w)"

definition w_Write :: "string \<Rightarrow> writer \<Rightarrow> writer \<times> write_result" where
  "w_Write bs w =
     (let (ls, b, res) = layers_Write bs (w_layers w) (w_base w)
      in (\<lparr>w_layers = ls, w_base = b\<rparr>, res))"

text \<open>
  The optional interfaces, found by type assertion: the recorder declares all of them; the gzip
  and the transforming writer embed only the plain interface.
\<close>

fun is_ReaderFrom :: "layer list \<Rightarrow> base_writer \<Rightarrow> bool" where
  "is_ReaderFrom [] b = bw_readfrom b"
| "is_ReaderFrom (Recorder r # ls) b = True"
| "is_ReaderFrom (_ # ls) b = False"

fun is_Hijacker :: "layer list \<Rightarrow> base_writer \<Rightarrow> bool" where
  "is_Hijacker [] b = bw_hijacker b"
| "is_Hijacker (Recorder r # ls) b = True"
| "is_Hijacker (_ # ls) b = False"

text \<open>\<open>Hijack\<close>, of the recorder: \<open>ErrNotSupported\<close> when the wrapped writer is no \<open>Hijacker\<close>.\<close>

fun layers_Hijack :: "layer list \<Rightarrow> base_writer \<Rightarrow> bool" where
  "layers_Hijack [] b = bw_hijacker b"
| "layers_Hijack (Recorder r # ls) b = (if \<not> is_Hijacker ls b then False else layers_Hijack ls b)"
| "layers_Hijack (_ # ls) b = False"

fun is_Flusher :: "layer list \<Rightarrow> base_writer \<Rightarrow> bool" where
  "is_Flusher [] b = bw_flusher b"
| "is_Flusher (Recorder r # ls) b = True"
| "is_Flusher (_ # ls) b = False"

fun layers_Flush :: "layer list \<Rightarrow> base_writer \<Rightarrow> base_writer" where
  "layers_Flush [] b = (base_WriteHeader 200 b)\<lparr>bw_flushes := bw_flushes b + 1\<rparr>"
| "layers_Flush (Recorder r # ls) b = (if is_Flusher ls b then layers_Flush ls b else b)"
| "layers_Flush (_ # ls) b = b"

definition w_Flush :: "writer \<Rightarrow> writer" where
  "w_Flush w = (if is_Flusher (w_layers w) (w_base w)
                then w\<lparr>w_base := layers_Flush (w_layers w) (w_base w)\<rparr> else w)"

subsection \<open>Copying a body\<close>

datatype copy_result = Copied | CopyError | CopyPanic

text \<open>The generic loop of \<open>io.Copy\<close>: one \<open>Write\<close> per chunk; a read error ends it.\<close>

fun copy_chunks ::
  "string list \<Rightarrow> bool \<Rightarrow> layer list \<Rightarrow> base_writer \<Rightarrow> layer list \<times> base_writer \<times> nat \<times> copy_result" where
  "copy_chunks [] err ls b = (ls, b, 0, if err then CopyError else Copied)"
| "copy_chunks (c # cs) err ls b =
     (let (ls1, b1, res) = layers_Write c ls b
      in case res of
           WritePanic \<Rightarrow> (ls1, b1, 0, CopyPanic)
         | WriteFailed n \<Rightarrow> (ls1, b1, n, CopyError)
         | Wrote n \<Rightarrow>
             (let (ls2, b2, k, r) = copy_chunks cs err ls1 b1 in (ls2, b2, n + k, r)))"

text \<open>
  \<open>io.Copy\<close> into the chain: a recorder is a \<open>ReaderFrom\<close>, and its \<open>ReadFrom\<close> counts the bytes only
  when the writer it wraps is a \<open>ReaderFrom\<close> too.
\<close>

fun io_Copy ::
  "string list \<Rightarrow> bool \<Rightarrow> layer list \<Rightarrow> base_writer \<Rightarrow> layer list \<times> base_writer \<times> nat \<times> copy_result" where
  "io_Copy chunks err (Recorder r # ls) b =
     (let (ls', b', n, res) = io_Copy chunks err ls b
      in if is_ReaderFrom ls b
         then (Recorder (r\<lparr>rec_Bytes := rec_Bytes r + int n\<rparr>) # ls', b', n, res)
         else (Recorder r # ls', b', n, res))"
| "io_Copy chunks err ls b = copy_chunks chunks err ls b"

definition w_Copy :: "string list \<Rightarrow> bool \<Rightarrow> writer \<Rightarrow> writer \<times> copy_result" where
  "w_Copy chunks err w =
     (let (ls, b, n, res) = io_Copy chunks err (w_layers w) (w_base w)
      in (\<lparr>w_layers = ls, w_base = b\<rparr>, res))"

subsection \<open>http.Error\<close>

text \<open>The flag says whether the header or the body panicked.\<close>

definition http_Error :: "string \<Rightarrow> int \<Rightarrow> writer \<Rightarrow> writer \<times> bool" where
  "http_Error msg code w =
     (let w1 = w_set_header (\<lambda>h. Set ''X-Content-Type-Options'' ''nosniff''
                 (Set ''Content-Type'' ''text/plain; charset=utf-8'' (Del ''Content-Length'' h))) w;
          w2 = w_WriteHeader code w1
      in if w_WriteHeader_panics code w1 then (w2, True)
         else let (w3, res) = w_Write (msg @ [CHR 0x0A]) w2 in (w3, res = WritePanic))"

end
