(* ===== verification/Proxy_Headers.thy ===== *)
theory Proxy_Headers
  imports Http
begin

text \<open>
  What the proxy does to requests and headers before it forwards them
  (\<^verbatim>\<open>src/internal/proxy/headers.go\<close>, \<^verbatim>\<open>upgrade.go\<close> and \<^verbatim>\<open>request.go\<close>): the removal of
  hop-by-hop headers, the tokenizer of header values, the detection of WebSocket upgrades,
  and the rewriting of the outbound request. The index loops of the Go code are kept and
  proved equal to their list versions.
\<close>

section \<open>headers.go\<close>

definition hopByHopHeaders :: "string list" where
  "hopByHopHeaders =
     [''Connection'', ''Proxy-Connection'', ''Keep-Alive'', ''Proxy-Authenticate'',
      ''Proxy-Authorization'', ''Te'', ''Trailer'', ''Transfer-Encoding'', ''Upgrade'']"

text \<open>A blank of \<open>trimSpaces\<close>: space or tab.\<close>

definition is_blank :: "char \<Rightarrow> bool" where
  "is_blank c = (c = CHR '' '' \<or> c = CHR 0x09)"

text \<open>The two loops of \<open>trimSpaces\<close>.\<close>

function trim_start :: "string \<Rightarrow> nat \<Rightarrow> nat \<Rightarrow> nat" where
  "trim_start s start e =
     (if start < e \<and> is_blank (s ! start) then trim_start s (start + 1) e else start)"
  by pat_completeness auto
termination by (relation "measure (\<lambda>(s, start, e). e - start)") auto

fun trim_end :: "string \<Rightarrow> nat \<Rightarrow> nat \<Rightarrow> nat" where
  "trim_end s start e =
     (if e > start \<and> is_blank (s ! (e - 1)) then trim_end s start (e - 1) else e)"

definition trimSpaces :: "string \<Rightarrow> string" where
  "trimSpaces s =
     (let start = trim_start s 0 (length s);
          e = trim_end s start (length s)
      in slice s start e)"

text \<open>The loop of \<open>splitHeaderTokens\<close>.\<close>

function split_tokens :: "string \<Rightarrow> nat \<Rightarrow> nat \<Rightarrow> string list \<Rightarrow> string list" where
  "split_tokens v i start tokens =
     (if i \<le> length v then
        (if i = length v \<or> v ! i = CHR '','' then
           (let token = CanonicalHeaderKey (trimSpaces (slice v start i))
            in split_tokens v (i + 1) (i + 1) (if token \<noteq> [] then tokens @ [token] else tokens))
         else split_tokens v (i + 1) start tokens)
      else tokens)"
  by pat_completeness auto
termination by (relation "measure (\<lambda>(v, i, start, tokens). Suc (length v) - i)") auto

definition splitHeaderTokens :: "string \<Rightarrow> string list" where
  "splitHeaderTokens v = split_tokens v 0 0 []"

definition removeHopByHopHeaders :: "header \<Rightarrow> header" where
  "removeHopByHopHeaders h =
     (let h1 = fold Del hopByHopHeaders h
      in fold (\<lambda>connectionValue. fold Del (splitHeaderTokens connectionValue))
           (Values h1 ''Connection'') h1)"

section \<open>upgrade.go\<close>

definition headerContainsToken :: "header \<Rightarrow> string \<Rightarrow> string \<Rightarrow> bool" where
  "headerContainsToken h key want =
     list_ex (\<lambda>v. list_ex (\<lambda>token. EqualFold token want) (splitHeaderTokens v)) (Values h key)"

definition isWebSocketUpgrade :: "Request \<Rightarrow> bool" where
  "isWebSocketUpgrade r =
     (if \<not> headerContainsToken (ReqHeader r) ''Connection'' ''upgrade'' then False
      else EqualFold (Get (ReqHeader r) ''Upgrade'') ''websocket'')"

section \<open>request.go\<close>

definition cloneRequest :: "Ctx \<Rightarrow> Request \<Rightarrow> Request" where
  "cloneRequest ctx r = r\<lparr>ReqCtx := ctx, ReqHeader := ReqHeader r\<rparr>"

definition rewriteRequest :: "Request \<Rightarrow> Upstream \<Rightarrow> Request" where
  "rewriteRequest out upstream =
     out\<lparr>ReqURL := (ReqURL out)\<lparr>url_Scheme := url_Scheme (UpstreamURL upstream),
                                url_Host := url_Host (UpstreamURL upstream)\<rparr>,
         ReqHost := url_Host (UpstreamURL upstream)\<rparr>"

definition appendForwardHeaders :: "Request \<Rightarrow> Request" where
  "appendForwardHeaders r =
     (let h1 = (case SplitHostPort (RemoteAddr r) of
                  None \<Rightarrow> ReqHeader r
                | Some (ip, _) \<Rightarrow>
                    (let prior = Get (ReqHeader r) ''X-Forwarded-For''
                     in if prior = [] then Set ''X-Forwarded-For'' ip (ReqHeader r)
                        else Set ''X-Forwarded-For'' (prior @ '', '' @ ip) (ReqHeader r)));
          h2 = Set ''X-Forwarded-Proto'' (if ReqTLS r then ''https'' else ''http'') h1;
          h3 = (if ReqHost r \<noteq> [] then Set ''X-Forwarded-Host'' (ReqHost r) h2 else h2)
      in r\<lparr>ReqHeader := h3\<rparr>)"

definition prepareOutboundRequest :: "Request \<Rightarrow> Request" where
  "prepareOutboundRequest out =
     appendForwardHeaders (out\<lparr>ReqHeader := removeHopByHopHeaders (ReqHeader out)\<rparr>)"

declare trim_start.simps [simp del] trim_end.simps [simp del] split_tokens.simps [simp del]

section \<open>The loops and their specification\<close>

lemma slice_self: "slice s a a = []"
  by (simp add: slice_def)

lemma trim_start_eq:
  assumes "start \<le> e" and "e \<le> length s"
  shows "start \<le> trim_start s start e \<and> trim_start s start e \<le> e \<and>
         slice s (trim_start s start e) e = dropWhile is_blank (slice s start e)"
  using assms
proof (induction s start e rule: trim_start.induct)
  case (1 s start e)
  show ?case
  proof (cases "start < e")
    case True
    then have cons: "slice s start e = s ! start # slice s (Suc start) e"
      using 1(3) by (simp add: slice_def Cons_nth_drop_Suc [symmetric] take_Cons' del: Cons_nth_drop_Suc)
    show ?thesis
    proof (cases "is_blank (s ! start)")
      case blank: True
      then show ?thesis
        using 1(1) [OF _] 1(3) True cons by (simp add: trim_start.simps [of s start e])
    next
      case False
      then show ?thesis using True cons by (simp add: trim_start.simps [of s start e])
    qed
  next
    case False
    then have "start = e" using 1(2) by simp
    then show ?thesis by (simp add: trim_start.simps [of s e e] slice_def)
  qed
qed

lemma slice_snoc: "start < e \<Longrightarrow> e \<le> length s \<Longrightarrow> slice s start e = slice s start (e - 1) @ [s ! (e - 1)]"
  by (cases e) (auto simp: slice_def Suc_diff_le take_Suc_conv_app_nth)

lemma trim_end_eq:
  assumes "start \<le> e" and "e \<le> length s"
  shows "slice s start (trim_end s start e) = rev (dropWhile is_blank (rev (slice s start e)))"
  using assms
proof (induction s start e rule: trim_end.induct)
  case (1 s start e)
  show ?case
  proof (cases "start < e")
    case True
    then show ?thesis
      using 1 slice_snoc [of start e s]
      by (cases "is_blank (s ! (e - 1))") (auto simp: trim_end.simps [of s start e])
  next
    case False
    then have "start = e" using 1(2) by simp
    then show ?thesis by (simp add: trim_end.simps [of s e e] slice_def)
  qed
qed

lemma trimSpaces_eq: "trimSpaces s = trim_by is_blank s"
  using trim_start_eq [of 0 "length s" s] trim_end_eq [of "trim_start s 0 (length s)" "length s" s]
  by (simp add: trimSpaces_def trim_by_def Let_def)

text \<open>The tokens of a header value: trimmed, canonical, not empty.\<close>

definition tokens_of :: "string list \<Rightarrow> string list" where
  "tokens_of ws = filter (\<lambda>t. t \<noteq> []) (map (\<lambda>w. CanonicalHeaderKey (trim_by is_blank w)) ws)"

lemma split_on_slice:
  assumes "start \<le> i" and "i \<le> length v" and "CHR '','' \<notin> set (slice v start i)"
  shows "split_on (CHR '','') (drop start v) =
           (if i = length v then [slice v start i]
            else if v ! i = CHR '','' then slice v start i # split_on (CHR '','') (drop (Suc i) v)
            else split_on (CHR '','') (drop start v))"
proof -
  have parts: "drop start v = slice v start i @ drop i v"
    using assms(1) by (simp add: slice_def) (metis append_take_drop_id drop_drop le_add_diff_inverse2)
  show ?thesis
  proof (cases "i = length v")
    case True
    then show ?thesis using parts assms(3) by (simp add: split_on_no_sep)
  next
    case False
    then have "drop i v = v ! i # drop (Suc i) v"
      using assms(2) by (simp add: Cons_nth_drop_Suc)
    then show ?thesis using parts assms(3) False split_on_app_sep by auto
  qed
qed

lemma split_tokens_eq:
  assumes "start \<le> i" and "i \<le> length v" and "CHR '','' \<notin> set (slice v start i)"
  shows "split_tokens v i start tokens = tokens @ tokens_of (split_on (CHR '','') (drop start v))"
  using assms
proof (induction v i start tokens rule: split_tokens.induct)
  case (1 v i start tokens)
  show ?case
  proof (cases "i = length v \<or> v ! i = CHR '',''")
    case True
    note unfold = split_tokens.simps [of v i start tokens]
    show ?thesis
    proof (cases "i = length v")
      case finish: True
      then show ?thesis
        using unfold split_on_slice [OF 1(3-5)]
        by (simp add: trimSpaces_eq tokens_of_def Let_def split_tokens.simps [of v "Suc (length v)"])
    next
      case False
      define tk where "tk = CanonicalHeaderKey (trim_by is_blank (slice v start i))"
      have "split_tokens v i start tokens
          = split_tokens v (Suc i) (Suc i) (if tk \<noteq> [] then tokens @ [tk] else tokens)"
        using unfold True 1(4) by (simp add: trimSpaces_eq tk_def Let_def)
      also have "\<dots> = (if tk \<noteq> [] then tokens @ [tk] else tokens)
          @ tokens_of (split_on (CHR '','') (drop (Suc i) v))"
        using 1(1) [OF 1(4) True refl, unfolded trimSpaces_eq, folded tk_def] 1(4) False
        by (simp add: slice_self)
      also have "\<dots> = tokens @ tokens_of (slice v start i # split_on (CHR '','') (drop (Suc i) v))"
        by (simp add: tokens_of_def tk_def)
      finally show ?thesis
        using True False split_on_slice [OF 1(3-5)] by simp
    qed
  next
    case False
    then have "slice v start (Suc i) = slice v start i @ [v ! i]"
      using slice_snoc [of start "Suc i" v] 1(3,4) by simp
    then show ?thesis
      using False 1(2) [OF 1(4) False] 1(3-5) by (auto simp: split_tokens.simps [of v i start tokens])
  qed
qed

lemma splitHeaderTokens_eq: "splitHeaderTokens v = tokens_of (split_on (CHR '','') v)"
  unfolding splitHeaderTokens_def
  using split_tokens_eq [of 0 0 v "[]"] by (simp add: slice_def)

lemma splitHeaderTokens_upgrade:
  "(\<exists>t \<in> set (splitHeaderTokens v). EqualFold t ''upgrade'') \<longleftrightarrow>
   (\<exists>w \<in> set (split_on (CHR '','') v). EqualFold (trim_by is_blank w) ''upgrade'')"
proof -
  have "\<not> EqualFold [] ''upgrade''" by (simp add: EqualFold_def ToLower_def)
  then have "t \<noteq> []" if "EqualFold t ''upgrade''" for t using that by auto
  then show ?thesis by (auto simp: splitHeaderTokens_eq tokens_of_def Bex_def)
qed

section \<open>Sanitizing\<close>

lemma fold_Del: "fold Del ks h = hdr.del_all ks h"
  by (simp add: hdr.del_all_def)

lemma canonical_hop [simp]: "map CanonicalHeaderKey hopByHopHeaders = hopByHopHeaders"
  by code_simp

lemma canonical_Connection [simp]: "CanonicalHeaderKey ''Connection'' = ''Connection''"
  by code_simp

lemma Connection_hop: "''Connection'' \<in> set hopByHopHeaders"
  by (simp add: hopByHopHeaders_def)

lemma hop_image: "CanonicalHeaderKey ` set hopByHopHeaders = set hopByHopHeaders"
  by (metis canonical_hop list.set_map)

text \<open>The second loop runs over the values of a header the first loop has deleted.\<close>

lemma removeHopByHopHeaders_eq: "removeHopByHopHeaders h = hdr.del_all hopByHopHeaders h"
proof -
  have "Values (hdr.del_all hopByHopHeaders h) ''Connection'' = []"
    by (simp add: Values_def hdr.vals_del_all hop_image Connection_hop)
  then show ?thesis by (simp add: removeHopByHopHeaders_def fold_Del)
qed

lemma vals_removeHopByHop:
  "header_vals (removeHopByHopHeaders h) k =
     (if k \<in> set hopByHopHeaders then [] else header_vals h k)"
  by (simp add: removeHopByHopHeaders_eq hdr.vals_del_all hop_image)

text \<open>The forwarding headers have names of their own.\<close>

lemma canonical_forward [simp]:
  "CanonicalHeaderKey ''X-Forwarded-For'' = ''X-Forwarded-For''"
  "CanonicalHeaderKey ''X-Forwarded-Proto'' = ''X-Forwarded-Proto''"
  "CanonicalHeaderKey ''X-Forwarded-Host'' = ''X-Forwarded-Host''"
  by code_simp+

definition forwardHeaders :: "string list" where
  "forwardHeaders = [''X-Forwarded-For'', ''X-Forwarded-Proto'', ''X-Forwarded-Host'']"

lemma forward_not_hop: "set forwardHeaders \<inter> set hopByHopHeaders = {}"
  by (simp add: forwardHeaders_def hopByHopHeaders_def)

lemma vals_appendForward:
  "k \<notin> set forwardHeaders \<Longrightarrow>
   header_vals (ReqHeader (appendForwardHeaders r)) k = header_vals (ReqHeader r) k"
  by (auto simp: appendForwardHeaders_def forwardHeaders_def header_simps Let_def
      split: option.splits)

section \<open>Properties\<close>

text \<open>
  The tokenizer of header values: the index loop of \<open>splitHeaderTokens\<close>, with the two loops
  of \<open>trimSpaces\<close> inside, returns the comma-separated parts of the value in order, without
  surrounding blanks and in canonical form, leaving out those that are empty.
\<close>

lemma splitHeaderTokens_spec:
  "splitHeaderTokens v =
     filter (\<lambda>t. t \<noteq> [])
       (map (\<lambda>w. CanonicalHeaderKey (trim_by is_blank w)) (split_on (CHR '','') v))"
  by (simp add: splitHeaderTokens_eq tokens_of_def)

definition named_in_Connection :: "header \<Rightarrow> string \<Rightarrow> bool" where
  "named_in_Connection h k \<longleftrightarrow>
     (\<exists>v \<in> set (header_vals h ''Connection''). k \<in> set (splitHeaderTokens v))"

text \<open>
  C19. What an upstream sees of the request headers, when the remote address has a port. None of the
  nine headers of the code's list is forwarded. A header that is not in this list, not one of
  the three forwarding headers, and not named in \<open>Connection\<close> arrives with the values the client
  sent. (Those named in \<open>Connection\<close> should be removed and are not:
  \<open>connection_named_headers_survive\<close>.) The client's address is appended to \<open>X-Forwarded-For\<close>, the
  scheme is set, and \<open>X-Forwarded-Host\<close> is the host of the outbound request, if it has one; the
  engine has made that the upstream's (\<open>forwarded_host_is_upstream\<close>).
\<close>

theorem outbound_headers:
  assumes "SplitHostPort (RemoteAddr r) = Some (ip, port)"
  shows "let h = ReqHeader r; h' = ReqHeader (prepareOutboundRequest r) in
           (\<forall>k \<in> set [''Connection'', ''Proxy-Connection'', ''Keep-Alive'', ''Proxy-Authenticate'',
                       ''Proxy-Authorization'', ''Te'', ''Trailer'', ''Transfer-Encoding'', ''Upgrade''].
                header_vals h' k = []) \<and>
           (\<forall>k. k \<notin> set hopByHopHeaders \<and> k \<notin> set forwardHeaders \<and> \<not> named_in_Connection h k \<longrightarrow>
                header_vals h' k = header_vals h k) \<and>
           (ReqHost r \<noteq> [] \<longrightarrow> header_vals h' ''X-Forwarded-Host'' = [ReqHost r]) \<and>
           header_vals h' ''X-Forwarded-For'' =
             [if Get h ''X-Forwarded-For'' = [] then ip
              else Get h ''X-Forwarded-For'' @ '', '' @ ip] \<and>
           header_vals h' ''X-Forwarded-Proto'' = [if ReqTLS r then ''https'' else ''http'']"
proof -
  let ?r = "r\<lparr>ReqHeader := removeHopByHopHeaders (ReqHeader r)\<rparr>"
  have frame: "header_vals (ReqHeader (prepareOutboundRequest r)) k
      = header_vals (removeHopByHopHeaders (ReqHeader r)) k"
    if "k \<notin> set forwardHeaders" for k
    using vals_appendForward [OF that, of ?r] by (simp add: prepareOutboundRequest_def)
  have xff: "Get (removeHopByHopHeaders h) ''X-Forwarded-For'' = Get h ''X-Forwarded-For''" for h
    by (simp add: Get_vals vals_removeHopByHop hopByHopHeaders_def)
  have "\<forall>k \<in> set hopByHopHeaders. k \<notin> set forwardHeaders"
    using forward_not_hop by blast
  then have "\<forall>k \<in> set hopByHopHeaders. header_vals (ReqHeader (prepareOutboundRequest r)) k = []"
    using frame by (simp add: vals_removeHopByHop)
  moreover have "header_vals (ReqHeader (prepareOutboundRequest r)) ''X-Forwarded-For'' =
      [if Get (ReqHeader r) ''X-Forwarded-For'' = [] then ip
       else Get (ReqHeader r) ''X-Forwarded-For'' @ '', '' @ ip]"
    using assms by (simp add: prepareOutboundRequest_def appendForwardHeaders_def header_simps xff Let_def)
  moreover have "header_vals (ReqHeader (prepareOutboundRequest r)) ''X-Forwarded-Proto'' =
      [if ReqTLS r then ''https'' else ''http'']"
    by (simp add: prepareOutboundRequest_def appendForwardHeaders_def header_simps Let_def)
  ultimately show ?thesis
    using frame by (simp add: Let_def vals_removeHopByHop) (simp add: hopByHopHeaders_def
      prepareOutboundRequest_def appendForwardHeaders_def header_simps Let_def)
qed

text \<open>A plain request, for the examples.\<close>

definition sample_request :: "string \<Rightarrow> header \<Rightarrow> Request" where
  "sample_request method h =
     \<lparr>Method = method,
      ReqURL = \<lparr>url_Scheme = [], url_Host = [], url_Path = ''/users'', url_RawQuery = []\<rparr>,
      ReqHost = ''gateway.test'', ReqHeader = h, RemoteAddr = ''10.0.0.7:5000'', ReqTLS = False,
      BodyLimit = None, ReqCtx = Background\<rparr>"

theorem outbound_headers_witness:
  "header_vals (ReqHeader (prepareOutboundRequest
     (sample_request ''GET'' [(''X-Forwarded-For'', [''1.2.3.4'']), (''Te'', [''gzip''])])))
     ''X-Forwarded-For'' = [''1.2.3.4, 10.0.0.7'']"
proof -
  let ?r = "sample_request ''GET'' [(''X-Forwarded-For'', [''1.2.3.4'']), (''Te'', [''gzip''])]"
  have addr: "SplitHostPort (RemoteAddr ?r) = Some (''10.0.0.7'', ''5000'')"
    by code_simp
  have "Get (ReqHeader ?r) ''X-Forwarded-For'' = ''1.2.3.4''"
    by code_simp
  then show ?thesis using outbound_headers [OF addr] by (simp add: Let_def)
qed

text \<open>
  Headers a client names in \<open>Connection\<close> are forwarded. The code deletes \<open>Connection\<close> before it
  reads the names listed there, so that the second loop of \<open>removeHopByHopHeaders\<close> never
  runs: a header that is not hop-by-hop itself survives whatever \<open>Connection\<close> says.
\<close>

lemma connection_named_headers_survive:
  "header_vals (removeHopByHopHeaders (Set ''Connection'' names h)) k =
     (if k \<in> set hopByHopHeaders then [] else header_vals h k)"
  using Connection_hop by (auto simp: vals_removeHopByHop header_simps)

text \<open>
  \<open>X-Forwarded-Host\<close> never carries the host the client asked for: the request is rewritten to
  the upstream before the forwarding headers are added, so the upstream is told its own host.
\<close>

lemma forwarded_host_is_upstream:
  assumes "url_Host (UpstreamURL u) \<noteq> []"
  shows "header_vals (ReqHeader (prepareOutboundRequest (rewriteRequest (cloneRequest ctx r) u)))
           ''X-Forwarded-Host'' = [url_Host (UpstreamURL u)]"
  using assms
  by (simp add: prepareOutboundRequest_def appendForwardHeaders_def rewriteRequest_def Let_def header_simps)

lemma forwarded_host_is_upstream_instance:
  "header_vals (ReqHeader (prepareOutboundRequest
     (rewriteRequest (cloneRequest Background (sample_request ''GET'' [])) (sample_upstream ''a''))))
     ''X-Forwarded-Host'' = [''a'']"
  using forwarded_host_is_upstream [of "sample_upstream ''a''" Background "sample_request ''GET'' []"]
  by (simp add: sample_upstream_def)

text \<open>
  Detection of WebSocket upgrades: a request is one exactly when some comma-separated part of
  a \<open>Connection\<close> value is the word upgrade and the first \<open>Upgrade\<close> value is the word websocket,
  both without regard to case.
\<close>

lemma isWebSocketUpgrade_iff:
  "isWebSocketUpgrade r \<longleftrightarrow>
     (\<exists>v \<in> set (header_vals (ReqHeader r) ''Connection'').
        \<exists>w \<in> set (split_on (CHR '','') v). EqualFold (trim_by is_blank w) ''upgrade'') \<and>
     EqualFold (Get (ReqHeader r) ''Upgrade'') ''websocket''"
  by (auto simp: isWebSocketUpgrade_def headerContainsToken_def list_ex_iff Values_def
      splitHeaderTokens_upgrade)

end
