(* ===== verification/Copier.thy ===== *)
theory Copier
  imports Writer Proxy_Headers
begin

text \<open>
  Relaying a response to the client (\<^verbatim>\<open>src/internal/proxy/copier.go\<close>).
\<close>

definition copyHeaders :: "header \<Rightarrow> header \<Rightarrow> header" where
  "copyHeaders src dst = fold (\<lambda>(k, values). fold (\<lambda>v. Add k v) values) src dst"

definition declareTrailers :: "header \<Rightarrow> header \<Rightarrow> header" where
  "declareTrailers trailers dst = fold (\<lambda>(key, _). Add ''Trailer'' key) trailers dst"

definition copyTrailers :: "header \<Rightarrow> header \<Rightarrow> header" where
  "copyTrailers trailers dst = fold (\<lambda>(key, values). fold (\<lambda>v. Add key v) values) trailers dst"

definition writeResponse :: "Response \<Rightarrow> writer \<Rightarrow> writer \<times> copy_result" where
  "writeResponse resp w =
     (let rh = removeHopByHopHeaders (RespHeader resp);
          w1 = w_set_header (copyHeaders rh) w;
          w2 = (if length (Trailer resp) > 0
                then w_set_header (declareTrailers (Trailer resp)) w1 else w1);
          w3 = w_WriteHeader (StatusCode resp) w2
      in if w_WriteHeader_panics (StatusCode resp) w2 then (w3, CopyPanic)
         else let (w4, res) = w_Copy (RespBody resp) (RespBodyErr resp) w3
              in case res of
                   CopyPanic \<Rightarrow> (w4, CopyPanic)
                 | CopyError \<Rightarrow> (w4, CopyError)
                 | Copied \<Rightarrow> (w_Flush (w_set_header (copyTrailers (Trailer resp)) w4), Copied))"

end
