(* ===== verification/Tunnel.thy ===== *)
theory Tunnel
  imports Copier
begin

text \<open>
  WebSocket tunnelling (\<^verbatim>\<open>src/internal/proxy/tunnel.go\<close> and \<^verbatim>\<open>tls.go\<close>). What the network does
  is an argument: whether a dial, a write or a read succeeds and which end of the relay finishes
  first. The result of the handler records the state of both connections, so that a leak is a
  value. The relay itself, three goroutines and a channel, is a step relation.
\<close>

section \<open>Dialling\<close>

text \<open>\<open>url.Hostname\<close>: the host without its port and without the brackets of an IPv6 literal.\<close>

definition valid_port :: "string \<Rightarrow> bool" where
  "valid_port p = list_all is_digit p"

definition Hostname :: "string \<Rightarrow> string" where
  "Hostname host =
     (let h = (case last_index (CHR '':'') host of
                 None \<Rightarrow> host
               | Some c \<Rightarrow> if valid_port (drop (c + 1) host) then take c host else host)
      in if HasPrefix h ''['' \<and> HasSuffix h '']'' then slice h 1 (length h - 1) else h)"

text \<open>A TLS dial carries the server name to verify; its minimum version is TLS 1.2.\<close>

datatype dial = DialTCP string | DialTLS string string

definition tlsDial :: "Upstream \<Rightarrow> dial" where
  "tlsDial target = DialTLS (url_Host (UpstreamURL target)) (Hostname (url_Host (UpstreamURL target)))"

definition dialUpstream :: "Upstream \<Rightarrow> dial" where
  "dialUpstream target =
     (let scheme = url_Scheme (UpstreamURL target)
      in if scheme = ''https'' \<or> scheme = ''wss'' then tlsDial target
         else DialTCP (url_Host (UpstreamURL target)))"

definition writeUpstreamHandshake :: "Request \<Rightarrow> Upstream \<Rightarrow> Request" where
  "writeUpstreamHandshake r target =
     (let out = rewriteRequest (cloneRequest (ReqCtx r) r) target;
          h = Set ''Upgrade'' ''websocket''
                (Set ''Connection'' ''Upgrade'' (removeHopByHopHeaders (ReqHeader out)))
      in appendForwardHeaders (out\<lparr>ReqHeader := h\<rparr>))"

section \<open>The relay\<close>

datatype relay_end = ClientSide | UpstreamSide | CtxSide

text \<open>
  What arrives on \<open>errCh\<close>: who sent it, and whether it is an error. The context's goroutine
  sends \<open>ctx.Err()\<close>, which is an error. The relay returns what arrives first.
\<close>

type_synonym relay_msg = "relay_end \<times> bool"

definition msg_err :: "relay_msg \<Rightarrow> bool" where
  "msg_err m = (fst m = CtxSide \<or> snd m)"

definition relayBidirectional :: "relay_msg \<Rightarrow> bool" where
  "relayBidirectional first = msg_err first"

record relay =
  rl_running :: "relay_end list"
  rl_errCh :: "relay_msg list"
  rl_first :: "relay_msg option"
  rl_clientClosed :: bool
  rl_upstreamClosed :: bool
  rl_result :: "bool option"

definition relay_start :: relay where
  "relay_start = \<lparr>rl_running = [ClientSide, UpstreamSide, CtxSide], rl_errCh = [],
                  rl_first = None, rl_clientClosed = False, rl_upstreamClosed = False, rl_result = None\<rparr>"

definition errCh_cap :: nat where
  "errCh_cap = 3"

text \<open>
  The function itself receives once, closes the two connections one after the other, and
  returns.
\<close>

inductive relay_step :: "relay \<Rightarrow> relay \<Rightarrow> bool" where
  send: "g \<in> set (rl_running s) \<Longrightarrow> length (rl_errCh s) < errCh_cap \<Longrightarrow>
     relay_step s (s\<lparr>rl_running := remove1 g (rl_running s), rl_errCh := rl_errCh s @ [(g, err)]\<rparr>)"
| receive: "rl_first s = None \<Longrightarrow> rl_errCh s = m # rest \<Longrightarrow>
     relay_step s (s\<lparr>rl_errCh := rest, rl_first := Some m\<rparr>)"
| close_client: "rl_first s \<noteq> None \<Longrightarrow> \<not> rl_clientClosed s \<Longrightarrow> relay_step s (s\<lparr>rl_clientClosed := True\<rparr>)"
| close_upstream: "rl_clientClosed s \<Longrightarrow> \<not> rl_upstreamClosed s \<Longrightarrow> relay_step s (s\<lparr>rl_upstreamClosed := True\<rparr>)"
| return: "rl_first s = Some m \<Longrightarrow> rl_upstreamClosed s \<Longrightarrow> rl_result s = None \<Longrightarrow>
     relay_step s (s\<lparr>rl_result := Some (relayBidirectional m)\<rparr>)"

inductive_cases relay_stepE: "relay_step s t"

section \<open>The handler\<close>

record ws_io =
  io_dial :: "dial \<Rightarrow> bool"
  io_write :: "Request \<Rightarrow> bool"
  io_response :: "Response option"
  io_reply :: bool
  io_relay :: relay_msg

datatype ws_error =
    ErrNotSupported | HijackFailed | DialFailed | HandshakeFailed | ReadResponseFailed
  | UpgradeRejected | ReplyFailed | RelayFailed

text \<open>
  The calls of a run that open and close connections, in order: the client's connection is taken
  over by \<open>Hijack\<close>, the upstream's is opened by the dial.
\<close>

datatype conn_call = HijackClient | OpenUpstream | CloseClient | CloseUpstream

record ws_result =
  ws_err :: "ws_error option"
  ws_calls :: "conn_call list"
  ws_panic :: bool

definition ws_return :: "ws_error option \<Rightarrow> conn_call list \<Rightarrow> ws_result" where
  "ws_return err calls = \<lparr>ws_err = err, ws_calls = calls, ws_panic = False\<rparr>"

definition handleWebSocket ::
  "ws_io \<Rightarrow> Request \<Rightarrow> Upstream \<Rightarrow> writer \<Rightarrow> writer \<times> ws_result" where
  "handleWebSocket io r target w =
     (if \<not> is_Hijacker (w_layers w) (w_base w) then
        (let (w1, p) = http_Error ''hijacking not supported'' 500 w
         in (w1, (ws_return (Some ErrNotSupported) [])\<lparr>ws_panic := p\<rparr>))
      else if \<not> layers_Hijack (w_layers w) (w_base w) then (w, ws_return (Some HijackFailed) [])
      else let calls = [HijackClient] in
        if \<not> io_dial io (dialUpstream target) then
          (w, ws_return (Some DialFailed) (calls @ [CloseClient]))
        else let calls = calls @ [OpenUpstream] in
          if \<not> io_write io (writeUpstreamHandshake r target) then
            (w, ws_return (Some HandshakeFailed) (calls @ [CloseClient, CloseUpstream]))
          else
            (case io_response io of
               None \<Rightarrow> (w, ws_return (Some ReadResponseFailed) (calls @ [CloseClient, CloseUpstream]))
             | Some resp \<Rightarrow>
                 (if StatusCode resp \<noteq> 101 then
                    (w, ws_return (Some UpgradeRejected) (calls @ [CloseClient, CloseUpstream]))
                  else if \<not> io_reply io then
                    (w, ws_return (Some ReplyFailed) (calls @ [CloseClient, CloseUpstream]))
                  else
                    (w, ws_return (if relayBidirectional (io_relay io) then Some RelayFailed else None)
                          (calls @ [CloseClient, CloseUpstream])))))"

section \<open>Properties\<close>

text \<open>Every goroutine sends once, so a message in the channel or received is one less running.\<close>

definition relay_inv :: "relay \<Rightarrow> bool" where
  "relay_inv s \<longleftrightarrow>
     distinct (rl_running s) \<and>
     length (rl_running s) + length (rl_errCh s) + (if rl_first s = None then 0 else 1) = 3 \<and>
     (rl_upstreamClosed s \<longrightarrow> rl_clientClosed s) \<and> (rl_result s \<noteq> None \<longrightarrow> rl_upstreamClosed s)"

lemma relay_inv_step: "relay_step s t \<Longrightarrow> relay_inv s \<Longrightarrow> relay_inv t"
proof (erule relay_stepE)
  fix g err
  assume g: "g \<in> set (rl_running s)" and inv: "relay_inv s"
    and t: "t = s\<lparr>rl_running := remove1 g (rl_running s), rl_errCh := rl_errCh s @ [(g, err)]\<rparr>"
  have "0 < length (rl_running s)" using g by (rule length_pos_if_in_set)
  then have "length (remove1 g (rl_running s)) + 1 = length (rl_running s)"
    using g by (simp add: length_remove1)
  then show "relay_inv t" using inv t by (simp add: relay_inv_def)
qed (auto simp: relay_inv_def)

lemma relay_inv_reachable: "relay_step\<^sup>*\<^sup>* relay_start s \<Longrightarrow> relay_inv s"
proof (induction rule: rtranclp_induct)
  case base
  show ?case by (simp add: relay_inv_def relay_start_def)
qed (rule relay_inv_step)

text \<open>
  C33. The relay neither blocks a goroutine nor leaves a connection open: in every state reachable
  from its start a goroutine that is still running finds room in the error channel, and a relay
  that has returned has closed both connections.
\<close>

theorem relay_never_blocks:
  assumes "relay_step\<^sup>*\<^sup>* relay_start s"
  shows "(\<forall>g err. g \<in> set (rl_running s) \<longrightarrow>
            relay_step s (s\<lparr>rl_running := remove1 g (rl_running s),
                            rl_errCh := rl_errCh s @ [(g, err)]\<rparr>)) \<and>
         (rl_result s \<noteq> None \<longrightarrow> rl_clientClosed s \<and> rl_upstreamClosed s)"
proof (intro conjI allI impI)
  fix g err
  assume "g \<in> set (rl_running s)"
  moreover from this have "length (rl_errCh s) < errCh_cap"
    using relay_inv_reachable [OF assms] length_pos_if_in_set [of g "rl_running s"]
    unfolding relay_inv_def errCh_cap_def by linarith
  ultimately show "relay_step s (s\<lparr>rl_running := remove1 g (rl_running s),
      rl_errCh := rl_errCh s @ [(g, err)]\<rparr>)"
    by (rule relay_step.send)
next
  assume "rl_result s \<noteq> None"
  then show "rl_clientClosed s" "rl_upstreamClosed s"
    using relay_inv_reachable [OF assms] by (simp_all add: relay_inv_def)
qed

theorem relay_never_blocks_witness:
  "\<exists>err. relay_step relay_start
     (relay_start\<lparr>rl_running := [ClientSide, CtxSide], rl_errCh := [(UpstreamSide, err)]\<rparr>)"
  using relay_never_blocks [OF rtranclp.rtrancl_refl]
  by (fastforce simp: relay_start_def)

text \<open>
  C34. The upgrade handler never leaks a connection: however the network behaves, when it returns,
  the client's connection has been closed exactly once if it was taken over, and the upstream's
  exactly once if it was opened. It reports success exactly when the upstream switched protocols
  and the relay ended without an error, and a writer that is no \<open>Hijacker\<close> is answered with
  status 500 before any connection is opened.
\<close>

theorem handleWebSocket_closes:
  "let (w', res) = handleWebSocket io r target w in
     count_list (ws_calls res) CloseClient = count_list (ws_calls res) HijackClient \<and>
     count_list (ws_calls res) CloseUpstream = count_list (ws_calls res) OpenUpstream \<and>
     (ws_err res = None \<longleftrightarrow>
        is_Hijacker (w_layers w) (w_base w) \<and> layers_Hijack (w_layers w) (w_base w) \<and>
        io_dial io (dialUpstream target) \<and> io_write io (writeUpstreamHandshake r target) \<and>
        (\<exists>resp. io_response io = Some resp \<and> StatusCode resp = 101) \<and> io_reply io \<and>
        \<not> msg_err (io_relay io)) \<and>
     (is_Hijacker (w_layers w) (w_base w) \<or>
        ws_err res = Some ErrNotSupported \<and> ws_calls res = [] \<and>
        w' = fst (http_Error ''hijacking not supported'' 500 w))"
  by (auto simp: handleWebSocket_def ws_return_def relayBidirectional_def case_prod_beta Let_def
      split: option.splits)

end
