(* ===== verification/Retry.thy ===== *)
theory Retry
  imports Http Complex_Main
begin

text \<open>
  The retry policy of the proxy (\<^verbatim>\<open>src/internal/proxy/retry.go\<close>): which requests may be sent again,
  after which outcomes, and how long to wait. The random number of the jitter is an argument;
  durations are nanoseconds.
\<close>

definition isReplaySafeMethod :: "string \<Rightarrow> bool" where
  "isReplaySafeMethod method =
     (if method = ''GET'' then True
      else if method = ''HEAD'' then True
      else if method = ''OPTIONS'' then True
      else False)"

definition isRetryableTransportError :: "go_error \<Rightarrow> bool" where
  "isRetryableTransportError err =
     (if is_net_Error err then True
      else if is_ECONNRESET err then True
      else if is_EPIPE err then True
      else False)"

definition shouldRetry :: "Request \<Rightarrow> Response option \<Rightarrow> go_error option \<Rightarrow> bool" where
  "shouldRetry req resp err =
     (if \<not> isReplaySafeMethod (Method req) then False
      else (case err of
              Some e \<Rightarrow> isRetryableTransportError e
            | None \<Rightarrow>
                (case resp of
                   None \<Rightarrow> False
                 | Some r \<Rightarrow>
                     (if StatusCode r = 502 then True
                      else if StatusCode r = 503 then True
                      else if StatusCode r = 504 then True
                      else False))))"

definition retry_ceiling :: "nat \<Rightarrow> rat" where
  "retry_ceiling attempt = min 1000000000 (50000000 * 2 ^ attempt)"

definition RetryDelay :: "rat \<Rightarrow> nat \<Rightarrow> int" where
  "RetryDelay rand attempt =
     (let ceiling = retry_ceiling attempt;
          jitter = rand * ceiling
      in \<lfloor>jitter\<rfloor>)"

lemma retry_ceiling_pos: "0 < retry_ceiling attempt"
  by (simp add: retry_ceiling_def)

text \<open>
  The wait before a retry is full jitter over an exponential window: for a random number in
  the unit interval it is never negative, stays below 50 ms times two to the attempt, and
  stays below one second.
\<close>

lemma RetryDelay_bounds:
  assumes "0 \<le> rand" and "rand < 1"
  shows "0 \<le> RetryDelay rand attempt \<and> RetryDelay rand attempt < 50000000 * 2 ^ attempt \<and>
         RetryDelay rand attempt < 1000000000"
proof -
  have lo: "0 \<le> rand * retry_ceiling attempt"
    using assms(1) retry_ceiling_pos [of attempt] by simp
  have hi: "rand * retry_ceiling attempt < retry_ceiling attempt"
    using mult_strict_right_mono [OF assms(2) retry_ceiling_pos [of attempt]] by simp
  have "retry_ceiling attempt \<le> of_int (50000000 * 2 ^ attempt)"
    "retry_ceiling attempt \<le> of_int 1000000000"
    by (simp_all add: retry_ceiling_def)
  with hi have "rand * retry_ceiling attempt < of_int (50000000 * 2 ^ attempt)"
    "rand * retry_ceiling attempt < of_int 1000000000"
    by linarith+
  then show ?thesis
    using lo unfolding RetryDelay_def Let_def by (simp add: floor_less_iff le_floor_iff)
qed

lemma RetryDelay_bounds_instance: "RetryDelay (1/2) 3 < 1000000000"
  using RetryDelay_bounds [of "1/2" 3] by simp

end
