(* ===== verification/Metrics.thy ===== *)
theory Metrics
  imports Http
begin

text \<open>
  The metrics of the gateway (\<^verbatim>\<open>src/internal/metrics/metrics.go\<close>): counters and gauges by label
  values. Of the latency histogram the number of observations is kept.
\<close>

record Registry =
  m_Requests :: "string list \<Rightarrow> nat"
  m_Duration :: "string list \<Rightarrow> nat"
  m_Failures :: "string list \<Rightarrow> nat"
  m_Retries :: "string list \<Rightarrow> nat"
  m_Circuits :: "string list \<Rightarrow> nat"
  m_Active :: "string list \<Rightarrow> int"

definition NewRegistry :: Registry where
  "NewRegistry =
     \<lparr>m_Requests = (\<lambda>_. 0), m_Duration = (\<lambda>_. 0), m_Failures = (\<lambda>_. 0), m_Retries = (\<lambda>_. 0),
      m_Circuits = (\<lambda>_. 0), m_Active = (\<lambda>_. 0)\<rparr>"

definition UpstreamLabel :: "Upstream \<Rightarrow> string" where
  "UpstreamLabel up = url_Host (UpstreamURL up)"

definition StatusLabel :: "int \<Rightarrow> string" where
  "StatusLabel code = Itoa code"

definition inc :: "string list \<Rightarrow> (string list \<Rightarrow> nat) \<Rightarrow> string list \<Rightarrow> nat" where
  "inc labels c = c(labels := c labels + 1)"

definition inc_Requests :: "string list \<Rightarrow> Registry \<Rightarrow> Registry" where
  "inc_Requests ls m = m\<lparr>m_Requests := inc ls (m_Requests m)\<rparr>"

definition observe_Duration :: "string list \<Rightarrow> Registry \<Rightarrow> Registry" where
  "observe_Duration ls m = m\<lparr>m_Duration := inc ls (m_Duration m)\<rparr>"

definition inc_Failures :: "string list \<Rightarrow> Registry \<Rightarrow> Registry" where
  "inc_Failures ls m = m\<lparr>m_Failures := inc ls (m_Failures m)\<rparr>"

definition inc_Retries :: "string list \<Rightarrow> Registry \<Rightarrow> Registry" where
  "inc_Retries ls m = m\<lparr>m_Retries := inc ls (m_Retries m)\<rparr>"

definition inc_Circuits :: "string list \<Rightarrow> Registry \<Rightarrow> Registry" where
  "inc_Circuits ls m = m\<lparr>m_Circuits := inc ls (m_Circuits m)\<rparr>"

definition set_Active :: "string list \<Rightarrow> int \<Rightarrow> Registry \<Rightarrow> Registry" where
  "set_Active ls v m = m\<lparr>m_Active := (m_Active m)(ls := v)\<rparr>"

lemmas metrics_defs =
  inc_def inc_Requests_def observe_Duration_def inc_Failures_def inc_Retries_def inc_Circuits_def
  set_Active_def

end
