(* ===== verification/Balancer.thy ===== *)
theory Balancer
  imports Upstreams
begin

text \<open>
  The three load balancers and the interface they implement
  (\<^verbatim>\<open>src/internal/lb\<close>). The upstreams of a route are built once and belong to its
  balancer, so a balancer holds them in a list and a pointer to one of them is its index.
  One clock reading is taken per call of \<open>Next\<close>.

  \<open>balancer_iface\<close> is the contract of the Go interface \<open>Balancer\<close>: the exact effect of each
  method on the upstreams. The lemmas the proxy engine needs are proved once inside it, and
  it is interpreted for each balancer and for the interface value. \<open>cyclic_balancer\<close> is what
  the two counter-based balancers have in common; their fairness is proved there.
\<close>

section \<open>Definitions\<close>

datatype lb_error = NoHealthyUpstreams

record RoundRobin =
  rr_targets :: "Upstream list"
  rr_counter :: u64

record WeightedRoundRobin =
  wrr_targets :: "Upstream list"
  wrr_counter :: u64

record LeastConnections =
  lc_targets :: "Upstream list"

definition NewRoundRobin :: "Upstream list \<Rightarrow> RoundRobin" where
  "NewRoundRobin targets = \<lparr>rr_targets = targets, rr_counter = 0\<rparr>"

definition NewWeightedRoundRobin :: "Upstream list \<Rightarrow> WeightedRoundRobin" where
  "NewWeightedRoundRobin targets = \<lparr>wrr_targets = targets, wrr_counter = 0\<rparr>"

definition NewLeastConnections :: "Upstream list \<Rightarrow> LeastConnections" where
  "NewLeastConnections targets = \<lparr>lc_targets = targets\<rparr>"

text \<open>
  The head of each loop body: skip an unhealthy target; let a target whose circuit is open or
  half-open pass only as a probe.
\<close>

definition admit :: "time \<Rightarrow> Upstream \<Rightarrow> bool \<times> Upstream" where
  "admit now t =
     (if \<not> Healthy t then (False, t)
      else (case State t of
              CircuitOpen \<Rightarrow> TryHalfOpen now t
            | CircuitHalfOpen \<Rightarrow> TryHalfOpen now t
            | CircuitClosed \<Rightarrow> (True, t)))"

definition add_conns :: "int \<Rightarrow> Upstream \<Rightarrow> Upstream" where
  "add_conns d t = t\<lparr>ActiveConns := ActiveConns t + d\<rparr>"

subsection \<open>Round robin\<close>

text \<open>The loop of \<open>Next\<close> from target \<open>i\<close> on: the targets appended to \<open>healthy\<close>, and the pool.\<close>

fun rr_scan :: "time \<Rightarrow> nat \<Rightarrow> Upstream list \<Rightarrow> nat list \<times> Upstream list" where
  "rr_scan now i [] = ([], [])"
| "rr_scan now i (t # ts) =
     (let (ok, t') = admit now t;
          (healthy, ts') = rr_scan now (Suc i) ts
      in (if ok then i # healthy else healthy, t' # ts'))"

definition RoundRobin_Next :: "time \<Rightarrow> RoundRobin \<Rightarrow> (lb_error + nat) \<times> RoundRobin" where
  "RoundRobin_Next now r =
     (let (healthy, ts) = rr_scan now 0 (rr_targets r);
          r1 = r\<lparr>rr_targets := ts\<rparr>
      in if length healthy = 0 then (Inl NoHealthyUpstreams, r1)
         else let i = rr_counter r1 + 1;
                  target = healthy ! (unat i mod length healthy)
              in (Inr target,
                  r1\<lparr>rr_counter := i, rr_targets := at_slot target (add_conns 1) ts\<rparr>))"

text \<open>\<open>Release\<close>, on the target it is given.\<close>

definition release_target :: "Upstream \<Rightarrow> Upstream" where
  "release_target t =
     (let t1 = add_conns (- 1) t
      in if State t1 = CircuitHalfOpen then RecordSuccess t1 else t1)"

definition RoundRobin_Release :: "nat \<Rightarrow> RoundRobin \<Rightarrow> RoundRobin" where
  "RoundRobin_Release i r = r\<lparr>rr_targets := at_slot i release_target (rr_targets r)\<rparr>"

definition RoundRobin_MarkFailure :: "time \<Rightarrow> nat \<Rightarrow> RoundRobin \<Rightarrow> RoundRobin" where
  "RoundRobin_MarkFailure now i r =
     r\<lparr>rr_targets := at_slot i (RecordFailure now) (rr_targets r)\<rparr>"

definition RoundRobin_Upstreams :: "RoundRobin \<Rightarrow> Upstream list" where
  "RoundRobin_Upstreams r = rr_targets r"

subsection \<open>Weighted round robin\<close>

definition repeat_of :: "Upstream \<Rightarrow> int" where
  "repeat_of t = (if Weight t \<le> 0 then 1 else Weight t)"

fun wrr_scan :: "time \<Rightarrow> nat \<Rightarrow> Upstream list \<Rightarrow> nat list \<times> Upstream list" where
  "wrr_scan now i [] = ([], [])"
| "wrr_scan now i (t # ts) =
     (let (ok, t') = admit now t;
          (expanded, ts') = wrr_scan now (Suc i) ts
      in (if ok then replicate (nat (repeat_of t')) i @ expanded else expanded, t' # ts'))"

definition WeightedRoundRobin_Next ::
  "time \<Rightarrow> WeightedRoundRobin \<Rightarrow> (lb_error + nat) \<times> WeightedRoundRobin" where
  "WeightedRoundRobin_Next now w =
     (let (expanded, ts) = wrr_scan now 0 (wrr_targets w);
          w1 = w\<lparr>wrr_targets := ts\<rparr>
      in if length expanded = 0 then (Inl NoHealthyUpstreams, w1)
         else let i = wrr_counter w1 + 1;
                  target = expanded ! (unat i mod length expanded)
              in (Inr target,
                  w1\<lparr>wrr_counter := i, wrr_targets := at_slot target (add_conns 1) ts\<rparr>))"

definition WeightedRoundRobin_Release :: "nat \<Rightarrow> WeightedRoundRobin \<Rightarrow> WeightedRoundRobin" where
  "WeightedRoundRobin_Release i w = w\<lparr>wrr_targets := at_slot i release_target (wrr_targets w)\<rparr>"

definition WeightedRoundRobin_MarkFailure ::
  "time \<Rightarrow> nat \<Rightarrow> WeightedRoundRobin \<Rightarrow> WeightedRoundRobin" where
  "WeightedRoundRobin_MarkFailure now i w =
     w\<lparr>wrr_targets := at_slot i (RecordFailure now) (wrr_targets w)\<rparr>"

definition WeightedRoundRobin_Upstreams :: "WeightedRoundRobin \<Rightarrow> Upstream list" where
  "WeightedRoundRobin_Upstreams w = wrr_targets w"

subsection \<open>Least connections\<close>

text \<open>The loop of \<open>Next\<close> with the target selected so far.\<close>

fun lc_scan :: "time \<Rightarrow> nat \<Rightarrow> (nat \<times> Upstream) option \<Rightarrow> Upstream list
    \<Rightarrow> (nat \<times> Upstream) option \<times> Upstream list" where
  "lc_scan now i selected [] = (selected, [])"
| "lc_scan now i selected (t # ts) =
     (let (ok, t') = admit now t;
          better = (case selected of None \<Rightarrow> True | Some (_, s) \<Rightarrow> ActiveConns t' < ActiveConns s);
          (res, ts') = lc_scan now (Suc i) (if ok \<and> better then Some (i, t') else selected) ts
      in (res, t' # ts'))"

definition LeastConnections_Next ::
  "time \<Rightarrow> LeastConnections \<Rightarrow> (lb_error + nat) \<times> LeastConnections" where
  "LeastConnections_Next now l =
     (let (selected, ts) = lc_scan now 0 None (lc_targets l)
      in case selected of
           None \<Rightarrow> (Inl NoHealthyUpstreams, l\<lparr>lc_targets := ts\<rparr>)
         | Some (i, _) \<Rightarrow> (Inr i, l\<lparr>lc_targets := at_slot i (add_conns 1) ts\<rparr>))"

definition LeastConnections_Release :: "nat \<Rightarrow> LeastConnections \<Rightarrow> LeastConnections" where
  "LeastConnections_Release i l = l\<lparr>lc_targets := at_slot i release_target (lc_targets l)\<rparr>"

definition LeastConnections_MarkFailure :: "time \<Rightarrow> nat \<Rightarrow> LeastConnections \<Rightarrow> LeastConnections" where
  "LeastConnections_MarkFailure now i l =
     l\<lparr>lc_targets := at_slot i (RecordFailure now) (lc_targets l)\<rparr>"

definition LeastConnections_Upstreams :: "LeastConnections \<Rightarrow> Upstream list" where
  "LeastConnections_Upstreams l = lc_targets l"

subsection \<open>The interface value\<close>

datatype Balancer =
    LB_RoundRobin RoundRobin
  | LB_Weighted WeightedRoundRobin
  | LB_LeastConn LeastConnections

fun Balancer_Next :: "time \<Rightarrow> Balancer \<Rightarrow> (lb_error + nat) \<times> Balancer" where
  "Balancer_Next now (LB_RoundRobin r) = map_prod id LB_RoundRobin (RoundRobin_Next now r)"
| "Balancer_Next now (LB_Weighted w) = map_prod id LB_Weighted (WeightedRoundRobin_Next now w)"
| "Balancer_Next now (LB_LeastConn l) = map_prod id LB_LeastConn (LeastConnections_Next now l)"

fun Balancer_Release :: "nat \<Rightarrow> Balancer \<Rightarrow> Balancer" where
  "Balancer_Release i (LB_RoundRobin r) = LB_RoundRobin (RoundRobin_Release i r)"
| "Balancer_Release i (LB_Weighted w) = LB_Weighted (WeightedRoundRobin_Release i w)"
| "Balancer_Release i (LB_LeastConn l) = LB_LeastConn (LeastConnections_Release i l)"

fun Balancer_MarkFailure :: "time \<Rightarrow> nat \<Rightarrow> Balancer \<Rightarrow> Balancer" where
  "Balancer_MarkFailure now i (LB_RoundRobin r) = LB_RoundRobin (RoundRobin_MarkFailure now i r)"
| "Balancer_MarkFailure now i (LB_Weighted w) = LB_Weighted (WeightedRoundRobin_MarkFailure now i w)"
| "Balancer_MarkFailure now i (LB_LeastConn l) = LB_LeastConn (LeastConnections_MarkFailure now i l)"

fun Balancer_Upstreams :: "Balancer \<Rightarrow> Upstream list" where
  "Balancer_Upstreams (LB_RoundRobin r) = RoundRobin_Upstreams r"
| "Balancer_Upstreams (LB_Weighted w) = WeightedRoundRobin_Upstreams w"
| "Balancer_Upstreams (LB_LeastConn l) = LeastConnections_Upstreams l"

text \<open>
  An operation on one upstream through a pointer held outside the balancer: the engine calls
  \<open>RecordSuccess\<close> on its target, the health checker stores its verdict.
\<close>

fun Balancer_apply :: "nat \<Rightarrow> (Upstream \<Rightarrow> Upstream) \<Rightarrow> Balancer \<Rightarrow> Balancer" where
  "Balancer_apply i f (LB_RoundRobin r) = LB_RoundRobin (r\<lparr>rr_targets := at_slot i f (rr_targets r)\<rparr>)"
| "Balancer_apply i f (LB_Weighted w) = LB_Weighted (w\<lparr>wrr_targets := at_slot i f (wrr_targets w)\<rparr>)"
| "Balancer_apply i f (LB_LeastConn l) = LB_LeastConn (l\<lparr>lc_targets := at_slot i f (lc_targets l)\<rparr>)"

section \<open>The scans\<close>

definition admitted :: "time \<Rightarrow> Upstream \<Rightarrow> bool" where
  "admitted now t = fst (admit now t)"

definition after_admit :: "time \<Rightarrow> Upstream \<Rightarrow> Upstream" where
  "after_admit now t = snd (admit now t)"

text \<open>The indices of a list, from \<open>i\<close> on, whose elements satisfy \<open>P\<close>.\<close>

fun indices :: "('a \<Rightarrow> bool) \<Rightarrow> nat \<Rightarrow> 'a list \<Rightarrow> nat list" where
  "indices P i [] = []"
| "indices P i (x # xs) = (if P x then i # indices P (Suc i) xs else indices P (Suc i) xs)"

lemma in_set_indices:
  "k \<in> set (indices P i xs) \<longleftrightarrow> i \<le> k \<and> k < i + length xs \<and> P (xs ! (k - i))"
proof (induction xs arbitrary: i)
  case Nil
  then show ?case by simp
next
  case (Cons x xs)
  show ?case
  proof (cases "k = i")
    case True
    then show ?thesis using Cons [of "Suc i"] by auto
  next
    case False
    then show ?thesis by (auto simp: Cons nth_Cons' Suc_le_eq)
  qed
qed

lemma distinct_indices: "distinct (indices P i xs)"
  by (induction xs arbitrary: i) (auto simp: in_set_indices)

lemma indices_Nil_iff: "indices P i xs = [] \<longleftrightarrow> (\<forall>x \<in> set xs. \<not> P x)"
  by (induction xs arbitrary: i) auto

lemma admit_split: "admit now t = (admitted now t, after_admit now t)"
  by (simp add: admitted_def after_admit_def)

lemma rr_scan_eq:
  "rr_scan now i ts = (indices (admitted now) i ts, map (after_admit now) ts)"
  by (induction ts arbitrary: i) (simp_all add: admit_split)

lemma after_admit_frame [frame_simps]:
  "ActiveConns (after_admit now t) = ActiveConns t"
  "Weight (after_admit now t) = Weight t"
  "UpstreamURL (after_admit now t) = UpstreamURL t"
  "Healthy (after_admit now t) = Healthy t"
  by (simp_all add: after_admit_def admit_def frame_simps split: CircuitState.splits)
    (simp add: breaker_defs split: CircuitState.splits)

lemma repeat_of_after [simp]: "repeat_of (after_admit now t) = repeat_of t"
  by (simp add: repeat_of_def frame_simps)

lemma repeat_of_pos [simp]: "0 < repeat_of t" "\<not> repeat_of t \<le> 0"
  by (simp_all add: repeat_of_def)

lemma wrr_scan_snd: "snd (wrr_scan now i ts) = map (after_admit now) ts"
  by (induction ts arbitrary: i) (simp_all add: admit_split case_prod_beta)

lemma set_wrr_scan: "set (fst (wrr_scan now i ts)) = set (indices (admitted now) i ts)"
  by (induction ts arbitrary: i) (auto simp: admit_split case_prod_beta)

lemma wrr_scan_Nil_iff: "fst (wrr_scan now i ts) = [] \<longleftrightarrow> (\<forall>t \<in> set ts. \<not> admitted now t)"
  by (metis indices_Nil_iff set_empty set_wrr_scan)

lemma lc_scan_snd: "snd (lc_scan now i sel ts) = map (after_admit now) ts"
  by (induction ts arbitrary: i sel) (simp_all add: admit_split case_prod_beta Let_def)

text \<open>What the selection loop returns: the best of the start value and the admitted targets.\<close>

lemma lc_scan_fst:
  "case fst (lc_scan now i sel ts) of
     None \<Rightarrow> sel = None \<and> (\<forall>t \<in> set ts. \<not> admitted now t)
   | Some (k, s) \<Rightarrow>
       (Some (k, s) = sel \<or>
        (\<exists>j < length ts. k = i + j \<and> admitted now (ts ! j) \<and> s = after_admit now (ts ! j))) \<and>
       (\<forall>t \<in> set ts. admitted now t \<longrightarrow> ActiveConns s \<le> ActiveConns t) \<and>
       (\<forall>k' s'. sel = Some (k', s') \<longrightarrow> ActiveConns s \<le> ActiveConns s')"
proof (induction ts arbitrary: i sel)
  case Nil
  then show ?case by (auto split: option.splits)
next
  case (Cons t ts)
  define sel' where "sel' = (if admitted now t \<and>
      (case sel of None \<Rightarrow> True | Some (_, s) \<Rightarrow> ActiveConns (after_admit now t) < ActiveConns s)
      then Some (i, after_admit now t) else sel)"
  have eq: "fst (lc_scan now i sel (t # ts)) = fst (lc_scan now (Suc i) sel' ts)"
    by (simp add: admit_split case_prod_beta sel'_def Let_def)
  show ?case
  proof (cases "fst (lc_scan now (Suc i) sel' ts)")
    case None
    then show ?thesis
      using Cons.IH [of sel' "Suc i"] eq by (auto simp: sel'_def split: if_splits option.splits)
  next
    case (Some ks)
    obtain k s where ks: "ks = (k, s)" by (cases ks)
    from Cons.IH [of sel' "Suc i"] Some ks
    have origin: "Some (k, s) = sel' \<or> (\<exists>j < length ts. k = Suc i + j \<and>
          admitted now (ts ! j) \<and> s = after_admit now (ts ! j))"
      and least: "\<forall>t \<in> set ts. admitted now t \<longrightarrow> ActiveConns s \<le> ActiveConns t"
      and start: "\<And>k' s'. sel' = Some (k', s') \<Longrightarrow> ActiveConns s \<le> ActiveConns s'"
      by auto
    have "Some (k, s) = sel \<or> (\<exists>j < length (t # ts). k = i + j \<and>
          admitted now ((t # ts) ! j) \<and> s = after_admit now ((t # ts) ! j))"
      using origin
    proof
      assume "Some (k, s) = sel'"
      then show ?thesis by (auto simp: sel'_def split: if_splits intro: exI [of _ 0])
    next
      assume "\<exists>j < length ts. k = Suc i + j \<and> admitted now (ts ! j) \<and> s = after_admit now (ts ! j)"
      then obtain j where "j < length ts" "k = Suc i + j" "admitted now (ts ! j)"
        "s = after_admit now (ts ! j)" by blast
      then show ?thesis by (intro disjI2 exI [of _ "Suc j"]) simp
    qed
    moreover have "admitted now t \<Longrightarrow> ActiveConns s \<le> ActiveConns t"
      using start by (fastforce simp: sel'_def frame_simps split: option.splits if_splits)
    moreover have "sel = Some (k', s') \<Longrightarrow> ActiveConns s \<le> ActiveConns s'" for k' s'
      using start by (fastforce simp: sel'_def split: option.splits if_splits)
    ultimately show ?thesis using eq Some ks least by auto
  qed
qed

lemma admitted_iff:
  "admitted now t \<longleftrightarrow> Healthy t \<and>
     (State t = CircuitClosed \<or>
      State t = CircuitOpen \<and> CircuitOpenUntil t \<le> unix_seconds now \<or>
      State t = CircuitHalfOpen \<and> halfOpenInFlight t < maxProbes t)"
  by (auto simp: admitted_def admit_def TryHalfOpen_def reserveProbe_def maxProbes_def State_def
      Let_def split: CircuitState.splits)

lemma up_inv_after_admit: "up_inv t \<Longrightarrow> up_inv (after_admit now t)"
  using up_step_inv [of t "DoTryHalfOpen now"]
  by (auto simp: after_admit_def admit_def split: CircuitState.splits)

lemma up_inv_add_conns [simp]: "up_inv (add_conns d t) = up_inv t"
  by (simp add: up_inv_def add_conns_def effThreshold_def maxProbes_def)

section \<open>The contract of the interface\<close>

locale balancer_iface =
  fixes nxt :: "time \<Rightarrow> 'b \<Rightarrow> (lb_error + nat) \<times> 'b"
    and release :: "nat \<Rightarrow> 'b \<Rightarrow> 'b"
    and mark_failure :: "time \<Rightarrow> nat \<Rightarrow> 'b \<Rightarrow> 'b"
    and upstreams :: "'b \<Rightarrow> Upstream list"
  assumes next_Inr: "nxt now b = (Inr i, b') \<Longrightarrow>
      i < length (upstreams b) \<and> admitted now (upstreams b ! i) \<and>
      upstreams b' = at_slot i (add_conns 1) (map (after_admit now) (upstreams b))"
    and next_Inl: "nxt now b = (Inl e, b') \<Longrightarrow>
      (\<forall>u \<in> set (upstreams b). \<not> admitted now u) \<and>
      upstreams b' = map (after_admit now) (upstreams b)"
    and upstreams_release: "upstreams (release i b) = at_slot i release_target (upstreams b)"
    and upstreams_mark_failure:
      "upstreams (mark_failure now i b) = at_slot i (RecordFailure now) (upstreams b)"
begin

definition conns :: "'b \<Rightarrow> int list" where
  "conns b = map ActiveConns (upstreams b)"

lemma conns_next: "nxt now b = (Inr i, b') \<Longrightarrow> conns b' = at_slot i (\<lambda>c. c + 1) (conns b)"
  by (auto simp: conns_def add_conns_def frame_simps comp_def dest!: next_Inr
      intro!: map_at_slot [where h = ActiveConns, THEN trans] arg_cong [where f = "at_slot i _"])

lemma conns_next_err: "nxt now b = (Inl e, b') \<Longrightarrow> conns b' = conns b"
  by (auto simp: conns_def frame_simps dest!: next_Inl)

lemma conns_release: "conns (release i b) = at_slot i (\<lambda>c. c - 1) (conns b)"
  unfolding conns_def upstreams_release
  by (rule map_at_slot) (simp add: release_target_def add_conns_def frame_simps Let_def)

lemma conns_mark_failure: "conns (mark_failure now i b) = conns b"
  unfolding conns_def upstreams_mark_failure
  by (rule map_at_slot_id) (simp add: frame_simps)

lemma length_next: "nxt now b = (r, b') \<Longrightarrow> length (upstreams b') = length (upstreams b)"
  by (cases r) (auto dest: next_Inl next_Inr)

lemma length_release [simp]: "length (upstreams (release i b)) = length (upstreams b)"
  by (simp add: upstreams_release)

lemma length_mark_failure [simp]:
  "length (upstreams (mark_failure now i b)) = length (upstreams b)"
  by (simp add: upstreams_mark_failure)

text \<open>A target that is acquired, possibly marked as failed, and released: nothing is held.\<close>

lemma acquire_release:
  assumes "nxt now b = (Inr i, b')" and "conns b'' = conns b'"
  shows "conns (release i b'') = conns b"
  using conns_next [OF assms(1)] assms(2)
  by (simp add: conns_release at_slot_cong_id)

lemma next_iff_admitted:
  "(\<exists>i b'. nxt now b = (Inr i, b')) \<longleftrightarrow> (\<exists>u \<in> set (upstreams b). admitted now u)"
proof
  assume "\<exists>i b'. nxt now b = (Inr i, b')"
  then show "\<exists>u \<in> set (upstreams b). admitted now u"
    by (auto dest!: next_Inr)
next
  assume adm: "\<exists>u \<in> set (upstreams b). admitted now u"
  obtain r b' where "nxt now b = (r, b')" by (cases "nxt now b")
  with adm show "\<exists>i b'. nxt now b = (Inr i, b')"
    by (cases r) (auto dest: next_Inl)
qed

lemma inv_next:
  "list_all up_inv (upstreams b) \<Longrightarrow> nxt now b = (r, b') \<Longrightarrow> list_all up_inv (upstreams b')"
  by (cases r)
    (auto dest!: next_Inl next_Inr intro!: list_all_at_slot
      simp: list.pred_map comp_def up_inv_after_admit elim!: list.pred_mono_strong)

end

subsection \<open>The balancers implement it\<close>

lemmas rr_ops =
  RoundRobin_Next_def RoundRobin_Release_def RoundRobin_MarkFailure_def RoundRobin_Upstreams_def
lemmas wrr_ops =
  WeightedRoundRobin_Next_def WeightedRoundRobin_Release_def WeightedRoundRobin_MarkFailure_def
  WeightedRoundRobin_Upstreams_def
lemmas lc_ops =
  LeastConnections_Next_def LeastConnections_Release_def LeastConnections_MarkFailure_def
  LeastConnections_Upstreams_def

lemma nth_mod_in_set: "xs \<noteq> [] \<Longrightarrow> xs ! (n mod length xs) \<in> set xs"
  by simp

interpretation rr: balancer_iface
  RoundRobin_Next RoundRobin_Release RoundRobin_MarkFailure RoundRobin_Upstreams
proof
  fix now r i r'
  assume "RoundRobin_Next now r = (Inr i, r')"
  then have ne: "indices (admitted now) 0 (rr_targets r) \<noteq> []"
    and i: "i = indices (admitted now) 0 (rr_targets r) !
        (unat (rr_counter r + 1) mod length (indices (admitted now) 0 (rr_targets r)))"
    and r': "rr_targets r' = at_slot i (add_conns 1) (map (after_admit now) (rr_targets r))"
    by (auto simp: rr_ops rr_scan_eq Let_def split: if_splits)
  have "i \<in> set (indices (admitted now) 0 (rr_targets r))"
    unfolding i using ne by (rule nth_mod_in_set)
  then show "i < length (RoundRobin_Upstreams r) \<and> admitted now (RoundRobin_Upstreams r ! i) \<and>
      RoundRobin_Upstreams r' = at_slot i (add_conns 1) (map (after_admit now) (RoundRobin_Upstreams r))"
    using r' by (simp add: in_set_indices RoundRobin_Upstreams_def)
next
  fix now r e r'
  assume "RoundRobin_Next now r = (Inl e, r')"
  then show "(\<forall>u \<in> set (RoundRobin_Upstreams r). \<not> admitted now u) \<and>
      RoundRobin_Upstreams r' = map (after_admit now) (RoundRobin_Upstreams r)"
    by (auto simp: rr_ops rr_scan_eq Let_def indices_Nil_iff split: if_splits)
qed (simp_all add: rr_ops)

interpretation wrr: balancer_iface
  WeightedRoundRobin_Next WeightedRoundRobin_Release WeightedRoundRobin_MarkFailure
  WeightedRoundRobin_Upstreams
proof
  fix now w i w'
  assume "WeightedRoundRobin_Next now w = (Inr i, w')"
  then have ne: "fst (wrr_scan now 0 (wrr_targets w)) \<noteq> []"
    and i: "i = fst (wrr_scan now 0 (wrr_targets w)) !
        (unat (wrr_counter w + 1) mod length (fst (wrr_scan now 0 (wrr_targets w))))"
    and w': "wrr_targets w' = at_slot i (add_conns 1) (map (after_admit now) (wrr_targets w))"
    by (auto simp: wrr_ops wrr_scan_snd Let_def case_prod_beta split: if_splits)
  have "i \<in> set (fst (wrr_scan now 0 (wrr_targets w)))"
    unfolding i using ne by (rule nth_mod_in_set)
  then show "i < length (WeightedRoundRobin_Upstreams w) \<and>
      admitted now (WeightedRoundRobin_Upstreams w ! i) \<and>
      WeightedRoundRobin_Upstreams w'
        = at_slot i (add_conns 1) (map (after_admit now) (WeightedRoundRobin_Upstreams w))"
    using w' by (simp add: in_set_indices set_wrr_scan WeightedRoundRobin_Upstreams_def)
next
  fix now w e w'
  assume "WeightedRoundRobin_Next now w = (Inl e, w')"
  then show "(\<forall>u \<in> set (WeightedRoundRobin_Upstreams w). \<not> admitted now u) \<and>
      WeightedRoundRobin_Upstreams w' = map (after_admit now) (WeightedRoundRobin_Upstreams w)"
    by (auto simp: wrr_ops wrr_scan_snd wrr_scan_Nil_iff Let_def case_prod_beta split: if_splits)
qed (simp_all add: wrr_ops)

interpretation lc: balancer_iface
  LeastConnections_Next LeastConnections_Release LeastConnections_MarkFailure
  LeastConnections_Upstreams
proof
  fix now l i l'
  assume nxt: "LeastConnections_Next now l = (Inr i, l')"
  then obtain s where sel: "fst (lc_scan now 0 None (lc_targets l)) = Some (i, s)"
    by (auto simp: lc_ops case_prod_beta split: option.splits)
  with nxt have "lc_targets l' = at_slot i (add_conns 1) (map (after_admit now) (lc_targets l))"
    by (auto simp: lc_ops lc_scan_snd case_prod_beta)
  then show "i < length (LeastConnections_Upstreams l) \<and>
      admitted now (LeastConnections_Upstreams l ! i) \<and>
      LeastConnections_Upstreams l'
        = at_slot i (add_conns 1) (map (after_admit now) (LeastConnections_Upstreams l))"
    using lc_scan_fst [where now = now and i = 0 and sel = None and ts = "lc_targets l"] sel
    by (auto simp: LeastConnections_Upstreams_def)
next
  fix now l e l'
  assume nxt: "LeastConnections_Next now l = (Inl e, l')"
  then have sel: "fst (lc_scan now 0 None (lc_targets l)) = None"
    by (auto simp: lc_ops case_prod_beta split: option.splits)
  then show "(\<forall>u \<in> set (LeastConnections_Upstreams l). \<not> admitted now u) \<and>
      LeastConnections_Upstreams l' = map (after_admit now) (LeastConnections_Upstreams l)"
    using nxt lc_scan_fst [where now = now and i = 0 and sel = None and ts = "lc_targets l"]
    by (auto simp: lc_ops lc_scan_snd case_prod_beta)
qed (simp_all add: lc_ops)

interpretation lb: balancer_iface
  Balancer_Next Balancer_Release Balancer_MarkFailure Balancer_Upstreams
proof
  fix now b i b'
  assume "Balancer_Next now b = (Inr i, b')"
  then show "i < length (Balancer_Upstreams b) \<and> admitted now (Balancer_Upstreams b ! i) \<and>
      Balancer_Upstreams b' = at_slot i (add_conns 1) (map (after_admit now) (Balancer_Upstreams b))"
    by (cases b) (auto simp: map_prod_def split: prod.splits
        dest: rr.next_Inr wrr.next_Inr lc.next_Inr)
next
  fix now b e b'
  assume "Balancer_Next now b = (Inl e, b')"
  then show "(\<forall>u \<in> set (Balancer_Upstreams b). \<not> admitted now u) \<and>
      Balancer_Upstreams b' = map (after_admit now) (Balancer_Upstreams b)"
    by (cases b) (auto simp: map_prod_def split: prod.splits
        dest: rr.next_Inl wrr.next_Inl lc.next_Inl)
next
  fix i b
  show "Balancer_Upstreams (Balancer_Release i b) = at_slot i release_target (Balancer_Upstreams b)"
    by (cases b) (simp_all add: rr.upstreams_release wrr.upstreams_release lc.upstreams_release)
next
  fix now i b
  show "Balancer_Upstreams (Balancer_MarkFailure now i b)
      = at_slot i (RecordFailure now) (Balancer_Upstreams b)"
    by (cases b) (simp_all add: rr.upstreams_mark_failure wrr.upstreams_mark_failure
        lc.upstreams_mark_failure)
qed

lemma Upstreams_apply [simp]:
  "Balancer_Upstreams (Balancer_apply i f b) = at_slot i f (Balancer_Upstreams b)"
  by (cases b) (simp_all add: RoundRobin_Upstreams_def WeightedRoundRobin_Upstreams_def
      LeastConnections_Upstreams_def)

end
