(* ===== verification/Balancer_Props.thy ===== *)
theory Balancer_Props
  imports Balancer
begin

text \<open>
  The properties of the balancers: which targets they may pick, how they share the load,
  how they account for connections over any interleaving of requests, and what \<open>Release\<close>
  and the probe reservations of \<open>Next\<close> do to a half-open circuit.
\<close>

section \<open>Fairness of the counter-based balancers\<close>

text \<open>The results of a row of calls of \<open>Next\<close>.\<close>

fun next_seq :: "(time \<Rightarrow> 'b \<Rightarrow> (lb_error + nat) \<times> 'b) \<Rightarrow> 'b \<Rightarrow> time list \<Rightarrow> (lb_error + nat) list" where
  "next_seq nxt b [] = []"
| "next_seq nxt b (t # ts) = (let (r, b') = nxt t b in r # next_seq nxt b' ts)"

text \<open>
  What round robin and weighted round robin share: as long as the pool is steady, a fixed list
  of slots is scanned cyclically, one slot per call, at the position of an unsigned counter.
\<close>

locale cyclic_balancer =
  fixes nxt :: "time \<Rightarrow> 'b \<Rightarrow> (lb_error + nat) \<times> 'b"
    and counter :: "'b \<Rightarrow> u64"
    and slots :: "'b \<Rightarrow> nat list"
    and steady :: "'b \<Rightarrow> bool"
  assumes step: "steady b \<Longrightarrow> slots b \<noteq> [] \<Longrightarrow>
      \<exists>b'. nxt now b = (Inr (slots b ! (unat (counter b + 1) mod length (slots b))), b') \<and>
           steady b' \<and> slots b' = slots b \<and> counter b' = counter b + 1"
begin

lemma next_seq_eq:
  assumes "steady b" and "slots b \<noteq> []" and "unat (counter b) + length ts < 2 ^ 64"
  shows "next_seq nxt b ts =
           map (\<lambda>j. Inr (slots b ! ((unat (counter b) + 1 + j) mod length (slots b)))) [0..<length ts]"
  using assms
proof (induction ts arbitrary: b)
  case Nil
  then show ?case by simp
next
  case (Cons t ts)
  let ?c = "unat (counter b)"
  obtain b' where nxt: "nxt t b = (Inr (slots b ! (unat (counter b + 1) mod length (slots b))), b')"
    and b': "steady b'" "slots b' = slots b" "counter b' = counter b + 1"
    using step [OF Cons.prems(1,2)] by blast
  have c: "unat (counter b + 1) = ?c + 1"
    using unat_counter_add [of "counter b" 1] Cons.prems(3) by simp
  let ?pick = "\<lambda>n. Inr (slots b ! (n mod length (slots b))) :: lb_error + nat"
  have "next_seq nxt b' ts = map (\<lambda>j. ?pick (Suc (?c + 1) + j)) [0..<length ts]"
    using Cons.IH [of b'] b' c Cons.prems by simp
  then have "next_seq nxt b (t # ts) = map (\<lambda>j. ?pick ((?c + 1) + j)) [0..<Suc (length ts)]"
    unfolding map_upt_shift [where f = ?pick] using nxt c by simp
  then show ?case by (simp del: upt_Suc)
qed

text \<open>Over one turn of the slots every target is picked as often as it has slots.\<close>

lemma fair_turn:
  assumes "steady b" and "unat (counter b) + length (slots b) < 2 ^ 64"
    and "length ts = length (slots b)"
  shows "count_list (next_seq nxt b ts) (Inr i) = count_list (slots b) i"
proof (cases "slots b = []")
  case True
  with assms show ?thesis by simp
next
  case False
  let ?picks = "map (\<lambda>j. slots b ! ((unat (counter b) + 1 + j) mod length (slots b)))
      [0..<length (slots b)]"
  have "next_seq nxt b ts = map Inr ?picks"
    using next_seq_eq [of b ts] assms False by (simp add: comp_def)
  moreover have "count_list (map Inr xs :: (lb_error + nat) list) (Inr i) = count_list xs i" for xs
    by (induction xs) auto
  moreover have "count_list ?picks i = count_list (slots b) i"
    using mset_cyclic_scan [OF False, of "unat (counter b) + 1"]
    by (metis (no_types, lifting) count_mset)
  ultimately show ?thesis by metis
qed

end

text \<open>A pool is steady while every healthy target has its circuit closed.\<close>

definition steady_pool :: "Upstream list \<Rightarrow> bool" where
  "steady_pool ts = list_all (\<lambda>t. Healthy t \<longrightarrow> State t = CircuitClosed) ts"

lemma steady_admit:
  assumes "Healthy t \<longrightarrow> State t = CircuitClosed"
  shows "admitted now t = Healthy t" "after_admit now t = t"
  using assms by (auto simp: admitted_def after_admit_def admit_def)

lemma steady_map: "steady_pool ts \<Longrightarrow> map (after_admit now) ts = ts"
  by (induction ts) (simp_all add: steady_pool_def steady_admit)

lemma steady_indices: "steady_pool ts \<Longrightarrow> indices (admitted now) i ts = indices Healthy i ts"
  by (induction ts arbitrary: i) (simp_all add: steady_pool_def steady_admit)

lemma steady_at_slot: "steady_pool ts \<Longrightarrow> steady_pool (at_slot i (add_conns d) ts)"
  unfolding steady_pool_def by (rule list_all_at_slot) (simp_all add: add_conns_def State_def)

lemma indices_at_slot:
  "indices Healthy i (at_slot k (add_conns d) ts) = indices Healthy i ts"
proof (induction ts arbitrary: i k)
  case (Cons t ts)
  then show ?case by (cases k) (simp_all add: add_conns_def)
qed simp

interpretation rr_cyc: cyclic_balancer
  RoundRobin_Next rr_counter "\<lambda>r. indices Healthy 0 (rr_targets r)" "\<lambda>r. steady_pool (rr_targets r)"
  by standard
    (simp add: RoundRobin_Next_def rr_scan_eq steady_indices steady_map Let_def
      steady_at_slot indices_at_slot)

text \<open>The slots of the weighted scan of a steady pool.\<close>

fun weighted :: "nat \<Rightarrow> Upstream list \<Rightarrow> nat list" where
  "weighted i [] = []"
| "weighted i (t # ts) =
     (if Healthy t then replicate (nat (repeat_of t)) i else []) @ weighted (Suc i) ts"

lemma wrr_scan_weighted: "steady_pool ts \<Longrightarrow> wrr_scan now i ts = (weighted i ts, ts)"
  by (induction ts arbitrary: i) (simp_all add: steady_pool_def admit_split steady_admit)

lemma weighted_at_slot: "weighted i (at_slot k (add_conns d) ts) = weighted i ts"
proof (induction ts arbitrary: i k)
  case (Cons t ts)
  then show ?case by (cases k) (simp_all add: add_conns_def repeat_of_def)
qed simp

lemma count_weighted:
  "count_list (weighted i ts) (i + k) =
     (if k < length ts \<and> Healthy (ts ! k) then nat (repeat_of (ts ! k)) else 0)"
proof (induction ts arbitrary: i k)
  case (Cons t ts)
  have "count_list (weighted (Suc i) ts) i = 0"
  proof -
    have "set (weighted j us) \<subseteq> {j..}" for j us
      by (induction us arbitrary: j) (auto dest: Suc_leD)
    then have "i \<notin> set (weighted (Suc i) ts)" by force
    then show ?thesis by (simp add: count_list_0_iff)
  qed
  then show ?case using Cons [of "Suc i" "k - 1"] by (cases k) auto
qed simp

interpretation wrr_cyc: cyclic_balancer
  WeightedRoundRobin_Next wrr_counter "\<lambda>w. weighted 0 (wrr_targets w)"
  "\<lambda>w. steady_pool (wrr_targets w)"
  by standard
    (simp add: WeightedRoundRobin_Next_def wrr_scan_weighted Let_def steady_at_slot weighted_at_slot)

lemma count_indices:
  "count_list (indices P i xs) (i + k) = (if k < length xs \<and> P (xs ! k) then 1 else 0)"
proof (cases "i + k \<in> set (indices P i xs)")
  case True
  then have "count_list (indices P i xs) (i + k) = 1"
    using distinct_indices [of P i xs] by (simp add: count_list_distinct)
  then show ?thesis using True by (simp add: in_set_indices)
next
  case False
  then show ?thesis by (auto simp: in_set_indices count_list_0_iff)
qed

section \<open>Interleaved requests\<close>

text \<open>
  The balancer of a route while requests run concurrently, one method call per step, with the
  targets acquired and not yet released. A request calls \<open>MarkFailure\<close>, \<open>RecordSuccess\<close> and
  \<open>Release\<close> only on a target it holds; the health checker writes at any time.
\<close>

inductive lb_step :: "Balancer \<times> nat multiset \<Rightarrow> Balancer \<times> nat multiset \<Rightarrow> bool" where
  acquire: "Balancer_Next now b = (Inr i, b') \<Longrightarrow> lb_step (b, H) (b', add_mset i H)"
| reject: "Balancer_Next now b = (Inl e, b') \<Longrightarrow> lb_step (b, H) (b', H)"
| release: "i \<in># H \<Longrightarrow> lb_step (b, H) (Balancer_Release i b, H - {#i#})"
| mark_failure: "i \<in># H \<Longrightarrow> lb_step (b, H) (Balancer_MarkFailure now i b, H)"
| record_success: "i \<in># H \<Longrightarrow> lb_step (b, H) (Balancer_apply i RecordSuccess b, H)"
| health_check: "lb_step (b, H) (Balancer_apply i (\<lambda>u. u\<lparr>Healthy := v\<rparr>) b, H)"

inductive_cases lb_stepE: "lb_step (b, H) (b', H')"

abbreviation lb_steps :: "Balancer \<times> nat multiset \<Rightarrow> Balancer \<times> nat multiset \<Rightarrow> bool" where
  "lb_steps \<equiv> lb_step\<^sup>*\<^sup>*"

definition lb_conns :: "Balancer \<Rightarrow> int list" where
  "lb_conns b = map ActiveConns (Balancer_Upstreams b)"

lemma lb_conns_eq: "lb.conns b = lb_conns b"
  by (simp add: lb.conns_def lb_conns_def)

lemmas lb_conns_simps =
  lb.conns_next [unfolded lb_conns_eq] lb.conns_next_err [unfolded lb_conns_eq]
  lb.conns_release [unfolded lb_conns_eq] lb.conns_mark_failure [unfolded lb_conns_eq]

lemma lb_conns_apply:
  "(\<And>u. ActiveConns (f u) = ActiveConns u) \<Longrightarrow> lb_conns (Balancer_apply i f b) = lb_conns b"
  by (simp add: lb_conns_def map_at_slot_id)

text \<open>The connections the balancer counts are the targets held.\<close>

definition conns_exact :: "Balancer \<times> nat multiset \<Rightarrow> bool" where
  "conns_exact s = (case s of (b, H) \<Rightarrow>
     lb_conns b = map (\<lambda>i. int (count H i)) [0..<length (lb_conns b)])"

lemma at_slot_map_upt:
  "at_slot i f (map g [0..<n]) = map (g(i := f (g i))) [0..<n]"
  by (rule nth_equalityI) (auto simp: slot_simps)

lemma conns_exactI: "lb_conns b = map (\<lambda>i. int (count H i)) [0..<n] \<Longrightarrow> conns_exact (b, H)"
  by (simp add: conns_exact_def)

lemma lb_step_conns_exact: "lb_step s t \<Longrightarrow> conns_exact s \<Longrightarrow> conns_exact t"
proof (induction rule: lb_step.induct)
  case (acquire now b i b' H)
  define n where "n = length (lb_conns b)"
  then have eq: "lb_conns b = map (\<lambda>i. int (count H i)) [0..<n]"
    using acquire by (simp add: conns_exact_def)
  have "lb_conns b' = map (\<lambda>k. int (count (add_mset i H) k)) [0..<n]"
    unfolding lb_conns_simps(1) [OF acquire(1)] eq at_slot_map_upt by auto
  then show ?case by (rule conns_exactI)
next
  case (release i H b)
  define n where "n = length (lb_conns b)"
  then have eq: "lb_conns b = map (\<lambda>i. int (count H i)) [0..<n]"
    using release by (simp add: conns_exact_def)
  have "lb_conns (Balancer_Release i b) = map (\<lambda>k. int (count (H - {#i#}) k)) [0..<n]"
    unfolding lb_conns_simps(3) eq at_slot_map_upt using release(1)
    by (auto simp: of_nat_diff Suc_le_eq)
  then show ?case by (rule conns_exactI)
qed (simp_all add: conns_exact_def lb_conns_simps lb_conns_apply frame_simps)

section \<open>Properties\<close>

text \<open>
  Which upstreams can take traffic: the healthy ones whose circuit is closed, or open with an
  expired timer, or half-open with a free probe slot.
\<close>

definition eligible :: "time \<Rightarrow> Upstream \<Rightarrow> bool" where
  "eligible now u \<longleftrightarrow> Healthy u \<and>
     (State u = CircuitClosed \<or>
      State u = CircuitOpen \<and> CircuitOpenUntil u \<le> unix_seconds now \<or>
      State u = CircuitHalfOpen \<and> halfOpenInFlight u < maxProbes u)"

lemma admitted_eligible: "admitted now u = eligible now u"
  by (simp add: admitted_iff eligible_def)

text \<open>
  C9. \<open>Next\<close> returns a target exactly when one can take traffic, and the target it returns is
  healthy and either closed, or open with an expired timer, or half-open with a free probe
  slot; so an open circuit receives no traffic before its timer expires.
\<close>

theorem next_eligible:
  "((\<exists>i b'. Balancer_Next now b = (Inr i, b')) \<longleftrightarrow>
      (\<exists>u \<in> set (Balancer_Upstreams b). eligible now u)) \<and>
   (\<forall>i b'. Balancer_Next now b = (Inr i, b') \<longrightarrow>
      i < length (Balancer_Upstreams b) \<and> eligible now (Balancer_Upstreams b ! i))"
  using lb.next_iff_admitted [of now b] lb.next_Inr [of now b]
  by (auto simp: admitted_eligible)

theorem next_eligible_witness:
  "fst (Balancer_Next 0 (LB_RoundRobin (NewRoundRobin
     [(sample_upstream ''a'')\<lparr>Healthy := False\<rparr>, sample_upstream ''b'']))) = Inr 1"
proof -
  let ?b = "LB_RoundRobin (NewRoundRobin
     [(sample_upstream ''a'')\<lparr>Healthy := False\<rparr>, sample_upstream ''b''])"
  have "\<exists>u \<in> set (Balancer_Upstreams ?b). eligible 0 u"
    by (simp add: NewRoundRobin_def RoundRobin_Upstreams_def eligible_def sample_upstream_def State_def)
  then obtain i b' where nxt: "Balancer_Next 0 ?b = (Inr i, b')"
    using next_eligible [of 0 ?b] by blast
  then have "i < 2" "Healthy ([(sample_upstream ''a'')\<lparr>Healthy := False\<rparr>, sample_upstream ''b''] ! i)"
    using next_eligible [of 0 ?b]
    by (auto simp: NewRoundRobin_def RoundRobin_Upstreams_def eligible_def)
  then have "i = 1" by (cases i) auto
  with nxt show ?thesis by simp
qed

text \<open>
  C25. Round robin is fair: while every healthy target is closed and the counter does not wrap,
  as many consecutive calls of \<open>Next\<close> as there are healthy targets pick each of them exactly
  once and no other, wherever the counter stands.
\<close>

theorem round_robin_fair:
  assumes "steady_pool (rr_targets r)"
    and "length ts = length (indices Healthy 0 (rr_targets r))"
    and "unat (rr_counter r) + length ts < 2 ^ 64"
  shows "count_list (next_seq RoundRobin_Next r ts) (Inr i) =
           (if i < length (rr_targets r) \<and> Healthy (rr_targets r ! i) then 1 else 0)"
  using rr_cyc.fair_turn [of r ts i] assms count_indices [of Healthy 0 "rr_targets r" i] by auto

theorem round_robin_fair_witness:
  "count_list (next_seq RoundRobin_Next (NewRoundRobin [sample_upstream ''a'', sample_upstream ''b''])
     [0, 1]) (Inr 0) = 1"
proof -
  let ?r = "NewRoundRobin [sample_upstream ''a'', sample_upstream ''b'']"
  have "steady_pool (rr_targets ?r)"
    "length [0::time, 1] = length (indices Healthy 0 (rr_targets ?r))"
    "unat (rr_counter ?r) + length [0::time, 1] < 2 ^ 64"
    by (simp_all add: NewRoundRobin_def steady_pool_def sample_upstream_def State_def)
  from round_robin_fair [OF this, of 0] show ?thesis
    by (simp add: NewRoundRobin_def sample_upstream_def del: next_seq.simps)
qed

text \<open>
  C24. Weighted round robin splits traffic by weight: while every healthy target is closed and
  the counter does not wrap, over as many consecutive calls as the healthy weights sum up to,
  a healthy target is picked exactly its weight many times (a weight of 0 or less counts as 1).
\<close>

theorem weighted_round_robin_fair:
  assumes "steady_pool (wrr_targets w)"
    and "length ts = length (weighted 0 (wrr_targets w))"
    and "unat (wrr_counter w) + length ts < 2 ^ 64"
  shows "count_list (next_seq WeightedRoundRobin_Next w ts) (Inr i) =
           (if i < length (wrr_targets w) \<and> Healthy (wrr_targets w ! i)
            then nat (max 1 (Weight (wrr_targets w ! i))) else 0)"
proof -
  have "nat (repeat_of t) = nat (max 1 (Weight t))" for t
    by (simp add: repeat_of_def)
  then show ?thesis
    using wrr_cyc.fair_turn [of w ts i] assms count_weighted [of 0 "wrr_targets w" i] by auto
qed

theorem weighted_round_robin_fair_witness:
  "count_list (next_seq WeightedRoundRobin_Next
     (NewWeightedRoundRobin [(sample_upstream ''a'')\<lparr>Weight := 3\<rparr>, sample_upstream ''b''])
     [0, 1, 2, 3]) (Inr 0) = 3"
proof -
  let ?w = "NewWeightedRoundRobin [(sample_upstream ''a'')\<lparr>Weight := 3\<rparr>, sample_upstream ''b'']"
  have "steady_pool (wrr_targets ?w)"
    "length [0::time, 1, 2, 3] = length (weighted 0 (wrr_targets ?w))"
    "unat (wrr_counter ?w) + length [0::time, 1, 2, 3] < 2 ^ 64"
    by (simp_all add: NewWeightedRoundRobin_def steady_pool_def sample_upstream_def State_def
        repeat_of_def)
  from weighted_round_robin_fair [OF this, of 0] show ?thesis
    by (simp add: NewWeightedRoundRobin_def sample_upstream_def del: next_seq.simps)
qed

text \<open>
  C26. Least connections picks a target that can take traffic and has no more active
  connections than any other target that can.
\<close>

theorem least_connections_minimal:
  assumes "LeastConnections_Next now l = (Inr i, l')"
  shows "i < length (lc_targets l) \<and> eligible now (lc_targets l ! i) \<and>
         (\<forall>u \<in> set (lc_targets l). eligible now u \<longrightarrow>
            ActiveConns (lc_targets l ! i) \<le> ActiveConns u)"
proof -
  obtain s where sel: "fst (lc_scan now 0 None (lc_targets l)) = Some (i, s)"
    using assms by (auto simp: LeastConnections_Next_def case_prod_beta split: option.splits)
  then show ?thesis
    using lc_scan_fst [where now = now and i = 0 and sel = None and ts = "lc_targets l"]
    by (auto simp: frame_simps admitted_eligible [symmetric])
qed

theorem least_connections_minimal_witness:
  "fst (LeastConnections_Next 0 (NewLeastConnections
     [(sample_upstream ''a'')\<lparr>ActiveConns := 2\<rparr>, sample_upstream ''b''])) = Inr 1"
proof -
  let ?l = "NewLeastConnections [(sample_upstream ''a'')\<lparr>ActiveConns := 2\<rparr>, sample_upstream ''b'']"
  have "\<exists>i. fst (LeastConnections_Next 0 ?l) = Inr i"
    by (simp add: LeastConnections_Next_def NewLeastConnections_def admit_def sample_upstream_def
        State_def)
  then obtain i where i: "LeastConnections_Next 0 ?l = (Inr i, snd (LeastConnections_Next 0 ?l))"
    by (metis prod.collapse)
  then have "i < 2" "ActiveConns (lc_targets ?l ! i) \<le> 0"
    using least_connections_minimal [OF i]
    by (simp_all add: NewLeastConnections_def eligible_def sample_upstream_def State_def)
  then have "i = 1" by (cases i) (simp_all add: NewLeastConnections_def)
  with i show ?thesis by (metis fst_conv)
qed

text \<open>
  Connections are counted exactly: however requests, results and health checks interleave,
  the connections the balancer counts for a target are the ones acquired and not released, so
  the count is never negative and returns to zero when every request is done.
\<close>

lemma connections_exact:
  assumes "lb_steps (b, {#}) (b', H)" and "\<forall>c \<in> set (lb_conns b). c = 0"
  shows "lb_conns b' = map (\<lambda>i. int (count H i)) [0..<length (lb_conns b')]"
proof -
  have "lb_conns b = map (\<lambda>i. int (count {#} i)) [0..<length (lb_conns b)]"
    using assms(2) by (intro nth_equalityI) auto
  then have "conns_exact (b, {#})" by (rule conns_exactI)
  with assms(1) have "conns_exact (b', H)"
    by (induction rule: rtranclp_induct2) (simp_all add: lb_step_conns_exact)
  then show ?thesis by (simp add: conns_exact_def)
qed

lemma connections_exact_instance:
  "\<exists>b'. lb_conns b' = [0, 1]"
proof -
  let ?b = "LB_RoundRobin (NewRoundRobin [sample_upstream ''a'', sample_upstream ''b''])"
  obtain b' where nxt: "Balancer_Next 0 ?b = (Inr 1, b')"
    by (simp add: NewRoundRobin_def RoundRobin_Next_def admit_def sample_upstream_def State_def)
  have "lb_steps (?b, {#}) (b', {#1#})"
    using lb_step.acquire [OF nxt, of "{#}"] by (rule r_into_rtranclp)
  moreover have "\<forall>c \<in> set (lb_conns ?b). c = 0"
    by (simp add: lb_conns_def NewRoundRobin_def RoundRobin_Upstreams_def sample_upstream_def)
  ultimately have "lb_conns b' = map (\<lambda>i. int (count {#1#} i)) [0..<length (lb_conns b')]"
    by (rule connections_exact)
  moreover have "length (lb_conns b') = 2"
    using lb.length_next [OF nxt]
    by (simp add: lb_conns_def NewRoundRobin_def RoundRobin_Upstreams_def)
  ultimately show ?thesis by (auto simp: numeral_2_eq_2)
qed

text \<open>A half-open circuit with every probe slot taken.\<close>

definition probes_taken :: "Upstream \<Rightarrow> bool" where
  "probes_taken u \<longleftrightarrow> State u = CircuitHalfOpen \<and> halfOpenInFlight u \<ge> maxProbes u"

lemma probes_taken_not_admitted: "probes_taken u \<Longrightarrow> \<not> admitted now u"
  by (auto simp: probes_taken_def admitted_iff)

lemma probes_taken_after_admit: "probes_taken u \<Longrightarrow> after_admit now u = u"
  by (simp add: probes_taken_def after_admit_def admit_def TryHalfOpen_def reserveProbe_def)

lemma probes_taken_Healthy: "probes_taken (u\<lparr>Healthy := v\<rparr>) = probes_taken u"
  by (simp add: probes_taken_def State_def maxProbes_def)

definition starved :: "nat \<Rightarrow> Balancer \<times> nat multiset \<Rightarrow> bool" where
  "starved i s = (case s of (b, H) \<Rightarrow>
     i \<notin># H \<and> i < length (Balancer_Upstreams b) \<and> probes_taken (Balancer_Upstreams b ! i))"

lemma lb_step_starved: "lb_step s t \<Longrightarrow> starved i s \<Longrightarrow> starved i t"
proof (induction rule: lb_step.induct)
  case (acquire now b k b' H)
  then have "k \<noteq> i"
    using lb.next_Inr probes_taken_not_admitted by (fastforce simp: starved_def)
  then show ?case
    using acquire lb.next_Inr [OF acquire(1)]
    by (auto simp: starved_def slot_simps probes_taken_after_admit)
next
  case (reject now b e b' H)
  then show ?case
    using lb.next_Inl [OF reject(1)] by (auto simp: starved_def probes_taken_after_admit)
next
  case (release k H b)
  then have "k \<noteq> i" by (auto simp: starved_def)
  with release show ?case
    by (auto simp: starved_def lb.upstreams_release slot_simps dest: in_diffD)
next
  case (mark_failure k H b now)
  then have "k \<noteq> i" by (auto simp: starved_def)
  with mark_failure show ?case by (simp add: starved_def lb.upstreams_mark_failure slot_simps)
next
  case (record_success k H b)
  then have "k \<noteq> i" by (auto simp: starved_def)
  with record_success show ?case by (simp add: starved_def slot_simps)
next
  case (health_check b H k v)
  then show ?case by (auto simp: starved_def slot_simps probes_taken_Healthy)
qed

lemma after_admit_probe:
  assumes "admitted now u" and "State u \<noteq> CircuitClosed" and "maxProbes u = 1"
    and "State u = CircuitHalfOpen \<Longrightarrow> 0 \<le> halfOpenInFlight u"
  shows "probes_taken (after_admit now u)"
  using assms
  by (cases "State u")
    (auto simp: probes_taken_def admitted_iff after_admit_def admit_def TryHalfOpen_def
      reserveProbe_def maxProbes_def State_def Let_def split: if_splits)

text \<open>
  \<open>Next\<close> reserves a probe slot on every target it admits, not only on the one it returns.
  With one probe configured, a target whose circuit is not closed and that \<open>Next\<close> admits but
  does not pick has its only slot taken by nobody: from then on no sequence of requests,
  results and health checks makes any balancer pick it again.
\<close>

lemma unpicked_probe_starves:
  assumes "Balancer_Next now b = (Inr j, b1)"
    and "i < length (Balancer_Upstreams b)" and "i \<noteq> j" and "i \<notin># H"
    and "admitted now (Balancer_Upstreams b ! i)"
    and "State (Balancer_Upstreams b ! i) \<noteq> CircuitClosed"
    and "maxProbes (Balancer_Upstreams b ! i) = 1"
    and "0 \<le> halfOpenInFlight (Balancer_Upstreams b ! i)"
    and "lb_steps (b1, add_mset j H) (b', H')"
  shows "i \<notin># H' \<and> (\<forall>t. \<not> admitted t (Balancer_Upstreams b' ! i))"
proof -
  have "starved i (b1, add_mset j H)"
    using lb.next_Inr [OF assms(1)] assms(2-8) after_admit_probe
    by (auto simp: starved_def slot_simps)
  with assms(9) have "starved i (b', H')"
    by (induction rule: rtranclp_induct2) (simp_all add: lb_step_starved)
  then show ?thesis by (simp add: starved_def probes_taken_not_admitted)
qed

lemma unpicked_probe_starves_instance:
  "\<exists>b1. Balancer_Next 2000000000
       (LB_RoundRobin (NewRoundRobin [OpenCircuit 0 1000000000 (sample_upstream ''a''),
          sample_upstream ''b''])) = (Inr 1, b1) \<and>
     (\<forall>b' H' t. lb_steps (b1, {#1#}) (b', H') \<longrightarrow> \<not> admitted t (Balancer_Upstreams b' ! 0))"
proof -
  let ?b = "LB_RoundRobin (NewRoundRobin [OpenCircuit 0 1000000000 (sample_upstream ''a''),
          sample_upstream ''b''])"
  have ups: "Balancer_Upstreams ?b ! 0 = OpenCircuit 0 1000000000 (sample_upstream ''a'')"
    by (simp add: NewRoundRobin_def RoundRobin_Upstreams_def)
  obtain b1 where nxt: "Balancer_Next 2000000000 ?b = (Inr 1, b1)"
    by (simp add: NewRoundRobin_def RoundRobin_Next_def admit_def sample_upstream_def breaker_defs
        unix_seconds_def)
  have adm: "admitted 2000000000 (Balancer_Upstreams ?b ! 0)"
    "State (Balancer_Upstreams ?b ! 0) \<noteq> CircuitClosed" "maxProbes (Balancer_Upstreams ?b ! 0) = 1"
    "0 \<le> halfOpenInFlight (Balancer_Upstreams ?b ! 0)"
    unfolding ups
    by (simp_all add: admitted_iff sample_upstream_def OpenCircuit_def State_def maxProbes_def
        unix_seconds_def)
  have "0 < length (Balancer_Upstreams ?b)"
    by (simp add: NewRoundRobin_def RoundRobin_Upstreams_def)
  then show ?thesis
    using nxt unpicked_probe_starves [OF nxt _ _ _ adm, of "{#}"] by auto
qed

text \<open>
  C39. \<open>Release\<close> undoes a failed probe. When a probe of a half-open circuit fails and the failure
  does not reach the threshold, \<open>MarkFailure\<close> followed by \<open>Release\<close> (the order in which the
  proxy engine calls them) closes the circuit, marks the upstream healthy, forgets the failure
  and gives the probe slot back twice.
\<close>

theorem failed_probe_closes_circuit:
  assumes "i < length (Balancer_Upstreams b)" and "u = Balancer_Upstreams b ! i"
    and "State u = CircuitHalfOpen" and "FailureCount u + 1 < effThreshold u"
  shows "let v = Balancer_Upstreams (Balancer_Release i (Balancer_MarkFailure now i b)) ! i in
           State v = CircuitClosed \<and> Healthy v \<and> FailureCount v = 0 \<and>
           halfOpenInFlight v = halfOpenInFlight u - 2"
proof -
  have "Balancer_Upstreams (Balancer_Release i (Balancer_MarkFailure now i b)) ! i
      = release_target (RecordFailure now u)"
    using assms(1,2) by (simp add: lb.upstreams_release lb.upstreams_mark_failure slot_simps)
  then show ?thesis
    using assms(3,4)
    by (simp add: release_target_def RecordFailure_def RecordSuccess_def add_conns_def State_def Let_def)
qed

theorem failed_probe_closes_circuit_witness:
  "State (Balancer_Upstreams (Balancer_Release 0 (Balancer_MarkFailure 0 0
     (LB_RoundRobin (NewRoundRobin
        [(sample_upstream ''a'')\<lparr>circuitState := CircuitHalfOpen, halfOpenInFlight := 1\<rparr>])))) ! 0)
   = CircuitClosed"
proof -
  let ?u = "(sample_upstream ''a'')\<lparr>circuitState := CircuitHalfOpen, halfOpenInFlight := 1\<rparr>"
  let ?b = "LB_RoundRobin (NewRoundRobin [?u])"
  have "0 < length (Balancer_Upstreams ?b)" "?u = Balancer_Upstreams ?b ! 0"
    "State ?u = CircuitHalfOpen" "FailureCount ?u + 1 < effThreshold ?u"
    by (simp_all add: NewRoundRobin_def RoundRobin_Upstreams_def sample_upstream_def State_def
        effThreshold_def)
  from failed_probe_closes_circuit [OF this, of 0] show ?thesis by (simp add: Let_def)
qed

definition as_weighted :: "RoundRobin \<Rightarrow> WeightedRoundRobin" where
  "as_weighted r = \<lparr>wrr_targets = rr_targets r, wrr_counter = rr_counter r\<rparr>"

lemma repeat_of_unit: "Weight t \<le> 1 \<Longrightarrow> repeat_of t = 1"
  by (simp add: repeat_of_def)

lemma wrr_scan_unit:
  "list_all (\<lambda>t. Weight t \<le> 1) ts \<Longrightarrow> wrr_scan now i ts = rr_scan now i ts"
  by (induction ts arbitrary: i) (auto simp: admit_split repeat_of_unit split: prod.splits)

lemma Next_as_weighted:
  assumes "list_all (\<lambda>t. Weight t \<le> 1) (rr_targets r)"
  shows "WeightedRoundRobin_Next now (as_weighted r) = map_prod id as_weighted (RoundRobin_Next now r)"
  using assms
  by (simp add: WeightedRoundRobin_Next_def RoundRobin_Next_def as_weighted_def wrr_scan_unit
      rr_scan_eq Let_def)

lemma Next_weights:
  assumes "RoundRobin_Next now r = (x, r')"
  shows "map Weight (rr_targets r') = map Weight (rr_targets r)"
  using assms
  by (auto simp: RoundRobin_Next_def rr_scan_eq Let_def frame_simps comp_def
      map_at_slot_id [where h = Weight] add_conns_def split: if_splits)

text \<open>
  Weighted round robin generalises round robin: on a pool in which no weight exceeds 1 the
  two balancers, started with the same counter, return the same results,
  call after call.
\<close>

lemma weighted_generalises_round_robin:
  assumes "list_all (\<lambda>t. Weight t \<le> 1) (rr_targets r)"
  shows "next_seq WeightedRoundRobin_Next (as_weighted r) ts = next_seq RoundRobin_Next r ts"
  using assms
proof (induction ts arbitrary: r)
  case (Cons t ts)
  obtain x r' where nxt: "RoundRobin_Next t r = (x, r')" by (cases "RoundRobin_Next t r")
  have "list_all (\<lambda>w. w \<le> 1) (map Weight (rr_targets r'))"
    using Cons.prems by (simp add: Next_weights [OF nxt] list.pred_map comp_def)
  then have "next_seq WeightedRoundRobin_Next (as_weighted r') ts = next_seq RoundRobin_Next r' ts"
    by (intro Cons.IH) (simp add: list.pred_map comp_def)
  then show ?case using Next_as_weighted [OF Cons.prems] nxt by simp
qed simp

lemma weighted_generalises_round_robin_instance:
  "next_seq WeightedRoundRobin_Next (as_weighted (NewRoundRobin [sample_upstream ''a''])) [0, 1]
   = next_seq RoundRobin_Next (NewRoundRobin [sample_upstream ''a'']) [0, 1]"
  by (rule weighted_generalises_round_robin) (simp add: NewRoundRobin_def sample_upstream_def)

end
