(* ===== verification/Engine.thy ===== *)
theory Engine
  imports Tunnel Retry Metrics Balancer_Props
begin

text \<open>
  The proxy engine of a route (\<^verbatim>\<open>src/internal/proxy/engine.go\<close>): pick an upstream, tunnel a
  WebSocket upgrade or forward the request, retry what may be retried, keep the balancer and
  the metrics informed.

  The engine's environment is a record of functions: the clock at each call of \<open>Next\<close> and of
  \<open>MarkFailure\<close>, the outcome of the transport's \<open>RoundTrip\<close> per attempt as a function of the
  request it is given, and the network of a tunnel. A handler runs as one step here;
  \<open>Engine_Steps\<close> breaks it into the actions that handlers which overlap can see. Sleeping between attempts has no effect on the state.
\<close>

section \<open>The engine\<close>

record Engine =
  eng_routeName :: string
  eng_lb :: Balancer
  eng_metrics :: Registry
  eng_maxRetries :: int
  eng_maxBodyBytes :: int
  eng_timeout :: int

record env =
  env_next :: "nat \<Rightarrow> time"
  env_fail :: "nat \<Rightarrow> time"
  env_rt :: "nat \<Rightarrow> Request \<Rightarrow> go_error + Response"
  env_ws :: ws_io

definition NewEngine :: "string \<Rightarrow> Balancer \<Rightarrow> Registry \<Rightarrow> int \<Rightarrow> int \<Rightarrow> int \<Rightarrow> Engine" where
  "NewEngine routeName balancer metricsRegistry maxRetries maxBodyBytes timeout =
     \<lparr>eng_routeName = routeName, eng_lb = balancer, eng_metrics = metricsRegistry,
      eng_maxRetries = maxRetries, eng_maxBodyBytes = maxBodyBytes, eng_timeout = timeout\<rparr>"

definition isMaxBytesError :: "go_error \<Rightarrow> bool" where
  "isMaxBytesError err = is_MaxBytesError err"

text \<open>The request \<open>forward\<close> sends: the timeout of the route is put on its context.\<close>

definition forward_request :: "Engine \<Rightarrow> Request \<Rightarrow> Upstream \<Rightarrow> Request" where
  "forward_request e r target =
     (let ctx = (if eng_timeout e > 0 then WithTimeout (ReqCtx r) (eng_timeout e) else ReqCtx r)
      in prepareOutboundRequest (rewriteRequest (cloneRequest ctx r) target))"

definition forward :: "env \<Rightarrow> nat \<Rightarrow> Engine \<Rightarrow> Request \<Rightarrow> Upstream \<Rightarrow> go_error + Response" where
  "forward env attempt e r target = env_rt env attempt (forward_request e r target)"

definition updateActiveMetrics :: "Engine \<Rightarrow> Engine" where
  "updateActiveMetrics e =
     e\<lparr>eng_metrics :=
         fold (\<lambda>up. set_Active [eng_routeName e, UpstreamLabel up] (ActiveConns up))
           (Balancer_Upstreams (eng_lb e)) (eng_metrics e)\<rparr>"

abbreviation upd_metrics :: "(Registry \<Rightarrow> Registry) \<Rightarrow> Engine \<Rightarrow> Engine" where
  "upd_metrics f e \<equiv> e\<lparr>eng_metrics := f (eng_metrics e)\<rparr>"

abbreviation upd_lb :: "(Balancer \<Rightarrow> Balancer) \<Rightarrow> Engine \<Rightarrow> Engine" where
  "upd_lb f e \<equiv> e\<lparr>eng_lb := f (eng_lb e)\<rparr>"

definition eng_target :: "Engine \<Rightarrow> nat \<Rightarrow> Upstream" where
  "eng_target e i = Balancer_Upstreams (eng_lb e) ! i"

text \<open>What the three failure branches share: the two counters, then \<open>MarkFailure\<close>.\<close>

definition count_failure :: "time \<Rightarrow> nat \<Rightarrow> Engine \<Rightarrow> Engine" where
  "count_failure now i e =
     (let t = eng_target e i;
          labels = [eng_routeName e, UpstreamLabel t];
          e1 = upd_metrics (inc_Failures labels) e;
          e2 = (if FailureCount t = CBFailureThreshold t - 1
                then upd_metrics (inc_Circuits labels) e1 else e1)
      in upd_lb (Balancer_MarkFailure now i) e2)"

definition release :: "nat \<Rightarrow> Engine \<Rightarrow> Engine" where
  "release i e = updateActiveMetrics (upd_lb (Balancer_Release i) e)"

text \<open>The \<open>Requests\<close> counter and the \<open>Duration\<close> histogram at the end of a request.\<close>

definition count_request :: "Request \<Rightarrow> string \<Rightarrow> string \<Rightarrow> Engine \<Rightarrow> Engine" where
  "count_request r status upstream e =
     upd_metrics (\<lambda>m. observe_Duration [eng_routeName e, Method r, upstream]
                        (inc_Requests [eng_routeName e, Method r, status, upstream] m)) e"

lemma engine_config [frame_simps]:
  "eng_maxRetries (updateActiveMetrics e) = eng_maxRetries e"
  "eng_maxRetries (count_failure now i e) = eng_maxRetries e"
  "eng_maxRetries (release i e) = eng_maxRetries e"
  "eng_maxRetries (count_request r st u e) = eng_maxRetries e"
  "eng_timeout (updateActiveMetrics e) = eng_timeout e"
  "eng_timeout (count_failure now i e) = eng_timeout e"
  "eng_timeout (release i e) = eng_timeout e"
  "eng_timeout (count_request r st u e) = eng_timeout e"
  by (simp_all add: updateActiveMetrics_def count_failure_def release_def count_request_def Let_def)

lemma engine_lb [frame_simps]:
  "eng_lb (updateActiveMetrics e) = eng_lb e"
  "eng_lb (count_failure now i e) = Balancer_MarkFailure now i (eng_lb e)"
  "eng_lb (release i e) = Balancer_Release i (eng_lb e)"
  "eng_lb (count_request r st u e) = eng_lb e"
  by (simp_all add: updateActiveMetrics_def count_failure_def release_def count_request_def Let_def)

section \<open>ServeHTTP\<close>

text \<open>How a handler ends.\<close>

datatype outcome = Returned | Panicked

text \<open>Answering with \<open>http.Error\<close>, then going on unless that panicked.\<close>

definition answer ::
  "string \<Rightarrow> int \<Rightarrow> writer \<Rightarrow> Engine \<Rightarrow> (Engine \<Rightarrow> Engine) \<Rightarrow> writer \<times> Engine \<times> outcome" where
  "answer msg code w e k =
     (let (w', p) = http_Error msg code w in if p then (w', e, Panicked) else (w', k e, Returned))"

definition bad_gateway_end :: "Request \<Rightarrow> writer \<Rightarrow> Engine \<Rightarrow> writer \<times> Engine \<times> outcome" where
  "bad_gateway_end r w e = answer ''bad gateway'' 502 w e (count_request r ''502'' ''none'')"

text \<open>Before another attempt: the \<open>Retries\<close> counter, the sleep, and the next target.\<close>

definition retry_next :: "env \<Rightarrow> nat \<Rightarrow> string \<Rightarrow> Engine \<Rightarrow> (lb_error + nat) \<times> Engine" where
  "retry_next env n upstreamLabel e =
     (let e1 = upd_metrics (inc_Retries [eng_routeName e, upstreamLabel]) e;
          (nx, b) = Balancer_Next (env_next env (Suc n)) (eng_lb e1)
      in (nx, e1\<lparr>eng_lb := b\<rparr>))"

lemma retry_next_frame:
  "retry_next env n l e = (nx, e') \<Longrightarrow>
   eng_maxRetries e' = eng_maxRetries e \<and> eng_timeout e' = eng_timeout e \<and>
   Balancer_Next (env_next env (Suc n)) (eng_lb e) = (nx, eng_lb e')"
  by (auto simp: retry_next_def Let_def split: prod.splits)

definition may_retry :: "Engine \<Rightarrow> nat \<Rightarrow> Request \<Rightarrow> go_error + Response \<Rightarrow> bool" where
  "may_retry e n r out =
     ((case out of Inl err \<Rightarrow> shouldRetry r None (Some err) | Inr resp \<Rightarrow> shouldRetry r (Some resp) None)
      \<and> int n < eng_maxRetries e)"

text \<open>The end of a successful attempt.\<close>

definition relay_response ::
  "Request \<Rightarrow> nat \<Rightarrow> Response \<Rightarrow> Engine \<Rightarrow> writer \<Rightarrow> writer \<times> Engine \<times> outcome" where
  "relay_response r i resp e w =
     (let upstreamLabel = UpstreamLabel (eng_target e i);
          e1 = upd_lb (Balancer_apply i RecordSuccess) e;
          (w1, res) = writeResponse resp w
      in if res = CopyPanic then (w1, e1, Panicked)
         else (w1, count_request r (StatusLabel (StatusCode resp)) upstreamLabel (release i e1),
               Returned))"

text \<open>The loop over the attempts, from attempt \<open>n\<close> on with target \<open>i\<close>.\<close>

function serve_loop ::
  "env \<Rightarrow> Request \<Rightarrow> nat \<Rightarrow> nat \<Rightarrow> Engine \<Rightarrow> writer \<Rightarrow> writer \<times> Engine \<times> outcome" where
  "serve_loop env r n i e w =
     (if int n > eng_maxRetries e then bad_gateway_end r w e
      else
        let target = eng_target e i;
            upstreamLabel = UpstreamLabel target;
            out = forward env n e r target
        in case out of
             Inl reqErr \<Rightarrow>
               (if isMaxBytesError reqErr then
                  answer ''request body too large'' 413 w e (release i)
                else
                  let e1 = release i (count_failure (env_fail env n) i e)
                  in if may_retry e n r out then
                       (case retry_next env n upstreamLabel e1 of
                          (Inl _, e2) \<Rightarrow> bad_gateway_end r w e2
                        | (Inr j, e2) \<Rightarrow> serve_loop env r (Suc n) j e2 w)
                     else answer ''bad gateway'' 502 w e1 (count_request r ''502'' upstreamLabel))
           | Inr resp \<Rightarrow>
               (if may_retry e n r out then
                  let e1 = release i (count_failure (env_fail env n) i e)
                  in (case retry_next env n upstreamLabel e1 of
                        (Inl _, e2) \<Rightarrow> bad_gateway_end r w e2
                      | (Inr j, e2) \<Rightarrow> serve_loop env r (Suc n) j e2 w)
                else relay_response r i resp e w))"
  by pat_completeness auto
termination
  by (relation "measure (\<lambda>(env, r, n, i, e, w). nat (eng_maxRetries e + 1 - int n))")
    (auto simp: frame_simps dest!: retry_next_frame [OF sym])

declare serve_loop.simps [simp del]

definition limit_body :: "Engine \<Rightarrow> Request \<Rightarrow> Request" where
  "limit_body e r = (if eng_maxBodyBytes e > 0 then r\<lparr>BodyLimit := Some (eng_maxBodyBytes e)\<rparr> else r)"

text \<open>The upgrade path.\<close>

definition serve_upgrade :: "env \<Rightarrow> Request \<Rightarrow> nat \<Rightarrow> Engine \<Rightarrow> writer \<Rightarrow> writer \<times> Engine \<times> outcome" where
  "serve_upgrade env r i e w =
     (let (w1, res) = handleWebSocket (env_ws env) r (eng_target e i) w
      in if ws_panic res then (w1, e, Panicked)
         else let e1 = (if ws_err res \<noteq> None then count_failure (env_fail env 0) i e
                        else upd_lb (Balancer_apply i RecordSuccess) e)
              in (w1, release i e1, Returned))"

definition Engine_ServeHTTP :: "env \<Rightarrow> Request \<Rightarrow> Engine \<Rightarrow> writer \<Rightarrow> writer \<times> Engine \<times> outcome" where
  "Engine_ServeHTTP env r0 e0 w =
     (let r = limit_body e0 r0;
          (nx, b) = Balancer_Next (env_next env 0) (eng_lb e0);
          e = e0\<lparr>eng_lb := b\<rparr>
      in case nx of
           Inl _ \<Rightarrow> answer ''no healthy upstreams'' 503 w e (count_request r ''503'' ''none'')
         | Inr i \<Rightarrow>
             if isWebSocketUpgrade r then serve_upgrade env r i e w
             else serve_loop env r 0 i e w)"

end
