(* ===== verification/Engine_Props.thy ===== *)
theory Engine_Props
  imports Engine
begin

text \<open>
  What the proxy engine guarantees. \<open>serve_loop_rule\<close> is the induction every proof about the
  attempts goes through: one case per way an attempt can end.
\<close>

section \<open>The loop\<close>

abbreviation failed_engine :: "env \<Rightarrow> nat \<Rightarrow> nat \<Rightarrow> Engine \<Rightarrow> Engine" where
  "failed_engine env n i e \<equiv> release i (count_failure (env_fail env n) i e)"

lemma serve_loop_rule [case_names exhausted too_large no_target retry failed relayed]:
  assumes exhausted: "\<And>n i e. int n > eng_maxRetries e \<Longrightarrow>
      serve_loop env r n i e w = bad_gateway_end r w e \<Longrightarrow> P n i e"
    and too_large: "\<And>n i e err. int n \<le> eng_maxRetries e \<Longrightarrow>
      forward env n e r (eng_target e i) = Inl err \<Longrightarrow> isMaxBytesError err \<Longrightarrow>
      serve_loop env r n i e w = answer ''request body too large'' 413 w e (release i) \<Longrightarrow> P n i e"
    and no_target: "\<And>n i e x e2. int n \<le> eng_maxRetries e \<Longrightarrow>
      may_retry e n r (forward env n e r (eng_target e i)) \<Longrightarrow>
      retry_next env n (UpstreamLabel (eng_target e i)) (failed_engine env n i e) = (Inl x, e2) \<Longrightarrow>
      serve_loop env r n i e w = bad_gateway_end r w e2 \<Longrightarrow>
      \<not> (\<exists>err. forward env n e r (eng_target e i) = Inl err \<and> isMaxBytesError err) \<Longrightarrow> P n i e"
    and retry: "\<And>n i e j e2. int n \<le> eng_maxRetries e \<Longrightarrow>
      may_retry e n r (forward env n e r (eng_target e i)) \<Longrightarrow>
      retry_next env n (UpstreamLabel (eng_target e i)) (failed_engine env n i e) = (Inr j, e2) \<Longrightarrow>
      serve_loop env r n i e w = serve_loop env r (Suc n) j e2 w \<Longrightarrow>
      \<not> (\<exists>err. forward env n e r (eng_target e i) = Inl err \<and> isMaxBytesError err) \<Longrightarrow>
      P (Suc n) j e2 \<Longrightarrow> P n i e"
    and failed: "\<And>n i e err. int n \<le> eng_maxRetries e \<Longrightarrow>
      forward env n e r (eng_target e i) = Inl err \<Longrightarrow> \<not> isMaxBytesError err \<Longrightarrow>
      \<not> may_retry e n r (Inl err) \<Longrightarrow>
      serve_loop env r n i e w =
        answer ''bad gateway'' 502 w (failed_engine env n i e)
          (count_request r ''502'' (UpstreamLabel (eng_target e i))) \<Longrightarrow> P n i e"
    and relayed: "\<And>n i e resp. int n \<le> eng_maxRetries e \<Longrightarrow>
      forward env n e r (eng_target e i) = Inr resp \<Longrightarrow> \<not> may_retry e n r (Inr resp) \<Longrightarrow>
      serve_loop env r n i e w = relay_response r i resp e w \<Longrightarrow> P n i e"
  shows "P n i e"
proof (induction "nat (eng_maxRetries e + 1 - int n)" arbitrary: n i e rule: less_induct)
  case less
  note unfold = serve_loop.simps [of env r n i e w]
  show ?case
  proof (cases "int n > eng_maxRetries e")
    case True
    then show ?thesis using exhausted unfold by simp
  next
    case False
    then have le: "int n \<le> eng_maxRetries e" by simp
    let ?out = "forward env n e r (eng_target e i)"
    let ?next = "retry_next env n (UpstreamLabel (eng_target e i)) (failed_engine env n i e)"
    have again: "P n i e" if may: "may_retry e n r ?out"
      and fits: "\<not> (\<exists>err. ?out = Inl err \<and> isMaxBytesError err)"
      and eq: "serve_loop env r n i e w = (case ?next of (Inl _, e2) \<Rightarrow> bad_gateway_end r w e2
        | (Inr j, e2) \<Rightarrow> serve_loop env r (Suc n) j e2 w)"
    proof (cases ?next)
      case (Pair nx e2)
      then have "eng_maxRetries e2 = eng_maxRetries e"
        using retry_next_frame by (auto simp: frame_simps)
      then have "P (Suc n) j e2" for j
        using less [of e2 "Suc n" j] le by simp
      then show ?thesis
        using Pair eq fits no_target [OF le may] retry [OF le may] by (cases nx) auto
    qed
    show ?thesis
    proof (cases ?out)
      case (Inl err)
      then show ?thesis
        using False unfold again too_large [OF le] failed [OF le] by (auto simp: Let_def split: if_splits)
    next
      case (Inr resp)
      then show ?thesis
        using False unfold again relayed [OF le] by (auto simp: Let_def split: if_splits)
    qed
  qed
qed

section \<open>What a request does to the balancer\<close>

text \<open>The two ways of giving a target back, as steps of the protocol of \<open>Balancer_Props\<close>.\<close>

lemma lb_step_failed:
  "lb_steps (eng_lb e, add_mset i H) (eng_lb (failed_engine env n i e), H)"
proof -
  have "lb_step (eng_lb e, add_mset i H) (eng_lb (count_failure (env_fail env n) i e), add_mset i H)"
    unfolding engine_lb by (rule lb_step.mark_failure) simp
  moreover have "lb_step (b, add_mset i H) (Balancer_Release i b, H)" for b
    using lb_step.release [of i "add_mset i H" b] by simp
  ultimately show ?thesis
    unfolding engine_lb by (meson converse_rtranclp_into_rtranclp r_into_rtranclp)
qed

lemma lb_step_succeeded:
  "lb_steps (b, add_mset i H) (Balancer_Release i (Balancer_apply i RecordSuccess b), H)"
proof -
  have "lb_step (b, add_mset i H) (Balancer_apply i RecordSuccess b, add_mset i H)"
    by (rule lb_step.record_success) simp
  moreover have "lb_step (c, add_mset i H) (Balancer_Release i c, H)" for c
    using lb_step.release [of i "add_mset i H" c] by simp
  ultimately show ?thesis by (meson converse_rtranclp_into_rtranclp r_into_rtranclp)
qed

lemma lb_step_released: "lb_steps (b, add_mset i H) (Balancer_Release i b, H)"
  using lb_step.release [of i "add_mset i H" b] by auto

lemma lb_step_next_target:
  "retry_next env n l e = (Inr j, e2) \<Longrightarrow> lb_step (eng_lb e, H) (eng_lb e2, add_mset j H)"
  "retry_next env n l e = (Inl x, e2) \<Longrightarrow> lb_step (eng_lb e, H) (eng_lb e2, H)"
  by (auto dest!: retry_next_frame intro: lb_step.acquire lb_step.reject)

text \<open>Along the protocol, connections minus targets held is constant for every upstream.\<close>

definition unheld :: "Balancer \<times> nat multiset \<Rightarrow> int list" where
  "unheld s = (case s of (b, H) \<Rightarrow>
     map (\<lambda>k. lb_conns b ! k - int (count H k)) [0..<length (lb_conns b)])"

lemma lb_step_unheld: "lb_step s t \<Longrightarrow> unheld t = unheld s"
proof (induction rule: lb_step.induct)
  case (acquire now b i b' H)
  then show ?case unfolding unheld_def by (auto simp: lb_conns_simps(1) slot_simps)
next
  case (reject now b e b' H)
  then show ?case by (simp add: unheld_def lb_conns_simps(2))
next
  case (release i H b)
  then show ?case unfolding unheld_def
    by (auto simp: lb_conns_simps(3) slot_simps of_nat_diff Suc_le_eq)
qed (simp_all add: unheld_def lb_conns_simps lb_conns_apply frame_simps)

lemma lb_steps_unheld: "lb_steps s t \<Longrightarrow> unheld t = unheld s"
  by (induction rule: rtranclp_induct) (simp_all add: lb_step_unheld)

lemma unheld_empty: "unheld (b, {#}) = lb_conns b"
  by (simp add: unheld_def map_nth)

lemma answer_Returned:
  "answer msg code w e k = (w', e', Returned) \<longleftrightarrow>
   http_Error msg code w = (w', False) \<and> e' = k e"
  "(w', e', Returned) = answer msg code w e k \<longleftrightarrow>
   http_Error msg code w = (w', False) \<and> e' = k e"
  by (auto simp: answer_def split: prod.splits)

lemma relay_Returned:
  "relay_response r i resp e w = (w', e', Returned) \<Longrightarrow>
   w' = fst (writeResponse resp w) \<and>
   eng_lb e' = Balancer_Release i (Balancer_apply i RecordSuccess (eng_lb e))"
  by (auto simp: relay_response_def frame_simps Let_def split: prod.splits if_splits)

lemma serve_loop_protocol:
  "serve_loop env r n i e w = (w', e', Returned) \<Longrightarrow> int n \<le> eng_maxRetries e \<Longrightarrow>
   lb_steps (eng_lb e, add_mset i H) (eng_lb e', H)"
proof (induction n i e rule: serve_loop_rule [where env = env and r = r and w = w])
  case (too_large n i e err)
  then show ?case by (auto simp: answer_Returned frame_simps intro: lb_step_released)
next
  case (no_target n i e x e2)
  then have "eng_lb e' = eng_lb e2"
    by (auto simp: bad_gateway_end_def answer_Returned frame_simps)
  then show ?case
    using lb_step_failed [of e i H env n] lb_step_next_target(2) [OF no_target(3), of H]
    by (simp add: rtranclp.rtrancl_into_rtrancl)
next
  case (retry n i e j e2)
  have "int (Suc n) \<le> eng_maxRetries e2"
    using retry(2) retry_next_frame [OF retry(3)] by (simp add: frame_simps may_retry_def)
  then have "lb_steps (eng_lb e2, add_mset j H) (eng_lb e', H)"
    using retry by simp
  then show ?case
    using lb_step_failed [of e i H env n] lb_step_next_target(1) [OF retry(3), of H]
    by (meson converse_rtranclp_into_rtranclp rtranclp_trans)
next
  case (failed n i e err)
  then show ?case using lb_step_failed [of e i H env n] by (auto simp: answer_Returned frame_simps)
next
  case (relayed n i e resp)
  then show ?case by (auto dest!: relay_Returned [OF sym] intro: lb_step_succeeded)
qed simp

lemma serve_upgrade_protocol:
  "serve_upgrade env r i e w = (w', e', Returned) \<Longrightarrow>
   lb_steps (eng_lb e, add_mset i H) (eng_lb e', H)"
  using lb_step_failed [of e i H env 0] lb_step_succeeded [of "eng_lb e" i H]
  by (auto simp: serve_upgrade_def frame_simps Let_def split: prod.splits if_splits)

lemma engine_lb_steps:
  assumes "Engine_ServeHTTP env r e w = (w', e', Returned)" and "0 \<le> eng_maxRetries e"
  shows "lb_steps (eng_lb e, H) (eng_lb e', H)"
proof (cases "Balancer_Next (env_next env 0) (eng_lb e)")
  case (Pair nx b)
  show ?thesis
  proof (cases nx)
    case (Inl x)
    then have "lb_step (eng_lb e, H) (b, H)" using Pair by (auto intro: lb_step.reject)
    moreover have "eng_lb e' = b"
      using assms(1) Pair Inl
      by (auto simp: Engine_ServeHTTP_def answer_Returned frame_simps Let_def)
    ultimately show ?thesis by auto
  next
    case (Inr i)
    let ?e = "e\<lparr>eng_lb := b\<rparr>"
    have "lb_step (eng_lb e, H) (eng_lb ?e, add_mset i H)"
      using Pair Inr by (auto intro: lb_step.acquire)
    moreover have "lb_steps (eng_lb ?e, add_mset i H) (eng_lb e', H)"
      using assms Pair Inr
        serve_loop_protocol [of env "limit_body e r" 0 i ?e w w' e']
        serve_upgrade_protocol [of env "limit_body e r" i ?e w w' e']
      by (auto simp: Engine_ServeHTTP_def Let_def split: if_splits)
    ultimately show ?thesis by (rule converse_rtranclp_into_rtranclp)
  qed
qed


section \<open>Examples\<close>

text \<open>
  A pool of two upstreams, a server writer with every optional interface, and an environment in
  which attempt \<open>k\<close> ends in the \<open>k\<close>-th of the given outcomes.
\<close>

definition sample_engine :: "int \<Rightarrow> Engine" where
  "sample_engine maxRetries =
     NewEngine ''api'' (LB_RoundRobin (NewRoundRobin [sample_upstream ''a'', sample_upstream ''b'']))
       NewRegistry maxRetries 0 0"

definition sample_base :: base_writer where
  "sample_base = \<lparr>bw_header = [], bw_sent = None, bw_body = [], bw_flushes = 0, bw_broken = False,
                  bw_flusher = True, bw_hijacker = True, bw_readfrom = True, bw_timeout = False\<rparr>"

definition sample_writer :: "layer list \<Rightarrow> writer" where
  "sample_writer ls = \<lparr>w_layers = ls, w_base = sample_base\<rparr>"

definition sample_response :: "int \<Rightarrow> Response" where
  "sample_response code =
     \<lparr>StatusCode = code, RespHeader = [(''Content-Type'', [''text/html''])], RespBody = [''ok''],
      RespBodyErr = False, Trailer = []\<rparr>"

definition conn_reset :: go_error where
  "conn_reset = \<lparr>is_MaxBytesError = False, is_net_Error = True, is_ECONNRESET = True, is_EPIPE = False\<rparr>"

definition sample_ws :: ws_io where
  "sample_ws = \<lparr>io_dial = (\<lambda>_. True), io_write = (\<lambda>_. True), io_response = Some (sample_response 101),
                io_reply = True, io_relay = (ClientSide, False)\<rparr>"

definition sample_env :: "(go_error + Response) list \<Rightarrow> env" where
  "sample_env outs =
     \<lparr>env_next = (\<lambda>_. 0), env_fail = (\<lambda>_. 0),
      env_rt = (\<lambda>k _. if k < length outs then outs ! k else Inl conn_reset), env_ws = sample_ws\<rparr>"

definition run_writer :: "writer \<times> Engine \<times> outcome \<Rightarrow> writer" where
  "run_writer res = fst res"

definition run_engine :: "writer \<times> Engine \<times> outcome \<Rightarrow> Engine" where
  "run_engine res = fst (snd res)"

definition run_outcome :: "writer \<times> Engine \<times> outcome \<Rightarrow> outcome" where
  "run_outcome res = snd (snd res)"

lemma run_parts: "run_outcome res = out \<Longrightarrow> res = (run_writer res, run_engine res, out)"
  by (cases res) (auto simp: run_outcome_def run_writer_def run_engine_def)

lemma run_simps [simp]:
  "run_writer (w, e, out) = w" "run_engine (w, e, out) = e" "run_outcome (w, e, out) = out"
  by (simp_all add: run_outcome_def run_writer_def run_engine_def)

text \<open>One reset connection, then an answer.\<close>

definition sample_run :: "string \<Rightarrow> int \<Rightarrow> writer \<times> Engine \<times> outcome" where
  "sample_run method maxRetries =
     Engine_ServeHTTP (sample_env [Inl conn_reset, Inr (sample_response 200)])
       (sample_request method []) (sample_engine maxRetries) (sample_writer [])"

lemma sample_run_returned: "run_outcome (sample_run ''GET'' 2) = Returned"
  by code_simp

section \<open>Properties\<close>

text \<open>
  The engine keeps the balancer's protocol: whatever the upstreams and the network do, a
  request that returns has made a sequence of balancer calls in which it releases exactly the
  targets it acquired and marks only targets it holds, and it ends holding nothing.
\<close>

lemma engine_keeps_protocol:
  assumes "Engine_ServeHTTP env r e w = (w', e', Returned)" and "0 \<le> eng_maxRetries e"
  shows "lb_steps (eng_lb e, H) (eng_lb e', H)"
  using assms by (rule engine_lb_steps)

lemma engine_keeps_protocol_instance:
  "lb_steps (eng_lb (sample_engine 2), {#}) (eng_lb (run_engine (sample_run ''GET'' 2)), {#})"
  using engine_keeps_protocol [OF run_parts [OF sample_run_returned, unfolded sample_run_def], of "{#}"]
  unfolding sample_run_def by (simp add: sample_engine_def NewEngine_def)

text \<open>
  No connection leaks. When a request returns, every upstream has as many active connections
  as before it, whatever the number of attempts, the outcome of each of them, the path taken
  and the state of the circuits.
\<close>

lemma no_connection_leak:
  assumes "Engine_ServeHTTP env r e w = (w', e', Returned)" and "0 \<le> eng_maxRetries e"
  shows "lb_conns (eng_lb e') = lb_conns (eng_lb e)"
  using lb_steps_unheld [OF engine_lb_steps [OF assms, of "{#}"]] by (simp add: unheld_empty)

lemma no_connection_leak_instance:
  "lb_conns (eng_lb (run_engine (sample_run ''GET'' 2))) = lb_conns (eng_lb (sample_engine 2))"
  using no_connection_leak [OF run_parts [OF sample_run_returned, unfolded sample_run_def]]
  unfolding sample_run_def by (simp add: sample_engine_def NewEngine_def)

lemma bad_gateway_lb:
  "bad_gateway_end r w e = (w', e', out) \<Longrightarrow> eng_lb e' = eng_lb e"
  by (auto simp: bad_gateway_end_def answer_def frame_simps split: prod.splits if_splits)

text \<open>
  A negative retry limit loses connections: the loop body never runs, so a request that got a
  target is answered with 502 without being sent, and the target is never released.
\<close>

lemma negative_retries_leak:
  assumes "Balancer_Next (env_next env 0) (eng_lb e) = (Inr i, b)" and "eng_maxRetries e < 0"
    and "\<not> isWebSocketUpgrade (limit_body e r)"
    and "Engine_ServeHTTP env r e w = (w', e', out)"
  shows "w' = fst (http_Error ''bad gateway'' 502 w) \<and>
         lb_conns (eng_lb e') = at_slot i (\<lambda>c. c + 1) (lb_conns (eng_lb e))"
proof -
  have run: "bad_gateway_end (limit_body e r) w (e\<lparr>eng_lb := b\<rparr>) = (w', e', out)"
    using assms by (simp add: Engine_ServeHTTP_def serve_loop.simps)
  then have "w' = fst (http_Error ''bad gateway'' 502 w)"
    by (auto simp: bad_gateway_end_def answer_def split: prod.splits if_splits)
  then show ?thesis
    using bad_gateway_lb [OF run] lb_conns_simps(1) [OF assms(1)] by simp
qed

lemma negative_retries_leak_instance:
  "lb_conns (eng_lb (run_engine (sample_run ''GET'' (- 1)))) = [0, 1]"
proof -
  let ?env = "sample_env [Inl conn_reset, Inr (sample_response 200)]"
    and ?r = "sample_request ''GET'' []" and ?e = "sample_engine (- 1)"
  let ?nx = "Balancer_Next (env_next ?env 0) (eng_lb ?e)"
  have "fst ?nx = Inr 1" by code_simp
  then have nxt: "?nx = (Inr 1, snd ?nx)" by (cases ?nx) simp
  have cond: "eng_maxRetries ?e < 0" "\<not> isWebSocketUpgrade (limit_body ?e ?r)" by code_simp+
  have "lb_conns (eng_lb ?e) = [0, 0]" by code_simp
  then show ?thesis
    using negative_retries_leak [OF nxt cond run_parts [OF refl]] by (simp add: sample_run_def)
qed

text \<open>The last attempt a request may reach.\<close>

definition last_attempt :: "Engine \<Rightarrow> Request \<Rightarrow> nat" where
  "last_attempt e r = (if isReplaySafeMethod (Method r) then nat (eng_maxRetries e) else 0)"

lemma may_retry_bound:
  assumes "may_retry e n r out"
  shows "isReplaySafeMethod (Method r) \<and> Suc n \<le> nat (eng_maxRetries e)"
  using assms by (auto simp: may_retry_def shouldRetry_def split: sum.splits if_splits)

lemma serve_loop_cong:
  assumes "env_next env' = env_next env" and "env_fail env' = env_fail env"
    and "\<And>k. k \<le> m \<Longrightarrow> env_rt env' k = env_rt env k"
  shows "n \<le> m \<Longrightarrow> (isReplaySafeMethod (Method r) \<Longrightarrow> eng_maxRetries e \<le> int m) \<Longrightarrow>
         serve_loop env' r n i e w = serve_loop env r n i e w"
proof -
  have same: "\<And>k x t. k \<le> m \<Longrightarrow> forward env' k x r t = forward env k x r t"
    "\<And>k l x. retry_next env' k l x = retry_next env k l x"
    using assms by (simp_all add: forward_def retry_next_def)
  show "serve_loop env' r n i e w = serve_loop env r n i e w"
    if "n \<le> m" "isReplaySafeMethod (Method r) \<Longrightarrow> eng_maxRetries e \<le> int m"
    using that
proof (induction n i e rule: serve_loop_rule [where env = env and r = r and w = w])
  case (retry n i e j e2)
  have "eng_maxRetries e2 = eng_maxRetries e"
    using retry_next_frame [OF retry(3)] by (simp add: frame_simps)
  then have "serve_loop env' r (Suc n) j e2 w = serve_loop env r (Suc n) j e2 w"
    using retry(6,8) may_retry_bound [OF retry(2)] by auto
  then show ?case
    using same(1) [OF retry(7)] same(2) retry(3) assms(2)
    by (simp add: serve_loop.simps [of _ r n i e w] Let_def split: sum.split)
next
  case (no_target n i e x e2)
  show ?case
    using same(1) [OF no_target(6)] same(2) no_target(1-3) assms(2)
    by (simp add: serve_loop.simps [of _ r n i e w] Let_def split: sum.split)
qed (simp_all add: serve_loop.simps [of env'] same assms(2) Let_def)
qed

text \<open>
  C11. The number of attempts is bounded by the retry limit, and a request whose method is not
  safe to replay is sent once: the outcome does not depend on what the transport would answer
  beyond that.
\<close>

theorem bounded_attempts:
  assumes "env_next env' = env_next env" and "env_fail env' = env_fail env"
    and "env_ws env' = env_ws env"
    and "\<forall>k \<le> last_attempt e r. env_rt env' k = env_rt env k"
  shows "Engine_ServeHTTP env' r e w = Engine_ServeHTTP env r e w"
proof -
  have "Method (limit_body e r) = Method r" by (simp add: limit_body_def)
  then have "serve_loop env' (limit_body e r) 0 i (e\<lparr>eng_lb := b\<rparr>) w
      = serve_loop env (limit_body e r) 0 i (e\<lparr>eng_lb := b\<rparr>) w" for i b
    using assms by (intro serve_loop_cong [where m = "last_attempt e r"]) (auto simp: last_attempt_def)
  moreover have "serve_upgrade env' x i y w = serve_upgrade env x i y w" for x i y
    unfolding serve_upgrade_def assms(2,3) by (rule refl)
  ultimately show ?thesis unfolding Engine_ServeHTTP_def assms(1) Let_def by (auto split: prod.split sum.split)
qed

theorem bounded_attempts_witness:
  "Engine_ServeHTTP (sample_env [Inl conn_reset, Inr (sample_response 200)])
     (sample_request ''POST'' []) (sample_engine 2) (sample_writer []) =
   Engine_ServeHTTP (sample_env [Inl conn_reset, Inr (sample_response 503)])
     (sample_request ''POST'' []) (sample_engine 2) (sample_writer [])"
  by (rule bounded_attempts)
    (simp_all add: sample_env_def last_attempt_def sample_request_def isReplaySafeMethod_def)

section \<open>What the client gets\<close>

lemma answer_writer [frame_simps]: "fst (answer msg code w e k) = fst (http_Error msg code w)"
  by (simp add: answer_def case_prod_beta)

lemma bad_gateway_writer [frame_simps]:
  "fst (bad_gateway_end r w e) = fst (http_Error ''bad gateway'' 502 w)"
  by (simp add: bad_gateway_end_def frame_simps)

lemma relay_writer [frame_simps]:
  "fst (relay_response r i resp e w) = fst (writeResponse resp w)"
  by (simp add: relay_response_def case_prod_beta Let_def)

end
