(* ===== verification/Middleware.thy ===== *)
theory Middleware
  imports Engine_Props
begin

text \<open>
  The middlewares of the gateway (\<^verbatim>\<open>src/internal/middleware\<close>): request identifiers, panic
  recovery, timeout, logging, CORS and gzip. A handler maps a request, a writer and a state to
  the writer and the state it leaves and the way it ends; a middleware maps handlers to
  handlers. A middleware that wraps the writer pushes a layer on the writer's chain and pops
  it when the wrapped handler has ended. Identifiers, clock readings and whether a timeout
  fires are arguments.
\<close>

section \<open>Handlers\<close>

type_synonym 's handler = "Request \<Rightarrow> writer \<Rightarrow> 's \<Rightarrow> writer \<times> 's \<times> outcome"

definition push_layer :: "layer \<Rightarrow> writer \<Rightarrow> writer" where
  "push_layer l w = w\<lparr>w_layers := l # w_layers w\<rparr>"

definition pop_layer :: "writer \<Rightarrow> layer option \<times> writer" where
  "pop_layer w = (case w_layers w of [] \<Rightarrow> (None, w) | l # ls \<Rightarrow> (Some l, w\<lparr>w_layers := ls\<rparr>))"

text \<open>\<open>http.Error\<close> as the end of a handler.\<close>

definition reply_error :: "string \<Rightarrow> int \<Rightarrow> writer \<Rightarrow> 's \<Rightarrow> writer \<times> 's \<times> outcome" where
  "reply_error msg code w s =
     (let (w', p) = http_Error msg code w in (w', s, if p then Panicked else Returned))"

section \<open>requestid.go, recovery.go, cors.go\<close>

definition RequestID :: "string \<Rightarrow> 's handler \<Rightarrow> 's handler" where
  "RequestID uuid next r w s =
     (let w1 = w_set_header (Set ''X-Request-ID'' uuid) w;
          r1 = r\<lparr>ReqHeader := Set ''X-Request-ID'' uuid (ReqHeader r)\<rparr>
      in next r1 w1 s)"

definition Recovery :: "'s handler \<Rightarrow> 's handler" where
  "Recovery next r w s =
     (let (w1, s1, out) = next r w s
      in if out = Panicked then reply_error ''internal server error'' 500 w1 s1 else (w1, s1, out))"

definition CORS :: "'s handler \<Rightarrow> 's handler" where
  "CORS next r w s =
     (let w1 = w_set_header (\<lambda>h. Set ''Access-Control-Allow-Methods'' ''GET, POST, PUT, DELETE, OPTIONS''
                 (Set ''Access-Control-Allow-Headers'' ''*''
                   (Set ''Access-Control-Allow-Origin'' ''*'' h))) w
      in if Method r = ''OPTIONS'' then (w_WriteHeader 204 w1, s, Returned) else next r w1 s)"

section \<open>logging.go\<close>

record log_entry =
  log_method :: string
  log_path :: string
  log_status :: int
  log_bytes :: int
  log_request_id :: string
  log_remote_addr :: string

text \<open>
  The log line is written only when the wrapped handler returns: the call is not deferred. The
  handlers inside clone a request before they change its headers, so the line shows the
  identifier this request came with. The latency is left out.
\<close>

definition Logging :: "'s handler \<Rightarrow> (log_entry list \<times> 's) handler" where
  "Logging next r w st =
     (let (log, s) = st;
          (w1, s1, out) = next r (push_layer (Recorder NewResponseRecorder) w) s;
          (l, w2) = pop_layer w1
      in case (out, l) of
           (Returned, Some (Recorder rc)) \<Rightarrow>
             (w2, (log @ [\<lparr>log_method = Method r, log_path = url_Path (ReqURL r),
                           log_status = rec_StatusCode rc, log_bytes = rec_Bytes rc,
                           log_request_id = Get (ReqHeader r) ''X-Request-ID'',
                           log_remote_addr = RemoteAddr r\<rparr>], s1), Returned)
         | _ \<Rightarrow> (w2, (log, s1), out))"

section \<open>timeout.go\<close>

text \<open>
  \<open>http.TimeoutHandler\<close>: the handler writes into a buffer with a header map of its own. When it
  finishes in time, the headers and the buffer are written to the client; when its context ends
  first, the client gets a 503, with the configured text if the deadline passed, and what the
  handler writes later is lost.
\<close>

datatype timeout_event = InTime | DeadlineExceeded | ClientCanceled

definition timeoutWriter :: "bool \<Rightarrow> writer" where
  "timeoutWriter late =
     \<lparr>w_layers = [],
      w_base = \<lparr>bw_header = [], bw_sent = None, bw_body = [], bw_flushes = 0, bw_broken = late,
                bw_flusher = False, bw_hijacker = False, bw_readfrom = False, bw_timeout = True\<rparr>\<rparr>"

definition Timeout :: "timeout_event \<Rightarrow> int \<Rightarrow> 's handler \<Rightarrow> 's handler" where
  "Timeout event duration next r w s =
     (let r1 = r\<lparr>ReqCtx := WithTimeout (ReqCtx r) duration\<rparr>;
          (tw, s1, out) = next r1 (timeoutWriter (event \<noteq> InTime)) s
      in case event of
           InTime \<Rightarrow>
             (if out = Panicked then (w, s1, Panicked)
              else let w1 = w_set_header (fold (\<lambda>(k, vs). AList.update k vs) (w_header tw)) w;
                       code = (case bw_sent (w_base tw) of None \<Rightarrow> 200 | Some (c, _) \<Rightarrow> c);
                       w2 = w_WriteHeader code w1
                   in if w_WriteHeader_panics code w1 then (w2, s1, Panicked)
                      else let (w3, res) = w_Write (bw_body (w_base tw)) w2
                           in (w3, s1, if res = WritePanic then Panicked else Returned))
         | DeadlineExceeded \<Rightarrow>
             (let (w2, res) = w_Write ''request timeout'' (w_WriteHeader 503 w)
              in (w2, s1, if res = WritePanic then Panicked else Returned))
         | ClientCanceled \<Rightarrow> (w_WriteHeader 503 w, s1, Returned))"

section \<open>gzip.go\<close>

definition gzip_token :: "string \<Rightarrow> bool" where
  "gzip_token t =
     (let token = TrimSpace t
      in EqualFold token ''gzip'' \<or> HasPrefix (ToLower token) ''gzip;'')"

definition acceptsGzip :: "Request \<Rightarrow> bool" where
  "acceptsGzip r = list_ex gzip_token (split_on (CHR '','') (Get (ReqHeader r) ''Accept-Encoding''))"

definition newGzipWriter :: "GzipConfig \<Rightarrow> gzip_codec \<Rightarrow> gzipResponseWriter" where
  "newGzipWriter cfg codec =
     \<lparr>gzw_cfg = cfg, gzw_codec = codec, gzw_gz = None, gzw_headed = False, gzw_buf = [], gzw_status = 0,
      gzw_activated = False, gzw_headersSent = False\<rparr>"

text \<open>\<open>make\<close> panics on a negative capacity; \<open>close\<close> is deferred, so it runs after a panic too.\<close>

definition GzipMiddleware :: "GzipConfig \<Rightarrow> gzip_codec \<Rightarrow> 's handler \<Rightarrow> 's handler" where
  "GzipMiddleware cfg codec next r w s =
     (if \<not> acceptsGzip r then next r w s
      else if gz_MinLength cfg < 0 then (w, s, Panicked)
      else
        (let (w1, s1, out) = next r (push_layer (Gzip (newGzipWriter cfg codec)) w) s
         in case pop_layer w1 of
              (Some (Gzip g), w2) \<Rightarrow>
                (let (g', ls, b, res) = gzip_close g (w_layers w2) (w_base w2)
                 in (\<lparr>w_layers = ls, w_base = b\<rparr>, s1, if res = WritePanic then Panicked else out))
            | (_, w2) \<Rightarrow> (w2, s1, out)))"

end
