(* ===== verification/Plain_Writers.thy ===== *)
theory Plain_Writers
  imports Middleware
begin

text \<open>
  Writers without a gzip layer. Only the gzip writer can panic on a write, so on such a writer
  neither an error answer panics nor the relaying of a response whose status code is valid, and
  the engine returns when the upstreams answer with valid codes. With a code below 100, which
  \<^verbatim>\<open>net/http\<close> accepts from an upstream, the engine panics and keeps its target.
\<close>

section \<open>The chain of wrappers\<close>

fun not_gzip :: "layer \<Rightarrow> bool" where
  "not_gzip (Gzip g) = False"
| "not_gzip _ = True"

definition plain :: "writer \<Rightarrow> bool" where
  "plain w \<longleftrightarrow> list_all not_gzip (w_layers w)"

lemma plain_layers_WriteHeader:
  "list_all not_gzip ls \<Longrightarrow> list_all not_gzip (fst (layers_WriteHeader code ls b))"
  by (induction code ls b rule: layers_WriteHeader.induct) (auto simp: Let_def split: prod.splits)

lemma plain_layers_Write:
  "list_all not_gzip ls \<Longrightarrow>
   snd (snd (layers_Write bs ls b)) \<noteq> WritePanic \<and> list_all not_gzip (fst (layers_Write bs ls b))"
proof (induction bs ls b rule: layers_Write.induct)
  case (1 bs b)
  then show ?case by (auto simp: base_Write_def Let_def)
next
  case (3 bs t ls b)
  obtain t1 b1 where "transform_once t b = (t1, b1)" by fastforce
  with 3 show ?case by (simp add: case_prod_beta Let_def)
qed (auto simp: case_prod_beta Let_def)

lemma plain_WriteHeader [simp]: "plain w \<Longrightarrow> plain (w_WriteHeader code w)"
  by (simp add: plain_def w_WriteHeader_def plain_layers_WriteHeader case_prod_beta)

lemma plain_set_header [simp]: "plain (w_set_header f w) \<longleftrightarrow> plain w"
  by (simp add: plain_def w_set_header_def)

lemma plain_Write: "plain w \<Longrightarrow> w_Write bs w = (w', res) \<Longrightarrow> res \<noteq> WritePanic \<and> plain w'"
  using plain_layers_Write [of "w_layers w" bs "w_base w"]
  by (auto simp: plain_def w_Write_def split: prod.splits)

lemma plain_push [simp]: "not_gzip l \<Longrightarrow> plain w \<Longrightarrow> plain (push_layer l w)"
  by (simp add: plain_def push_layer_def)

lemma plain_timeoutWriter [simp]: "plain (timeoutWriter late)"
  by (simp add: plain_def timeoutWriter_def)

lemma invalid_code_numeral [simp]:
  "invalid_code (numeral k) \<longleftrightarrow> numeral k < (100 :: int) \<or> 999 < (numeral k :: int)"
  by (simp add: invalid_code_def)

lemma plain_http_Error: "plain w \<Longrightarrow> \<not> invalid_code code \<Longrightarrow> \<not> snd (http_Error msg code w)"
  by (auto simp: http_Error_def w_WriteHeader_panics_def Let_def split: prod.splits dest!: plain_Write [rotated])

lemma plain_reply_error:
  "plain w \<Longrightarrow> \<not> invalid_code code \<Longrightarrow> reply_error msg code w s = (w', s', out) \<Longrightarrow> out = Returned"
  using plain_http_Error [of w code msg] by (auto simp: reply_error_def split: prod.splits if_splits)

section \<open>Copying\<close>

lemma plain_copy_chunks:
  "list_all not_gzip ls \<Longrightarrow> snd (snd (snd (copy_chunks cs err ls b))) \<noteq> CopyPanic"
proof (induction cs arbitrary: ls b)
  case (Cons c cs)
  obtain ls1 b1 res where w: "layers_Write c ls b = (ls1, b1, res)" using prod_cases3 by blast
  then have "res \<noteq> WritePanic" "list_all not_gzip ls1"
    using plain_layers_Write [OF Cons.prems, of c b] by simp_all
  with w Cons.IH [of ls1 b1] show ?case by (auto simp: Let_def split: prod.splits write_result.splits)
qed simp

lemma plain_io_Copy:
  "list_all not_gzip ls \<Longrightarrow> snd (snd (snd (io_Copy cs err ls b))) \<noteq> CopyPanic"
  by (induction cs err ls b rule: io_Copy.induct)
    (auto simp: plain_copy_chunks Let_def split: prod.splits)

lemma plain_Copy: "plain w \<Longrightarrow> w_Copy cs err w = (w', res) \<Longrightarrow> res \<noteq> CopyPanic"
  using plain_io_Copy [of "w_layers w" cs err "w_base w"]
  by (auto simp: plain_def w_Copy_def split: prod.splits)

lemma plain_writeResponse:
  assumes w: "plain w" and code: "\<not> invalid_code (StatusCode resp)"
  shows "snd (writeResponse resp w) \<noteq> CopyPanic"
proof -
  define w3 where "w3 = w_WriteHeader (StatusCode resp) (if length (Trailer resp) > 0
      then w_set_header (declareTrailers (Trailer resp)) (w_set_header (copyHeaders
        (removeHopByHopHeaders (RespHeader resp))) w)
      else w_set_header (copyHeaders (removeHopByHopHeaders (RespHeader resp))) w)"
  have "plain w3" using w by (simp add: w3_def)
  moreover obtain w4 res where copy: "w_Copy (RespBody resp) (RespBodyErr resp) w3 = (w4, res)" by fastforce
  ultimately have "res \<noteq> CopyPanic" by (rule plain_Copy)
  then show ?thesis
    using code unfolding writeResponse_def Let_def w3_def [symmetric] copy w_WriteHeader_panics_def
    by (cases res) simp_all
qed

section \<open>The engine\<close>

text \<open>The upstreams answer with codes that \<open>WriteHeader\<close> accepts.\<close>

definition valid_answers :: "env \<Rightarrow> bool" where
  "valid_answers env \<longleftrightarrow> (\<forall>k req resp. env_rt env k req = Inr resp \<longrightarrow> \<not> invalid_code (StatusCode resp))"

lemma plain_answer:
  "plain w \<Longrightarrow> \<not> invalid_code code \<Longrightarrow> run_outcome (answer msg code w e k) = Returned"
  using plain_http_Error [of w code msg] by (auto simp: answer_def run_outcome_def split: prod.splits)

lemma plain_serve_loop:
  "plain w \<Longrightarrow> valid_answers env \<Longrightarrow> run_outcome (serve_loop env r n i e w) = Returned"
proof (induction n i e rule: serve_loop_rule [where env = env and r = r and w = w])
  case (relayed n i e resp)
  then have "\<not> invalid_code (StatusCode resp)" by (auto simp: valid_answers_def forward_def)
  with relayed show ?case
    using plain_writeResponse [of w resp]
    by (auto simp: relay_response_def run_outcome_def Let_def split: prod.splits)
qed (simp_all add: bad_gateway_end_def plain_answer)

lemma plain_serve_upgrade: "plain w \<Longrightarrow> run_outcome (serve_upgrade env r i e w) = Returned"
  using plain_http_Error [of w 500 "''hijacking not supported''"]
  by (auto simp: serve_upgrade_def handleWebSocket_def ws_return_def run_outcome_def Let_def
      split: prod.splits option.splits)

lemma plain_engine_returns:
  assumes "plain w" and "valid_answers env" and "Engine_ServeHTTP env r e w = (w', e', out)"
  shows "out = Returned"
proof -
  have "run_outcome (Engine_ServeHTTP env r e w) = Returned"
    using assms(1,2)
    by (auto simp: Engine_ServeHTTP_def plain_serve_loop plain_serve_upgrade plain_answer Let_def
        split: prod.splits sum.splits)
  then show ?thesis using assms(3) by (simp add: run_outcome_def)
qed

text \<open>
  An upstream can cost the gateway a connection with an invalid status code: on a writer without a
  gzip layer that has not sent its header, the answer makes \<open>WriteHeader\<close> panic after the success
  was recorded and before the target is released.
\<close>

lemma plain_invalid_code_panics:
  "list_all not_gzip ls \<Longrightarrow> bw_sent b = None \<Longrightarrow> invalid_code code \<Longrightarrow> WriteHeader_panics code ls b"
  by (induction code ls b rule: WriteHeader_panics.induct) (auto simp: base_WriteHeader_panics_def)

lemma invalid_status_leaks:
  assumes "Balancer_Next (env_next env 0) (eng_lb e) = (Inr i, b)"
    and "\<not> isWebSocketUpgrade (limit_body e r)" and "0 \<le> eng_maxRetries e"
    and "\<forall>req. env_rt env 0 req = Inr resp" and "invalid_code (StatusCode resp)"
    and "plain w" and "bw_sent (w_base w) = None"
  shows "run_outcome (Engine_ServeHTTP env r e w) = Panicked \<and>
         lb_conns (eng_lb (run_engine (Engine_ServeHTTP env r e w)))
           = at_slot i (\<lambda>c. c + 1) (lb_conns (eng_lb e))"
proof -
  have "\<not> may_retry x 0 y (Inr resp)" for x y
    using assms(5) by (auto simp: may_retry_def shouldRetry_def)
  then have run: "Engine_ServeHTTP env r e w = relay_response (limit_body e r) i resp (e\<lparr>eng_lb := b\<rparr>) w"
    using assms(1-4) by (simp add: Engine_ServeHTTP_def serve_loop.simps forward_def Let_def)
  have "snd (writeResponse resp w) = CopyPanic"
    using assms(5-7)
    by (simp add: writeResponse_def w_WriteHeader_panics_def w_set_header_def plain_def
        plain_invalid_code_panics Let_def)
  then have "run_outcome (Engine_ServeHTTP env r e w) = Panicked"
    "eng_lb (run_engine (Engine_ServeHTTP env r e w)) = Balancer_apply i RecordSuccess b"
    unfolding run by (simp_all add: relay_response_def run_outcome_def run_engine_def case_prod_beta Let_def)
  moreover have "lb_conns (Balancer_apply i RecordSuccess b) = lb_conns b"
    by (rule lb_conns_apply) (simp add: frame_simps)
  ultimately show ?thesis using lb_conns_simps(1) [OF assms(1)] by simp
qed

lemma invalid_status_leaks_instance:
  "lb_conns (eng_lb (run_engine (Engine_ServeHTTP (sample_env [Inr (sample_response 99)])
     (sample_request ''GET'' []) (sample_engine 2) (sample_writer [])))) = [0, 1]"
  by code_simp

end
