(* ===== verification/Engine_Steps.thy ===== *)
theory Engine_Steps
  imports Plain_Writers
begin

text \<open>
  Requests of one route that overlap (\<^verbatim>\<open>src/internal/proxy/engine.go\<close>, \<open>ServeHTTP\<close>). A handler is
  broken into the actions other handlers can see: each call of the balancer and of an upstream,
  each update of the metrics, each write to the client is one step. Any number of handlers share
  the engine; a schedule says who moves next and when a health check stores its verdict.

  A handler that runs alone computes \<open>Engine_ServeHTTP\<close>; so what is shown of the interleaved
  handlers is about the same code. A balancer call is one step here; the race inside
  \<open>TryHalfOpen\<close> is the subject of \<open>Half_Open_Race\<close>.
\<close>

section \<open>The actions of a handler\<close>

text \<open>What follows once a target has been given back.\<close>

datatype cont =
    K_Retry nat string          \<comment> \<open>another attempt; the label of the failed upstream\<close>
  | K_BadGateway string         \<comment> \<open>answer 502, counted under the label\<close>
  | K_Count string string       \<comment> \<open>the client has its answer: count status and label\<close>
  | K_Return

text \<open>Where a handler is; the first \<open>nat\<close> of two is the attempt, the other one the target held.\<close>

datatype pc =
    Begin
  | NoUpstream
  | Attempt nat nat
  | Tunnelling nat
  | TooLarge nat
  | Counting nat nat cont
  | Marking nat nat cont
  | Succeeding nat "(Response \<times> string) option"
  | Writing nat Response string
  | Releasing nat cont
  | Gauges cont
  | Retrying nat string
  | Choosing nat
  | Refusing string
  | Counted string string
  | Ended
  | Crashed "nat option"

definition failure_metrics :: "nat \<Rightarrow> Engine \<Rightarrow> Engine" where
  "failure_metrics i e =
     (let t = eng_target e i;
          labels = [eng_routeName e, UpstreamLabel t];
          e1 = upd_metrics (inc_Failures labels) e
      in if FailureCount t = CBFailureThreshold t - 1 then upd_metrics (inc_Circuits labels) e1 else e1)"

fun resume :: "cont \<Rightarrow> pc" where
  "resume (K_Retry n l) = Retrying n l"
| "resume (K_BadGateway l) = Refusing l"
| "resume (K_Count s l) = Counted s l"
| "resume K_Return = Ended"

text \<open>An \<open>http.Error\<close>; a panic in it ends the handler, which keeps what it holds.\<close>

definition say :: "string \<Rightarrow> int \<Rightarrow> nat option \<Rightarrow> pc \<Rightarrow> writer \<Rightarrow> pc \<times> writer" where
  "say msg code h next w = (let (w1, p) = http_Error msg code w in (if p then Crashed h else next, w1))"

definition attempt_result :: "env \<Rightarrow> Request \<Rightarrow> nat \<Rightarrow> nat \<Rightarrow> Engine \<Rightarrow> pc" where
  "attempt_result env r n i e =
     (if int n > eng_maxRetries e then Refusing ''none''
      else let target = eng_target e i;
               l = UpstreamLabel target;
               out = forward env n e r target
           in if (case out of Inl err \<Rightarrow> isMaxBytesError err | Inr _ \<Rightarrow> False) then TooLarge i
              else if may_retry e n r out then Counting n i (K_Retry n l)
              else (case out of
                      Inl _ \<Rightarrow> Counting n i (K_BadGateway l)
                    | Inr resp \<Rightarrow> Succeeding i (Some (resp, l))))"

fun handler_step :: "env \<Rightarrow> Request \<Rightarrow> pc \<times> writer \<times> Engine \<Rightarrow> pc \<times> writer \<times> Engine" where
  "handler_step env r (Begin, w, e) =
     (let (nx, b) = Balancer_Next (env_next env 0) (eng_lb e)
      in (case nx of
            Inl _ \<Rightarrow> NoUpstream
          | Inr i \<Rightarrow> if isWebSocketUpgrade r then Tunnelling i else Attempt 0 i, w, e\<lparr>eng_lb := b\<rparr>))"
| "handler_step env r (NoUpstream, w, e) =
     (let (p, w1) = say ''no healthy upstreams'' 503 None (Counted ''503'' ''none'') w in (p, w1, e))"
| "handler_step env r (Attempt n i, w, e) = (attempt_result env r n i e, w, e)"
| "handler_step env r (TooLarge i, w, e) =
     (let (p, w1) = say ''request body too large'' 413 (Some i) (Releasing i K_Return) w in (p, w1, e))"
| "handler_step env r (Tunnelling i, w, e) =
     (let (w1, res) = handleWebSocket (env_ws env) r (eng_target e i) w
      in (if ws_panic res then Crashed (Some i)
          else if ws_err res \<noteq> None then Counting 0 i K_Return else Succeeding i None, w1, e))"
| "handler_step env r (Counting n i k, w, e) = (Marking n i k, w, failure_metrics i e)"
| "handler_step env r (Marking n i k, w, e) =
     (Releasing i k, w, upd_lb (Balancer_MarkFailure (env_fail env n) i) e)"
| "handler_step env r (Succeeding i what, w, e) =
     (case what of None \<Rightarrow> Releasing i K_Return | Some (resp, l) \<Rightarrow> Writing i resp l, w,
      upd_lb (Balancer_apply i RecordSuccess) e)"
| "handler_step env r (Writing i resp l, w, e) =
     (let (w1, res) = writeResponse resp w
      in (if res = CopyPanic then Crashed (Some i)
          else Releasing i (K_Count (StatusLabel (StatusCode resp)) l), w1, e))"
| "handler_step env r (Releasing i k, w, e) = (Gauges k, w, upd_lb (Balancer_Release i) e)"
| "handler_step env r (Gauges k, w, e) = (resume k, w, updateActiveMetrics e)"
| "handler_step env r (Retrying n l, w, e) =
     (Choosing n, w, upd_metrics (inc_Retries [eng_routeName e, l]) e)"
| "handler_step env r (Choosing n, w, e) =
     (let (nx, b) = Balancer_Next (env_next env (Suc n)) (eng_lb e)
      in (case nx of Inl _ \<Rightarrow> Refusing ''none'' | Inr j \<Rightarrow> Attempt (Suc n) j, w, e\<lparr>eng_lb := b\<rparr>))"
| "handler_step env r (Refusing l, w, e) =
     (let (p, w1) = say ''bad gateway'' 502 None (Counted ''502'' l) w in (p, w1, e))"
| "handler_step env r (Counted s l, w, e) = (Ended, w, count_request r s l e)"
| "handler_step env r (Ended, w, e) = (Ended, w, e)"
| "handler_step env r (Crashed h, w, e) = (Crashed h, w, e)"

section \<open>A handler alone\<close>

definition pc_outcome :: "pc \<Rightarrow> outcome option" where
  "pc_outcome p = (case p of Ended \<Rightarrow> Some Returned | Crashed _ \<Rightarrow> Some Panicked | _ \<Rightarrow> None)"

lemma pc_outcome_simps [simp]:
  "pc_outcome Ended = Some Returned" "pc_outcome (Crashed h) = Some Panicked"
  by (simp_all add: pc_outcome_def)

text \<open>From a state the handler, left alone, ends with the given writer, engine and outcome.\<close>

inductive ends :: "env \<Rightarrow> Request \<Rightarrow> pc \<times> writer \<times> Engine \<Rightarrow> writer \<times> Engine \<times> outcome \<Rightarrow> bool"
  for env r where
  ended: "pc_outcome p = Some out \<Longrightarrow> ends env r (p, w, e) (w, e, out)"
| step: "ends env r (handler_step env r s) res \<Longrightarrow> ends env r s res"

lemma ends_funpow:
  "ends env r s (w, e, out) \<Longrightarrow>
   \<exists>n p. (handler_step env r ^^ n) s = (p, w, e) \<and> pc_outcome p = Some out"
proof (induction s "(w, e, out)" rule: ends.induct)
  case (ended p)
  then show ?case by (intro exI [of _ 0]) simp
next
  case (step s)
  then obtain n p where "(handler_step env r ^^ n) (handler_step env r s) = (p, w, e)"
    "pc_outcome p = Some out" by blast
  then show ?case by (intro exI [of _ "Suc n"] exI [of _ p]) (simp add: funpow_swap1)
qed

lemma ends_Counted: "ends env r (Counted s l, w, e) (w, count_request r s l e, Returned)"
  by (rule ends.step) (simp add: ends.ended)

lemma ends_say:
  assumes "\<And>w1. ends env r (p, w1, e) (w1, k e, Returned)"
  shows "ends env r (let (q, w1) = say msg code h p w in (q, w1, e)) (answer msg code w e k)"
  using assms by (auto simp: say_def answer_def split: prod.split intro: ends.ended)

lemma ends_Refusing:
  "ends env r (Refusing l, w, e) (answer ''bad gateway'' 502 w e (count_request r ''502'' l))"
  by (rule ends.step) (simp only: handler_step.simps, rule ends_say, rule ends_Counted)

lemma ends_Releasing:
  "ends env r (resume k, w, release i e) res \<Longrightarrow> ends env r (Releasing i k, w, e) res"
  by (rule ends.step, simp, rule ends.step) (simp add: release_def)

lemma count_failure_metrics:
  "upd_lb (Balancer_MarkFailure now i) (failure_metrics i e) = count_failure now i e"
  by (simp add: failure_metrics_def count_failure_def Let_def)

lemma ends_Counting:
  assumes "ends env r (resume k, w, failed_engine env n i e) res"
  shows "ends env r (Counting n i k, w, e) res"
  by (rule ends.step, simp, rule ends.step, simp only: handler_step.simps count_failure_metrics)
    (rule ends_Releasing, rule assms)

lemma ends_relay:
  "ends env r (Succeeding i (Some (resp, UpstreamLabel (eng_target e i))), w, e) (relay_response r i resp e w)"
proof (rule ends.step, simp, rule ends.step)
  obtain w1 res where "writeResponse resp w = (w1, res)" by fastforce
  then show "ends env r (handler_step env r (Writing i resp (UpstreamLabel (eng_target e i)), w,
      upd_lb (Balancer_apply i RecordSuccess) e)) (relay_response r i resp e w)"
    by (auto simp: relay_response_def Let_def ends_Counted intro: ends.ended ends_Releasing)
qed

lemma ends_retry:
  assumes "retry_next env n l e = (nx, e2)"
    and "ends env r (case nx of Inl _ \<Rightarrow> Refusing ''none'' | Inr j \<Rightarrow> Attempt (Suc n) j, w, e2) res"
  shows "ends env r (Retrying n l, w, e) res"
  using assms
  by (intro ends.step [of _ _ "(Retrying n l, w, e)"], simp, intro ends.step [of _ _ "(Choosing n, _)"])
    (auto simp: retry_next_def Let_def split: prod.splits)

lemma ends_too_large:
  assumes "int n \<le> eng_maxRetries e" and "forward env n e r (eng_target e i) = Inl err"
    and "isMaxBytesError err"
  shows "ends env r (Attempt n i, w, e) (serve_loop env r n i e w)"
proof -
  have "ends env r (Releasing i K_Return, w1, e) (w1, release i e, Returned)" for w1
    by (rule ends_Releasing) (simp add: ends.ended)
  then have "ends env r (TooLarge i, w, e) (answer ''request body too large'' 413 w e (release i))"
    by (intro ends.step [of _ _ "(TooLarge i, w, e)"]) (simp only: handler_step.simps, rule ends_say)
  moreover have "serve_loop env r n i e w = answer ''request body too large'' 413 w e (release i)"
    using assms by (simp add: serve_loop.simps Let_def)
  ultimately show ?thesis
    using assms by (intro ends.step [of _ _ "(Attempt n i, w, e)"]) (auto simp: attempt_result_def Let_def)
qed

text \<open>An attempt that is retried.\<close>

lemma ends_again:
  assumes "int n \<le> eng_maxRetries e" and "may_retry e n r (forward env n e r (eng_target e i))"
    and "\<not> (\<exists>err. forward env n e r (eng_target e i) = Inl err \<and> isMaxBytesError err)"
    and "ends env r (Retrying n (UpstreamLabel (eng_target e i)), w, failed_engine env n i e) res"
  shows "ends env r (Attempt n i, w, e) res"
proof -
  have "ends env r (Counting n i (K_Retry n (UpstreamLabel (eng_target e i))), w, e) res"
    using assms(4) by (intro ends_Counting) simp
  then show ?thesis
    using assms(1-3)
    by (intro ends.step [of _ _ "(Attempt n i, w, e)"]) (auto simp: attempt_result_def Let_def split: sum.splits)
qed

lemma ends_loop: "ends env r (Attempt n i, w, e) (serve_loop env r n i e w)"
proof (induction n i e rule: serve_loop_rule [where env = env and r = r and w = w])
  case (exhausted n i e)
  then show ?case
    using ends_Refusing
    by (intro ends.step [of _ _ "(Attempt n i, w, e)"]) (auto simp: attempt_result_def bad_gateway_end_def)
next
  case (too_large n i e err)
  then show ?case by (intro ends_too_large)
next
  case (no_target n i e x e2)
  then have "ends env r (Retrying n (UpstreamLabel (eng_target e i)), w, failed_engine env n i e)
      (serve_loop env r n i e w)"
    using ends_Refusing by (intro ends_retry) (auto simp: bad_gateway_end_def)
  then show ?case by (rule ends_again [OF no_target(1,2,5)])
next
  case (retry n i e j e2)
  then have "ends env r (Retrying n (UpstreamLabel (eng_target e i)), w, failed_engine env n i e)
      (serve_loop env r n i e w)"
    by (intro ends_retry) auto
  then show ?case by (rule ends_again [OF retry(1,2,5)])
next
  case (failed n i e err)
  then have "ends env r (Counting n i (K_BadGateway (UpstreamLabel (eng_target e i))), w, e)
      (serve_loop env r n i e w)"
    using ends_Refusing by (intro ends_Counting) auto
  then show ?case
    using failed by (intro ends.step [of _ _ "(Attempt n i, w, e)"]) (auto simp: attempt_result_def Let_def)
next
  case (relayed n i e resp)
  then show ?case
    using ends_relay by (intro ends.step [of _ _ "(Attempt n i, w, e)"]) (auto simp: attempt_result_def Let_def)
qed

lemma ends_upgrade: "ends env r (Tunnelling i, w, e) (serve_upgrade env r i e w)"
proof (rule ends.step)
  obtain w1 res where ws: "handleWebSocket (env_ws env) r (eng_target e i) w = (w1, res)" by fastforce
  have "ends env r (Succeeding i None, w1, e)
      (w1, release i (upd_lb (Balancer_apply i RecordSuccess) e), Returned)"
    by (rule ends.step, simp, rule ends_Releasing) (simp add: ends.ended)
  moreover have "ends env r (Counting 0 i K_Return, w1, e) (w1, failed_engine env 0 i e, Returned)"
    by (rule ends_Counting) (simp add: ends.ended)
  ultimately show "ends env r (handler_step env r (Tunnelling i, w, e)) (serve_upgrade env r i e w)"
    using ws by (auto simp: serve_upgrade_def Let_def intro: ends.ended)
qed

lemma ends_Begin: "ends env (limit_body e r) (Begin, w, e) (Engine_ServeHTTP env r e w)"
proof (rule ends.step)
  obtain nx b where nx: "Balancer_Next (env_next env 0) (eng_lb e) = (nx, b)" by fastforce
  let ?r = "limit_body e r" and ?e = "e\<lparr>eng_lb := b\<rparr>"
  have "ends env ?r (NoUpstream, w, ?e)
      (answer ''no healthy upstreams'' 503 w ?e (count_request ?r ''503'' ''none''))"
    by (rule ends.step, simp only: handler_step.simps, rule ends_say, rule ends_Counted)
  then show "ends env ?r (handler_step env ?r (Begin, w, e)) (Engine_ServeHTTP env r e w)"
    using nx ends_loop ends_upgrade by (cases nx) (auto simp: Engine_ServeHTTP_def Let_def)
qed

section \<open>Handlers that overlap\<close>

text \<open>A running handler: its environment, its request, where it is, and its writer.\<close>

record activation =
  h_env :: env
  h_req :: Request
  h_pc :: pc
  h_writer :: writer

record overlap =
  ov_engine :: Engine
  ov_handlers :: "activation list"

text \<open>The handler \<open>net/http\<close> starts for a request.\<close>

definition new_handler :: "Engine \<Rightarrow> env \<times> Request \<times> writer \<Rightarrow> activation" where
  "new_handler e a = (case a of (env, r, w) \<Rightarrow>
     \<lparr>h_env = env, h_req = limit_body e r, h_pc = Begin, h_writer = w\<rparr>)"

definition overlap_start :: "Engine \<Rightarrow> (env \<times> Request \<times> writer) list \<Rightarrow> overlap" where
  "overlap_start e as = \<lparr>ov_engine = e, ov_handlers = map (new_handler e) as\<rparr>"

datatype move = Turn nat | Verdict nat bool

definition take_turn :: "nat \<Rightarrow> overlap \<Rightarrow> overlap" where
  "take_turn k s =
     (if k < length (ov_handlers s) then
        let h = ov_handlers s ! k;
            (p, w, e) = handler_step (h_env h) (h_req h) (h_pc h, h_writer h, ov_engine s)
        in \<lparr>ov_engine = e, ov_handlers = (ov_handlers s)[k := h\<lparr>h_pc := p, h_writer := w\<rparr>]\<rparr>
      else s)"

fun overlap_move :: "move \<Rightarrow> overlap \<Rightarrow> overlap" where
  "overlap_move (Turn k) s = take_turn k s"
| "overlap_move (Verdict i v) s =
     s\<lparr>ov_engine := upd_lb (Balancer_apply i (\<lambda>u. u\<lparr>Healthy := v\<rparr>)) (ov_engine s)\<rparr>"

definition overlap_run :: "move list \<Rightarrow> overlap \<Rightarrow> overlap" where
  "overlap_run ms s = fold overlap_move ms s"

text \<open>The target a handler holds; one that crashed holds it for ever.\<close>

fun holds :: "pc \<Rightarrow> nat option" where
  "holds (Attempt n i) = Some i"
| "holds (Tunnelling i) = Some i"
| "holds (TooLarge i) = Some i"
| "holds (Counting n i k) = Some i"
| "holds (Marking n i k) = Some i"
| "holds (Succeeding i what) = Some i"
| "holds (Writing i resp l) = Some i"
| "holds (Releasing i k) = Some i"
| "holds (Crashed h) = h"
| "holds _ = None"

definition held :: "pc \<Rightarrow> nat multiset" where
  "held p = (case holds p of None \<Rightarrow> {#} | Some i \<Rightarrow> {#i#})"

text \<open>With a retry budget of \<open>m\<close>, an attempt within the budget, and a retry only below it.\<close>

fun budgeted_cont :: "int \<Rightarrow> cont \<Rightarrow> bool" where
  "budgeted_cont m (K_Retry n l) = (int n < m)"
| "budgeted_cont m _ = True"

fun budgeted :: "int \<Rightarrow> pc \<Rightarrow> bool" where
  "budgeted m (Attempt n i) = (int n \<le> m)"
| "budgeted m (Counting n i k) = budgeted_cont m k"
| "budgeted m (Marking n i k) = budgeted_cont m k"
| "budgeted m (Releasing i k) = budgeted_cont m k"
| "budgeted m (Gauges k) = budgeted_cont m k"
| "budgeted m (Retrying n l) = (int n < m)"
| "budgeted m (Choosing n) = (int n < m)"
| "budgeted m _ = True"

lemma failure_metrics_frame [frame_simps]:
  "eng_maxRetries (failure_metrics i e) = eng_maxRetries e" "eng_lb (failure_metrics i e) = eng_lb e"
  by (simp_all add: failure_metrics_def Let_def)

lemma handler_step_maxRetries:
  "handler_step env r (p, w, e) = (p', w', e') \<Longrightarrow> eng_maxRetries e' = eng_maxRetries e"
  by (cases p) (auto simp: frame_simps Let_def split: prod.splits)

lemma budgeted_resume: "budgeted_cont m k \<Longrightarrow> budgeted m (resume k)"
  by (cases k) auto

lemma say_cases:
  "say msg code h p w = (q, w') \<Longrightarrow> (q = p \<or> q = Crashed h) \<and> (plain w \<and> \<not> invalid_code code \<longrightarrow> q = p)"
  using plain_http_Error [of w code msg] by (auto simp: say_def split: prod.splits if_splits)

lemma budgeted_step:
  assumes "handler_step env r (p, w, e) = (p', w', e')" and "budgeted (eng_maxRetries e) p"
    and "0 \<le> eng_maxRetries e"
  shows "budgeted (eng_maxRetries e) p'"
proof (cases p)
  case (Attempt n i)
  then show ?thesis
    using assms
    by (auto simp: attempt_result_def may_retry_def Let_def split: if_splits sum.splits)
qed (use assms budgeted_resume in \<open>auto simp: Let_def split: prod.splits sum.splits option.splits if_splits
      dest!: say_cases\<close>)

text \<open>Every step of a handler is a step of the balancer's protocol, or none.\<close>

lemma handler_step_lb:
  assumes "handler_step env r (p, w, e) = (p', w', e')" and "budgeted (eng_maxRetries e) p"
  shows "lb_steps (eng_lb e, held p + H) (eng_lb e', held p' + H)"
proof -
  have release: "lb_steps (b, add_mset i H) (Balancer_Release i b, H)" for i b
    by (rule lb_step_released)
  have mark: "lb_steps (b, add_mset i H) (Balancer_MarkFailure now i b, add_mset i H)" for i b now
    by (intro r_into_rtranclp lb_step.mark_failure) simp
  have success: "lb_steps (b, add_mset i H) (Balancer_apply i RecordSuccess b, add_mset i H)" for i b
    by (intro r_into_rtranclp lb_step.record_success) simp
  have acquire: "lb_steps (b, H) (b', add_mset i H)" if "Balancer_Next now b = (Inr i, b')" for now b b' i
    using that by (intro r_into_rtranclp lb_step.acquire)
  have reject: "lb_steps (b, H) (b', H)" if "Balancer_Next now b = (Inl x, b')" for now b b' x
    using that by (intro r_into_rtranclp lb_step.reject)
  have resume: "holds (resume k) = None" for k by (cases k) simp_all
  show ?thesis
  proof (cases p)
    case (Attempt n i)
    then show ?thesis
      using assms
      by (auto simp: attempt_result_def held_def Let_def split: if_splits sum.splits)
  next
    case Begin
    then show ?thesis
      using assms acquire reject by (auto simp: held_def Let_def split: prod.splits sum.splits if_splits)
  next
    case (Choosing n)
    then show ?thesis
      using assms acquire reject by (auto simp: held_def Let_def split: prod.splits sum.splits if_splits)
  qed (use assms release mark success in \<open>auto simp: held_def frame_simps Let_def resume
        split: prod.splits option.splits if_splits dest!: say_cases\<close>)
qed

text \<open>The turns a handler needs at most.\<close>

definition attempts_left :: "int \<Rightarrow> nat \<Rightarrow> nat" where
  "attempts_left m n = 7 * nat (m + 1 - int n) + 3"

fun cont_rank :: "int \<Rightarrow> cont \<Rightarrow> nat" where
  "cont_rank m (K_Retry n l) = attempts_left m (Suc n) + 2"
| "cont_rank m (K_BadGateway l) = 2"
| "cont_rank m (K_Count s l) = 1"
| "cont_rank m K_Return = 0"

fun rank :: "int \<Rightarrow> pc \<Rightarrow> nat" where
  "rank m Begin = attempts_left m 0 + 4"
| "rank m NoUpstream = 2"
| "rank m (Attempt n i) = attempts_left m n"
| "rank m (Tunnelling i) = 6"
| "rank m (TooLarge i) = 3"
| "rank m (Counting n i k) = cont_rank m k + 4"
| "rank m (Marking n i k) = cont_rank m k + 3"
| "rank m (Succeeding i what) = 5"
| "rank m (Writing i resp l) = 4"
| "rank m (Releasing i k) = cont_rank m k + 2"
| "rank m (Gauges k) = cont_rank m k + 1"
| "rank m (Retrying n l) = attempts_left m (Suc n) + 2"
| "rank m (Choosing n) = attempts_left m (Suc n) + 1"
| "rank m (Refusing l) = 2"
| "rank m (Counted s l) = 1"
| "rank m _ = 0"

lemma attempts_left_Suc: "int n \<le> m \<Longrightarrow> attempts_left m n = attempts_left m (Suc n) + 7"
  by (simp add: attempts_left_def nat_add_distrib [symmetric] algebra_simps)

lemma rank_resume: "rank m (resume k) = cont_rank m k"
  by (cases k) auto

lemma handler_step_rank:
  assumes "handler_step env r (p, w, e) = (p', w', e')"
  shows "rank (eng_maxRetries e) p' \<le> rank (eng_maxRetries e) p - 1"
proof (cases p)
  case (Attempt n i)
  show ?thesis
  proof (cases "int n \<le> eng_maxRetries e")
    case True
    then show ?thesis
      using assms Attempt attempts_left_Suc [OF True]
      by (auto simp: attempt_result_def attempts_left_def Let_def split: if_splits sum.splits)
  qed (use assms Attempt in \<open>auto simp: attempt_result_def attempts_left_def\<close>)
qed (use assms in \<open>auto simp: rank_resume attempts_left_def Let_def
      split: prod.splits sum.splits option.splits if_splits dest!: say_cases\<close>)

lemma rank_0: "rank m p = 0 \<longleftrightarrow> pc_outcome p \<noteq> None"
  by (cases p) (auto simp: pc_outcome_def attempts_left_def)

text \<open>
  A handler that has not answered yet, on a writer that cannot panic; a response it is about to
  relay has a valid status.
\<close>

fun unwritten_cont :: "cont \<Rightarrow> bool" where
  "unwritten_cont (K_Retry n l) = True"
| "unwritten_cont (K_BadGateway l) = True"
| "unwritten_cont _ = False"

fun unwritten :: "pc \<Rightarrow> bool" where
  "unwritten (Counting n i k) = unwritten_cont k"
| "unwritten (Marking n i k) = unwritten_cont k"
| "unwritten (Succeeding i what) = (what \<noteq> None)"
| "unwritten (Releasing i k) = unwritten_cont k"
| "unwritten (Gauges k) = unwritten_cont k"
| "unwritten (Counted s l) = False"
| "unwritten Ended = False"
| "unwritten (Crashed h) = False"
| "unwritten _ = True"

fun valid_relay :: "pc \<Rightarrow> bool" where
  "valid_relay (Succeeding i (Some (resp, l))) = (\<not> invalid_code (StatusCode resp))"
| "valid_relay (Writing i resp l) = (\<not> invalid_code (StatusCode resp))"
| "valid_relay _ = True"

definition calm :: "pc \<Rightarrow> writer \<Rightarrow> bool" where
  "calm p w \<longleftrightarrow> (unwritten p \<longrightarrow> plain w) \<and> valid_relay p \<and> (\<forall>h. p \<noteq> Crashed h)"

lemma plain_handleWebSocket: "plain w \<Longrightarrow> \<not> ws_panic (snd (handleWebSocket io r t w))"
  using plain_http_Error [of w 500 "''hijacking not supported''"]
  by (auto simp: handleWebSocket_def ws_return_def Let_def split: prod.splits option.splits)

lemma handler_step_calm:
  assumes "handler_step env r (p, w, e) = (p', w', e')" and "calm p w" and "valid_answers env"
  shows "calm p' w'"
proof (cases p)
  case (Attempt n i)
  then show ?thesis
    using assms
    by (auto simp: calm_def attempt_result_def valid_answers_def forward_def Let_def
        split: if_splits sum.splits)
next
  case (Tunnelling i)
  then show ?thesis
    using assms plain_handleWebSocket [of w "env_ws env" r "eng_target e i"]
    by (auto simp: calm_def Let_def split: prod.splits if_splits)
next
  case (Writing i resp l)
  then show ?thesis
    using assms plain_writeResponse [of w resp]
    by (auto simp: calm_def Let_def split: prod.splits if_splits)
next
  case (Gauges k)
  then show ?thesis using assms by (cases k) (auto simp: calm_def)
qed (use assms in \<open>auto simp: calm_def Let_def split: prod.splits sum.splits option.splits if_splits
      dest!: say_cases\<close>)

section \<open>Invariants of overlapping handlers\<close>

definition ov_held :: "activation list \<Rightarrow> nat multiset" where
  "ov_held hs = sum_list (map (\<lambda>h. held (h_pc h)) hs)"

lemma ov_held_slot:
  assumes "k < length hs"
  obtains H where "\<And>h. ov_held (hs[k := h]) = held (h_pc h) + H"
proof
  fix h
  show "ov_held (hs[k := h]) = held (h_pc h) + (ov_held (take k hs) + ov_held (drop (Suc k) hs))"
    using assms by (simp add: ov_held_def upd_conv_take_nth_drop add_ac)
qed

lemma count_ov_held: "count (ov_held hs) i = count_list (map (\<lambda>h. holds (h_pc h)) hs) (Some i)"
  by (induction hs) (auto simp: ov_held_def held_def split: option.split)

definition ov_inv :: "Engine \<Rightarrow> overlap \<Rightarrow> bool" where
  "ov_inv e0 s \<longleftrightarrow>
     eng_maxRetries (ov_engine s) = eng_maxRetries e0 \<and>
     list_all (\<lambda>h. budgeted (eng_maxRetries e0) (h_pc h)) (ov_handlers s) \<and>
     unheld (eng_lb (ov_engine s), ov_held (ov_handlers s)) = lb_conns (eng_lb e0)"

lemma take_turnE:
  assumes "k < length (ov_handlers s)"
  obtains h p w e where "h = ov_handlers s ! k"
    and "handler_step (h_env h) (h_req h) (h_pc h, h_writer h, ov_engine s) = (p, w, e)"
    and "take_turn k s = \<lparr>ov_engine = e, ov_handlers = (ov_handlers s)[k := h\<lparr>h_pc := p, h_writer := w\<rparr>]\<rparr>"
proof -
  let ?h = "ov_handlers s ! k"
  obtain p w e where "handler_step (h_env ?h) (h_req ?h) (h_pc ?h, h_writer ?h, ov_engine s) = (p, w, e)"
    using prod_cases3 by blast
  then show thesis using that [of ?h p w e] assms by (simp add: take_turn_def Let_def)
qed

lemma take_turn_inv:
  assumes "ov_inv e0 s" and "0 \<le> eng_maxRetries e0"
  shows "ov_inv e0 (take_turn k s)"
proof (cases "k < length (ov_handlers s)")
  case True
  then obtain h p w e where h: "h = ov_handlers s ! k"
    and run: "handler_step (h_env h) (h_req h) (h_pc h, h_writer h, ov_engine s) = (p, w, e)"
    and t: "take_turn k s = \<lparr>ov_engine = e, ov_handlers = (ov_handlers s)[k := h\<lparr>h_pc := p, h_writer := w\<rparr>]\<rparr>"
    by (rule take_turnE)
  have b: "budgeted (eng_maxRetries (ov_engine s)) (h_pc h)"
    using assms(1) True by (simp add: ov_inv_def h list_all_length)
  obtain H where H: "\<And>h. ov_held ((ov_handlers s)[k := h]) = held (h_pc h) + H"
    using ov_held_slot [OF True] by blast
  have "ov_held (ov_handlers s) = held (h_pc h) + H" using H [of h] by (simp add: h)
  then have "unheld (eng_lb e, held p + H) = lb_conns (eng_lb e0)"
    using lb_steps_unheld [OF handler_step_lb [OF run b, of H]] assms(1) by (simp add: ov_inv_def)
  moreover have "eng_maxRetries e = eng_maxRetries e0"
    using handler_step_maxRetries [OF run] assms(1) by (simp add: ov_inv_def)
  moreover have "budgeted (eng_maxRetries e0) p"
    using budgeted_step [OF run b] assms by (simp add: ov_inv_def)
  ultimately show ?thesis
    using assms(1) True by (auto simp: ov_inv_def t H list_all_length nth_list_update)
qed (use assms in \<open>simp add: take_turn_def\<close>)

lemma overlap_move_inv: "ov_inv e0 s \<Longrightarrow> 0 \<le> eng_maxRetries e0 \<Longrightarrow> ov_inv e0 (overlap_move m s)"
proof (cases m)
  case (Verdict i v)
  assume "ov_inv e0 s"
  then show ?thesis
    using lb_step_unheld [OF lb_step.health_check] by (simp add: Verdict ov_inv_def)
qed (simp add: take_turn_inv)

lemma ov_start_held: "ov_held (map (new_handler e) as) = {#}"
  by (induction as) (auto simp: ov_held_def held_def new_handler_def)

lemma overlap_run_inv:
  assumes "0 \<le> eng_maxRetries e"
  shows "ov_inv e (overlap_run ms (overlap_start e as))"
proof -
  have "ov_inv e (overlap_start e as)"
    by (auto simp: ov_inv_def overlap_start_def ov_start_held unheld_empty list_all_iff new_handler_def)
  then have "ov_inv e (fold overlap_move ms (overlap_start e as))"
    using assms by (induction ms arbitrary: as rule: rev_induct) (auto intro: overlap_move_inv)
  then show ?thesis by (simp add: overlap_run_def)
qed

text \<open>What one move does to handler \<open>k\<close>: nothing, unless it is its turn.\<close>

lemma overlap_move_other:
  "m \<noteq> Turn k \<Longrightarrow> ov_handlers (overlap_move m s) ! k = ov_handlers s ! k"
  by (cases m) (auto simp: take_turn_def Let_def split: prod.split)

lemma length_overlap_move [simp]: "length (ov_handlers (overlap_move m s)) = length (ov_handlers s)"
  by (cases m) (auto simp: take_turn_def Let_def split: prod.split)

lemma length_overlap_run [simp]: "length (ov_handlers (overlap_run ms s)) = length (ov_handlers s)"
  unfolding overlap_run_def by (induction ms arbitrary: s) simp_all

lemma overlap_run_snoc: "overlap_run (ms @ [m]) s = overlap_move m (overlap_run ms s)"
  by (simp add: overlap_run_def)

text \<open>Every turn brings a handler nearer to its end, whatever the others do.\<close>

lemma overlap_rank:
  assumes "0 \<le> eng_maxRetries e" and "k < length as"
  shows "rank (eng_maxRetries e) (h_pc (ov_handlers (overlap_run ms (overlap_start e as)) ! k))
           \<le> 7 * nat (eng_maxRetries e + 2) - count_list ms (Turn k)"
proof (induction ms rule: rev_induct)
  case Nil
  then show ?case
    using assms
    by (auto simp: overlap_run_def overlap_start_def new_handler_def attempts_left_def nat_add_distrib
        split: prod.split)
next
  case (snoc m ms)
  let ?s = "overlap_run ms (overlap_start e as)"
  show ?case
  proof (cases "m = Turn k")
    case True
    have k: "k < length (ov_handlers ?s)" using assms(2) by (simp add: overlap_start_def)
    then obtain h p w e' where "h = ov_handlers ?s ! k"
      and run: "handler_step (h_env h) (h_req h) (h_pc h, h_writer h, ov_engine ?s) = (p, w, e')"
      and "take_turn k ?s
        = \<lparr>ov_engine = e', ov_handlers = (ov_handlers ?s)[k := h\<lparr>h_pc := p, h_writer := w\<rparr>]\<rparr>"
      by (rule take_turnE)
    moreover have "eng_maxRetries (ov_engine ?s) = eng_maxRetries e"
      using overlap_run_inv [OF assms(1)] by (simp add: ov_inv_def)
    ultimately show ?thesis
      using handler_step_rank [OF run] snoc k by (simp add: overlap_run_snoc True)
  next
    case False
    then show ?thesis using snoc overlap_move_other [OF False] by (simp add: overlap_run_snoc)
  qed
qed

lemma overlap_calm:
  assumes "list_all (\<lambda>(env, r, w). plain w \<and> valid_answers env) as"
  shows "list_all (\<lambda>h. calm (h_pc h) (h_writer h) \<and> valid_answers (h_env h))
           (ov_handlers (overlap_run ms (overlap_start e as)))"
proof (induction ms rule: rev_induct)
  case Nil
  then show ?case
    using assms by (auto simp: overlap_run_def overlap_start_def new_handler_def calm_def list_all_iff)
next
  case (snoc m ms)
  let ?s = "overlap_run ms (overlap_start e as)"
  show ?case
  proof (cases "\<exists>k. m = Turn k \<and> k < length (ov_handlers ?s)")
    case True
    then obtain k where m: "m = Turn k" and k: "k < length (ov_handlers ?s)" by blast
    then obtain h p w e' where "h = ov_handlers ?s ! k"
      and "handler_step (h_env h) (h_req h) (h_pc h, h_writer h, ov_engine ?s) = (p, w, e')"
      and "take_turn k ?s
        = \<lparr>ov_engine = e', ov_handlers = (ov_handlers ?s)[k := h\<lparr>h_pc := p, h_writer := w\<rparr>]\<rparr>"
      using take_turnE by metis
    then show ?thesis
      using snoc k handler_step_calm
      by (auto simp: overlap_run_snoc m list_all_length nth_list_update)
  next
    case False
    then have "ov_handlers (overlap_move m ?s) = ov_handlers ?s"
      by (cases m) (auto simp: take_turn_def)
    then show ?thesis using snoc by (simp add: overlap_run_snoc)
  qed
qed

section \<open>Properties\<close>

text \<open>
  C10. The steps are the handler: a handler that is alone ends after finitely many of its steps
  with the writer, the engine (balancer, breakers and metrics) and the outcome that
  \<open>ServeHTTP\<close> computes.
\<close>

theorem handler_computes_ServeHTTP:
  "\<exists>n p. (handler_step env (limit_body e r) ^^ n) (Begin, w, e) =
           (p, run_writer (Engine_ServeHTTP env r e w), run_engine (Engine_ServeHTTP env r e w)) \<and>
         pc_outcome p = Some (run_outcome (Engine_ServeHTTP env r e w))"
proof -
  obtain w' e' out where res: "Engine_ServeHTTP env r e w = (w', e', out)" using prod_cases3 by blast
  then show ?thesis using ends_funpow [OF ends_Begin [of env e r w, unfolded res]] by simp
qed

text \<open>
  C4. Connections are exact while requests overlap: after any schedule of any number of handlers
  and health checks, an upstream has as many connections more than at the start as there are
  handlers that hold it, those included that panicked and will never give it back.
\<close>

theorem overlapping_requests_exact:
  assumes "0 \<le> eng_maxRetries e" and "s = overlap_run ms (overlap_start e as)"
  shows "lb_conns (eng_lb (ov_engine s)) =
           map (\<lambda>i. lb_conns (eng_lb e) ! i
                 + int (count_list (map (\<lambda>h. holds (h_pc h)) (ov_handlers s)) (Some i)))
             [0..<length (lb_conns (eng_lb e))]"
proof -
  have "lb_conns (eng_lb e) = unheld (eng_lb (ov_engine s), ov_held (ov_handlers s))"
    using overlap_run_inv [OF assms(1)] assms(2) by (simp add: ov_inv_def)
  then show ?thesis by (intro nth_equalityI) (simp_all add: unheld_def count_ov_held)
qed

text \<open>Two requests to two upstreams, each with a target.\<close>

definition two_requests :: "(env \<times> Request \<times> writer) list" where
  "two_requests =
     [(sample_env [Inl conn_reset, Inr (sample_response 200)], sample_request ''GET'' [], sample_writer []),
      (sample_env [Inr (sample_response 200)], sample_request ''POST'' [], sample_writer [])]"

theorem overlapping_requests_exact_witness:
  "lb_conns (eng_lb (ov_engine (overlap_run [Turn 1, Turn 0, Verdict 0 False]
     (overlap_start (sample_engine 2) two_requests)))) = [1, 1]"
proof -
  let ?s = "overlap_run [Turn 1, Turn 0, Verdict 0 False] (overlap_start (sample_engine 2) two_requests)"
  have "0 \<le> eng_maxRetries (sample_engine 2)" by code_simp
  from overlapping_requests_exact [OF this refl, of "[Turn 1, Turn 0, Verdict 0 False]" two_requests]
  have "lb_conns (eng_lb (ov_engine ?s)) =
      map (\<lambda>i. lb_conns (eng_lb (sample_engine 2)) ! i
             + int (count_list (map (\<lambda>h. holds (h_pc h)) (ov_handlers ?s)) (Some i))) [0, 1]"
    by (simp add: sample_engine_def NewEngine_def NewRoundRobin_def lb_conns_def RoundRobin_Upstreams_def upt_rec)
  moreover have "map (\<lambda>i. lb_conns (eng_lb (sample_engine 2)) ! i
             + int (count_list (map (\<lambda>h. holds (h_pc h)) (ov_handlers ?s)) (Some i))) [0, 1] = [1, 1]"
    by code_simp
  ultimately show ?thesis by simp
qed

text \<open>
  C3. Overlapping requests end and leave nothing behind: on writers that do not compress, with
  upstreams that answer with valid status codes and a retry budget that is not negative, a
  handler is done after at most \<open>7 \<sqdot> (max_retries + 2)\<close> turns of its own, whatever the others do in
  between and whatever the upstreams answer; once each handler had these turns, every one has
  returned without a panic and every upstream has as many connections as before.
\<close>

theorem overlapping_requests_drain:
  assumes "0 \<le> eng_maxRetries e" and "list_all (\<lambda>(env, r, w). plain w \<and> valid_answers env) as"
    and "\<forall>k < length as. 7 * nat (eng_maxRetries e + 2) \<le> count_list ms (Turn k)"
    and "s = overlap_run ms (overlap_start e as)"
  shows "map h_pc (ov_handlers s) = replicate (length as) Ended \<and>
         lb_conns (eng_lb (ov_engine s)) = lb_conns (eng_lb e)"
proof
  have len: "length (ov_handlers s) = length as" by (simp add: assms(4) overlap_start_def)
  have "h_pc (ov_handlers s ! k) = Ended" if k: "k < length as" for k
  proof -
    have "rank (eng_maxRetries e) (h_pc (ov_handlers s ! k)) = 0"
      using overlap_rank [OF assms(1) k, of ms] assms(3) k by (simp add: assms(4))
    then have "pc_outcome (h_pc (ov_handlers s ! k)) \<noteq> None" by (rule rank_0 [THEN iffD1])
    moreover have "calm (h_pc (ov_handlers s ! k)) (h_writer (ov_handlers s ! k))"
      using overlap_calm [OF assms(2), of ms e] k len by (simp add: assms(4) list_all_length)
    ultimately show ?thesis by (auto simp: pc_outcome_def calm_def split: pc.splits)
  qed
  then show ended: "map h_pc (ov_handlers s) = replicate (length as) Ended"
    using len by (intro nth_equalityI) auto
  have "count (ov_held (ov_handlers s)) i = count_list (map holds (map h_pc (ov_handlers s))) (Some i)" for i
    by (simp add: count_ov_held comp_def)
  then have "ov_held (ov_handlers s) = {#}" by (intro multiset_eqI) (simp add: ended count_list_replicate)
  then show "lb_conns (eng_lb (ov_engine s)) = lb_conns (eng_lb e)"
    using overlap_run_inv [OF assms(1), of ms as] by (simp add: assms(4) ov_inv_def unheld_empty)
qed

theorem overlapping_requests_drain_witness:
  "lb_conns (eng_lb (ov_engine (overlap_run (concat (replicate 28 [Turn 1, Turn 0]))
     (overlap_start (sample_engine 2) two_requests)))) = [0, 0]"
proof -
  let ?ms = "concat (replicate 28 [Turn 1, Turn 0])"
  have "0 \<le> eng_maxRetries (sample_engine 2)" by code_simp
  moreover have "valid_answers (sample_env [Inl conn_reset, Inr (sample_response 200)])"
    "valid_answers (sample_env [Inr (sample_response 200)])"
    by (auto simp: valid_answers_def sample_env_def sample_response_def nth_Cons' split: if_splits)
  then have "list_all (\<lambda>(env, r, w). plain w \<and> valid_answers env) two_requests"
    by (simp add: two_requests_def plain_def sample_writer_def)
  moreover have "7 * nat (eng_maxRetries (sample_engine 2) + 2) = 28" by code_simp
  moreover have "count_list ?ms (Turn 0) = 28" "count_list ?ms (Turn 1) = 28" by code_simp+
  then have "\<forall>k < length two_requests. 28 \<le> count_list ?ms (Turn k)"
    by (auto simp: two_requests_def less_Suc_eq)
  ultimately have "lb_conns (eng_lb (ov_engine (overlap_run ?ms (overlap_start (sample_engine 2) two_requests))))
      = lb_conns (eng_lb (sample_engine 2))"
    using overlapping_requests_drain [OF _ _ _ refl] by simp
  also have "\<dots> = [0, 0]" by code_simp
  finally show ?thesis .
qed

end
