(* ===== verification/Client_Answer.thy ===== *)
theory Client_Answer
  imports Engine_Props
begin

text \<open>
  What the client of the proxy engine is answered with and how the request is counted. The
  specification follows the attempts: which target attempt \<open>k\<close> goes to when all before it failed,
  what becomes of it there, whether it is retried, and what the attempt that is not retried
  means for the client and for the metric.
\<close>

section \<open>Specification\<close>

text \<open>
  The choice of the balancer for attempt \<open>k\<close>, when the attempts before were marked as failed and
  released, and the balancer after this choice.
\<close>

fun nth_pick :: "env \<Rightarrow> Balancer \<Rightarrow> nat \<Rightarrow> (lb_error + nat) \<times> Balancer" where
  "nth_pick env b 0 = Balancer_Next (env_next env 0) b"
| "nth_pick env b (Suc k) =
     (case nth_pick env b k of
        (Inl x, b1) \<Rightarrow> (Inl x, b1)
      | (Inr i, b1) \<Rightarrow> Balancer_Next (env_next env (Suc k))
                        (Balancer_Release i (Balancer_MarkFailure (env_fail env k) i b1)))"

text \<open>What the transport answers to attempt \<open>k\<close>, forwarded to target \<open>i\<close>.\<close>

definition outcome_at :: "env \<Rightarrow> Engine \<Rightarrow> Request \<Rightarrow> nat \<Rightarrow> nat \<Rightarrow> go_error + Response" where
  "outcome_at env e r k i = env_rt env k (forward_request e (limit_body e r) (eng_target e i))"

text \<open>An outcome after which a replay-safe request is sent again.\<close>

definition retryable :: "go_error + Response \<Rightarrow> bool" where
  "retryable out =
     (case out of Inl err \<Rightarrow> \<not> isMaxBytesError err \<and> isRetryableTransportError err
                | Inr resp \<Rightarrow> StatusCode resp \<in> {502, 503, 504})"

definition retried :: "env \<Rightarrow> Engine \<Rightarrow> Request \<Rightarrow> nat \<Rightarrow> bool" where
  "retried env e r k \<longleftrightarrow>
     isReplaySafeMethod (Method r) \<and> int k < eng_maxRetries e \<and>
     (case fst (nth_pick env (eng_lb e) k) of
        Inl _ \<Rightarrow> False
      | Inr i \<Rightarrow> retryable (outcome_at env e r k i))"

text \<open>The client's writer after attempt \<open>n\<close>, which is not retried.\<close>

definition final_answer :: "env \<Rightarrow> Engine \<Rightarrow> Request \<Rightarrow> writer \<Rightarrow> nat \<Rightarrow> writer" where
  "final_answer env e r w n =
     (case fst (nth_pick env (eng_lb e) n) of
        Inl _ \<Rightarrow> fst (if n = 0 then http_Error ''no healthy upstreams'' 503 w
                     else http_Error ''bad gateway'' 502 w)
      | Inr i \<Rightarrow>
          (case outcome_at env e r n i of
             Inl err \<Rightarrow> fst (if isMaxBytesError err then http_Error ''request body too large'' 413 w
                            else http_Error ''bad gateway'' 502 w)
           | Inr resp \<Rightarrow> fst (writeResponse resp w)))"

text \<open>The status and the upstream it is counted under, if at all.\<close>

definition final_labels :: "env \<Rightarrow> Engine \<Rightarrow> Request \<Rightarrow> nat \<Rightarrow> (string \<times> string) option" where
  "final_labels env e r n =
     (case fst (nth_pick env (eng_lb e) n) of
        Inl _ \<Rightarrow> Some (if n = 0 then ''503'' else ''502'', ''none'')
      | Inr i \<Rightarrow>
          (let upstream = UpstreamLabel (eng_target e i)
           in case outcome_at env e r n i of
                Inl err \<Rightarrow> if isMaxBytesError err then None else Some (''502'', upstream)
              | Inr resp \<Rightarrow> Some (StatusLabel (StatusCode resp), upstream)))"

definition count_final ::
  "env \<Rightarrow> Engine \<Rightarrow> Request \<Rightarrow> nat \<Rightarrow> (string list \<Rightarrow> nat) \<Rightarrow> (string list \<Rightarrow> nat)" where
  "count_final env e r n m =
     (case final_labels env e r n of
        None \<Rightarrow> m
      | Some (status, upstream) \<Rightarrow> inc [eng_routeName e, Method r, status, upstream] m)"

section \<open>The engine against the specification\<close>

lemma may_retry_retryable:
  "may_retry e n r out \<Longrightarrow> \<not> (\<exists>err. out = Inl err \<and> isMaxBytesError err) \<Longrightarrow> retryable out"
  "isReplaySafeMethod (Method r) \<Longrightarrow> retryable out \<Longrightarrow> int n < eng_maxRetries e \<Longrightarrow>
   may_retry e n r out"
  by (auto simp: may_retry_def retryable_def shouldRetry_def split: sum.splits if_splits)

lemma fold_set_Active_frame:
  "m_Requests (fold (\<lambda>u. set_Active (f u) (g u)) us m) = m_Requests m"
  "m_Failures (fold (\<lambda>u. set_Active (f u) (g u)) us m) = m_Failures m"
  by (induction us arbitrary: m) (simp_all add: set_Active_def)

lemma requests_frame [frame_simps]:
  "m_Requests (eng_metrics (release i e)) = m_Requests (eng_metrics e)"
  "m_Requests (eng_metrics (count_failure now i e)) = m_Requests (eng_metrics e)"
  "m_Failures (eng_metrics (release i e)) = m_Failures (eng_metrics e)"
  "m_Failures (eng_metrics (count_request r st u e)) = m_Failures (eng_metrics e)"
  "m_Requests (eng_metrics (count_request r st u e))
     = inc [eng_routeName e, Method r, st, u] (m_Requests (eng_metrics e))"
  by (simp_all add: release_def updateActiveMetrics_def count_failure_def count_request_def
      fold_set_Active_frame metrics_defs Let_def)

lemma requests_retry_next:
  "retry_next env n l e = (x, e2) \<Longrightarrow> m_Requests (eng_metrics e2) = m_Requests (eng_metrics e)"
  by (auto simp: retry_next_def metrics_defs Let_def split: prod.splits)

text \<open>What an attempt depends on is not changed by the attempts before.\<close>

definition same_route :: "Engine \<Rightarrow> Engine \<Rightarrow> bool" where
  "same_route e0 e \<longleftrightarrow>
     eng_maxRetries e = eng_maxRetries e0 \<and> eng_timeout e = eng_timeout e0 \<and>
     eng_routeName e = eng_routeName e0 \<and> m_Requests (eng_metrics e) = m_Requests (eng_metrics e0) \<and>
     map UpstreamURL (Balancer_Upstreams (eng_lb e)) = map UpstreamURL (Balancer_Upstreams (eng_lb e0))"

lemma urls_next:
  "Balancer_Next now b = (nx, b') \<Longrightarrow>
   map UpstreamURL (Balancer_Upstreams b') = map UpstreamURL (Balancer_Upstreams b)"
  by (cases nx) (auto dest!: lb.next_Inl lb.next_Inr
      simp: map_at_slot_id [where h = UpstreamURL] add_conns_def frame_simps comp_def)

lemma urls_failed:
  "map UpstreamURL (Balancer_Upstreams (Balancer_Release i (Balancer_MarkFailure now i b)))
     = map UpstreamURL (Balancer_Upstreams b)"
  by (simp add: lb.upstreams_release lb.upstreams_mark_failure map_at_slot_id [where h = UpstreamURL]
      release_target_def add_conns_def frame_simps Let_def)

lemma routeName_frame [frame_simps]:
  "eng_routeName (release i e) = eng_routeName e"
  "eng_routeName (count_failure now i e) = eng_routeName e"
  by (simp_all add: release_def updateActiveMetrics_def count_failure_def Let_def)

lemma same_route_retry:
  assumes "same_route e0 e" and "retry_next env n l (failed_engine env n i e) = (nx, e2)"
  shows "same_route e0 e2 \<and>
         Balancer_Next (env_next env (Suc n))
           (Balancer_Release i (Balancer_MarkFailure (env_fail env n) i (eng_lb e))) = (nx, eng_lb e2)"
proof -
  have nxt: "Balancer_Next (env_next env (Suc n))
      (Balancer_Release i (Balancer_MarkFailure (env_fail env n) i (eng_lb e))) = (nx, eng_lb e2)"
    and frame: "eng_maxRetries e2 = eng_maxRetries e" "eng_timeout e2 = eng_timeout e"
    using retry_next_frame [OF assms(2)] by (simp_all add: frame_simps)
  have "eng_routeName e2 = eng_routeName e"
    using assms(2) by (auto simp: retry_next_def frame_simps Let_def split: prod.splits)
  then show ?thesis
    using assms(1) nxt frame requests_retry_next [OF assms(2)] urls_next [OF nxt] urls_failed
    by (simp add: same_route_def frame_simps)
qed

lemma same_route_target:
  assumes "same_route e0 e" and "i < length (Balancer_Upstreams (eng_lb e))"
  shows "UpstreamURL (eng_target e i) = UpstreamURL (eng_target e0 i)"
proof -
  have "map UpstreamURL (Balancer_Upstreams (eng_lb e)) ! i
      = map UpstreamURL (Balancer_Upstreams (eng_lb e0)) ! i"
    and "length (Balancer_Upstreams (eng_lb e)) = length (Balancer_Upstreams (eng_lb e0))"
    using assms(1) by (auto simp: same_route_def dest: map_eq_imp_length_eq)
  then show ?thesis using assms(2) by (simp add: eng_target_def)
qed

lemma same_route_outcome:
  assumes "same_route e0 e" and "i < length (Balancer_Upstreams (eng_lb e))"
  shows "forward env n e (limit_body e0 r) (eng_target e i) = outcome_at env e0 r n i"
    and "UpstreamLabel (eng_target e i) = UpstreamLabel (eng_target e0 i)"
  using assms(1) same_route_target [OF assms]
  by (simp_all add: same_route_def forward_def forward_request_def outcome_at_def rewriteRequest_def
      UpstreamLabel_def)

lemma nth_pick_range:
  "nth_pick env b n = (Inr i, b') \<Longrightarrow> i < length (Balancer_Upstreams b')"
  by (cases n) (auto dest!: lb.next_Inr split: prod.splits sum.splits)

text \<open>How the loop ends, from attempt \<open>n\<close> on.\<close>

definition ends_at :: "env \<Rightarrow> Engine \<Rightarrow> Request \<Rightarrow> writer \<Rightarrow> nat \<Rightarrow> writer \<times> Engine \<times> outcome \<Rightarrow> bool" where
  "ends_at env e r w m res \<longleftrightarrow>
     run_writer res = final_answer env e r w m \<and>
     (run_outcome res = Returned \<longrightarrow>
        m_Requests (eng_metrics (run_engine res)) = count_final env e r m (m_Requests (eng_metrics e)))"

lemma ends_at_answer:
  assumes "fst (http_Error msg code w) = final_answer env e0 r w m"
    and "final_labels env e0 r m = Some (st, u)" and "same_route e0 e"
  shows "ends_at env e0 r w m (answer msg code w e (count_request (limit_body e0 r) st u))"
  using assms
  by (auto simp: ends_at_def answer_def count_final_def same_route_def limit_body_def frame_simps
      split: prod.splits)

lemma nth_pick_Suc:
  "nth_pick env b n = (Inr i, b1) \<Longrightarrow>
   nth_pick env b (Suc n) = Balancer_Next (env_next env (Suc n))
     (Balancer_Release i (Balancer_MarkFailure (env_fail env n) i b1))"
  by simp

lemma Method_limit_body [simp]: "Method (limit_body e r) = Method r"
  by (simp add: limit_body_def)

lemma retried_may:
  assumes "nth_pick env (eng_lb e0) n = (Inr i, eng_lb e)" and "same_route e0 e"
    and "may_retry e n (limit_body e0 r) (forward env n e (limit_body e0 r) (eng_target e i))"
    and "\<not> (\<exists>err. forward env n e (limit_body e0 r) (eng_target e i) = Inl err \<and> isMaxBytesError err)"
  shows "retried env e0 r n \<and> int (Suc n) \<le> eng_maxRetries e0"
proof -
  note out = same_route_outcome(1) [OF assms(2) nth_pick_range [OF assms(1)]]
  have "retryable (outcome_at env e0 r n i)"
    using may_retry_retryable(1) [OF assms(3,4)] out by simp
  moreover have "isReplaySafeMethod (Method r)" "int n < eng_maxRetries e0"
    using may_retry_bound [OF assms(3)] assms(2,3) by (auto simp: same_route_def may_retry_def)
  ultimately show ?thesis using assms(1) by (simp add: retried_def)
qed

lemma retried_not_may:
  assumes "nth_pick env (eng_lb e0) n = (Inr i, eng_lb e)" and "same_route e0 e"
    and "\<not> may_retry e n (limit_body e0 r) (forward env n e (limit_body e0 r) (eng_target e i))"
  shows "\<not> retried env e0 r n"
proof
  assume "retried env e0 r n"
  then have "isReplaySafeMethod (Method (limit_body e0 r))" "retryable (outcome_at env e0 r n i)"
    "int n < eng_maxRetries e"
    using assms(1,2) by (auto simp: retried_def same_route_def)
  then show False
    using may_retry_retryable(2) assms(3) same_route_outcome(1) [OF assms(2) nth_pick_range [OF assms(1)]]
    by metis
qed

lemma serve_loop_ends:
  assumes "nth_pick env (eng_lb e0) n = (Inr i, eng_lb e)" and "same_route e0 e"
    and "int n \<le> eng_maxRetries e0"
  shows "\<exists>m \<ge> n. int m \<le> eng_maxRetries e0 \<and> (\<forall>k. n \<le> k \<and> k < m \<longrightarrow> retried env e0 r k) \<and>
           \<not> retried env e0 r m \<and> ends_at env e0 r w m (serve_loop env (limit_body e0 r) n i e w)"
  using assms
proof (induction n i e rule: serve_loop_rule [where env = env and r = "limit_body e0 r" and w = w])
  case (exhausted n i e)
  then show ?case by (simp add: same_route_def)
next
  case (too_large n i e err)
  note out = same_route_outcome [OF too_large(6) nth_pick_range [OF too_large(5)]]
  have "outcome_at env e0 r n i = Inl err" using too_large(2) out(1) by simp
  then have "ends_at env e0 r w n (serve_loop env (limit_body e0 r) n i e w)" "\<not> retried env e0 r n"
    using too_large
    by (auto simp: ends_at_def retried_def retryable_def final_answer_def final_labels_def count_final_def
        answer_def same_route_def frame_simps split: prod.splits)
  then show ?case using too_large(7) by (intro exI [of _ n]) auto
next
  case (no_target n i e x e2)
  note out = same_route_outcome [OF no_target(7) nth_pick_range [OF no_target(6)]]
  note again = same_route_retry [OF no_target(7,3)]
  have pick: "nth_pick env (eng_lb e0) (Suc n) = (Inl x, eng_lb e2)"
    using again nth_pick_Suc [OF no_target(6)] by simp
  have retried: "retried env e0 r n" and n: "int (Suc n) \<le> eng_maxRetries e0"
    using retried_may [OF no_target(6,7,2,5)] no_target(7) by auto
  have "ends_at env e0 r w (Suc n) (serve_loop env (limit_body e0 r) n i e w)" "\<not> retried env e0 r (Suc n)"
    unfolding no_target(4) bad_gateway_end_def
    using pick again
    by (auto simp: retried_def final_answer_def final_labels_def intro!: ends_at_answer)
  then show ?case
    using retried n by (intro exI [of _ "Suc n"]) (auto simp: le_Suc_eq less_Suc_eq)
next
  case (retry n i e j e2)
  note again = same_route_retry [OF retry(8,3)]
  have pick: "nth_pick env (eng_lb e0) (Suc n) = (Inr j, eng_lb e2)"
    using again nth_pick_Suc [OF retry(7)] by simp
  have retried: "retried env e0 r n" and n: "int (Suc n) \<le> eng_maxRetries e0"
    using retried_may [OF retry(7,8,2,5)] retry(8) by auto
  obtain m where "Suc n \<le> m" "int m \<le> eng_maxRetries e0" "\<forall>k. Suc n \<le> k \<and> k < m \<longrightarrow> retried env e0 r k"
    "\<not> retried env e0 r m" "ends_at env e0 r w m (serve_loop env (limit_body e0 r) (Suc n) j e2 w)"
    using retry(6) [OF pick _ n] again by blast
  then show ?case
    using retried retry(4) by (intro exI [of _ m]) (metis Suc_leD Suc_leI order_le_less)
next
  case (failed n i e err)
  note out = same_route_outcome [OF failed(7) nth_pick_range [OF failed(6)]]
  have o: "outcome_at env e0 r n i = Inl err" using failed(2) out(1) by simp
  have "ends_at env e0 r w n (serve_loop env (limit_body e0 r) n i e w)"
    unfolding failed(5) out(2)
    using failed o
    by (intro ends_at_answer) (auto simp: final_answer_def final_labels_def same_route_def frame_simps urls_failed Let_def)
  moreover have "\<not> retried env e0 r n" using retried_not_may [OF failed(6,7)] failed(2,4) by simp
  ultimately show ?case using failed(8) by (intro exI [of _ n]) auto
next
  case (relayed n i e resp)
  note out = same_route_outcome [OF relayed(6) nth_pick_range [OF relayed(5)]]
  have o: "outcome_at env e0 r n i = Inr resp" using relayed(2) out(1) by simp
  have "ends_at env e0 r w n (serve_loop env (limit_body e0 r) n i e w)"
    unfolding relayed(4)
    using relayed(5,6) o out(2)
    by (auto simp: ends_at_def relay_response_def final_answer_def final_labels_def count_final_def
        same_route_def limit_body_def frame_simps Let_def split: prod.splits if_splits)
  moreover have "\<not> retried env e0 r n" using retried_not_may [OF relayed(5,6)] relayed(2,3) by simp
  ultimately show ?case using relayed(7) by (intro exI [of _ n]) auto
qed

lemma engine_ends:
  assumes "\<not> isWebSocketUpgrade (limit_body e r)" and "0 \<le> eng_maxRetries e"
  shows "\<exists>n. int n \<le> eng_maxRetries e \<and> (\<forall>k < n. retried env e r k) \<and> \<not> retried env e r n \<and>
             ends_at env e r w n (Engine_ServeHTTP env r e w)"
proof (cases "Balancer_Next (env_next env 0) (eng_lb e)")
  case (Pair nx b)
  let ?e = "e\<lparr>eng_lb := b\<rparr>"
  have same: "same_route e ?e" using urls_next [OF Pair] by (simp add: same_route_def)
  show ?thesis
  proof (cases nx)
    case (Inl x)
    then have "\<not> retried env e r 0" "ends_at env e r w 0 (Engine_ServeHTTP env r e w)"
      using Pair same
      by (auto simp: retried_def Engine_ServeHTTP_def final_answer_def final_labels_def Let_def
          intro!: ends_at_answer)
    then show ?thesis using assms(2) by (intro exI [of _ 0]) simp
  next
    case (Inr i)
    then have "Engine_ServeHTTP env r e w = serve_loop env (limit_body e r) 0 i ?e w"
      using assms(1) Pair by (simp add: Engine_ServeHTTP_def Let_def)
    then show ?thesis using serve_loop_ends [of env e 0 i ?e r w] Pair Inr same assms(2) by auto
  qed
qed

section \<open>Properties\<close>

text \<open>
  C6. The answer to a request that is no upgrade, with a retry budget that is not negative, is
  determined by its attempts. There is an attempt \<open>n\<close> within the budget such that every attempt
  before it reached the target the balancer chose and ended there, for a replay-safe method, in a
  retryable transport error or a 502, 503 or 504, while attempt \<open>n\<close> is not retried; and the client
  is answered according to this attempt: 503 when already the first choice found no upstream, 502
  when a later one did, 413 when the request body was too large, 502 on any other error, and
  otherwise the response of the upstream, to the request forwarded to it, as \<open>writeResponse\<close>
  relays it.
\<close>

theorem client_answer:
  assumes "\<not> isWebSocketUpgrade (limit_body e r)" and "0 \<le> eng_maxRetries e"
    and "Engine_ServeHTTP env r e w = (w', e', out)"
  shows "\<exists>n. int n \<le> eng_maxRetries e \<and> (\<forall>k < n. retried env e r k) \<and> \<not> retried env e r n \<and>
             w' = final_answer env e r w n"
  using engine_ends [OF assms(1,2), of env w] assms(3) by (auto simp: ends_at_def)

text \<open>
  C36. A request that is no upgrade, has a retry budget that is not negative, and whose handler
  returns, is counted exactly once in the requests metric: under its route and method, the status
  it is answered with and the upstream that gave the answer, or no upstream when none was left.
  One refused with 413 is not counted at all.
\<close>

theorem request_counted_once:
  assumes "\<not> isWebSocketUpgrade (limit_body e r)" and "0 \<le> eng_maxRetries e"
    and "Engine_ServeHTTP env r e w = (w', e', Returned)"
  shows "\<exists>n. int n \<le> eng_maxRetries e \<and> (\<forall>k < n. retried env e r k) \<and> \<not> retried env e r n \<and>
             m_Requests (eng_metrics e') = count_final env e r n (m_Requests (eng_metrics e))"
  using engine_ends [OF assms(1,2), of env w] assms(3) by (auto simp: ends_at_def)

text \<open>The sample request is retried once and answered by the other upstream.\<close>

lemma sample_attempts:
  "retried (sample_env [Inl conn_reset, Inr (sample_response 200)]) (sample_engine 2)
     (sample_request ''GET'' []) 0"
  "\<not> retried (sample_env [Inl conn_reset, Inr (sample_response 200)]) (sample_engine 2)
     (sample_request ''GET'' []) 1"
  "final_labels (sample_env [Inl conn_reset, Inr (sample_response 200)]) (sample_engine 2)
     (sample_request ''GET'' []) 1 = Some (''200'', ''a'')"
  by code_simp+

lemma sample_last_attempt:
  assumes "\<forall>k < n. retried (sample_env [Inl conn_reset, Inr (sample_response 200)]) (sample_engine 2)
             (sample_request ''GET'' []) k"
    and "\<not> retried (sample_env [Inl conn_reset, Inr (sample_response 200)]) (sample_engine 2)
             (sample_request ''GET'' []) n"
  shows "n = 1"
  using assms sample_attempts(1,2) by (metis less_one linorder_neqE_nat)

theorem client_answer_witness:
  "run_writer (sample_run ''GET'' 2) = fst (writeResponse (sample_response 200) (sample_writer []))"
proof -
  let ?env = "sample_env [Inl conn_reset, Inr (sample_response 200)]"
    and ?r = "sample_request ''GET'' []" and ?e = "sample_engine 2"
  have c: "\<not> isWebSocketUpgrade (limit_body ?e ?r)" "0 \<le> eng_maxRetries ?e" by code_simp+
  from client_answer [OF c run_parts [OF sample_run_returned, unfolded sample_run_def]] sample_last_attempt
  have "run_writer (sample_run ''GET'' 2) = final_answer ?env ?e ?r (sample_writer []) 1"
    by (auto simp: sample_run_def)
  moreover have "fst (nth_pick ?env (eng_lb ?e) 1) = Inr 0" by code_simp
  moreover have "outcome_at ?env ?e ?r 1 i = Inr (sample_response 200)" for i
    by (simp add: outcome_at_def sample_env_def)
  ultimately show ?thesis by (simp add: final_answer_def)
qed

theorem request_counted_once_witness:
  "m_Requests (eng_metrics (run_engine (sample_run ''GET'' 2))) [''api'', ''GET'', ''200'', ''a''] = 1"
proof -
  let ?env = "sample_env [Inl conn_reset, Inr (sample_response 200)]"
    and ?r = "sample_request ''GET'' []" and ?e = "sample_engine 2"
  have c: "\<not> isWebSocketUpgrade (limit_body ?e ?r)" "0 \<le> eng_maxRetries ?e" by code_simp+
  from request_counted_once [OF c run_parts [OF sample_run_returned, unfolded sample_run_def]]
    sample_last_attempt
  have "m_Requests (eng_metrics (run_engine (sample_run ''GET'' 2)))
      = count_final ?env ?e ?r 1 (m_Requests (eng_metrics ?e))"
    by (auto simp: sample_run_def)
  also have "\<dots> = inc [''api'', ''GET'', ''200'', ''a''] (\<lambda>_. 0)"
    unfolding count_final_def sample_attempts(3)
    by (simp add: sample_engine_def NewEngine_def NewRegistry_def sample_request_def)
  finally show ?thesis by (simp add: inc_def)
qed

end
