(* ===== verification/Failover.thy ===== *)
theory Failover
  imports Client_Answer
begin

text \<open>
  Failover and accounting of the proxy engine: that a request survives failing attempts as long
  as one upstream stays in rotation, and what the engine books on the circuit breakers and in
  the metrics for each outcome.
\<close>

section \<open>An upstream that stays in rotation\<close>

text \<open>Upstream \<open>k\<close> is in rotation and stays so through \<open>m\<close> more failures.\<close>

definition robust_at :: "nat \<Rightarrow> nat \<Rightarrow> Balancer \<Rightarrow> bool" where
  "robust_at k m b \<longleftrightarrow>
     k < length (Balancer_Upstreams b) \<and>
     (let u = Balancer_Upstreams b ! k in
        Healthy u \<and> State u = CircuitClosed \<and> FailureCount u + int m < effThreshold u)"

lemma robust_at_next:
  assumes "robust_at k m b"
  shows "\<exists>i b'. Balancer_Next now b = (Inr i, b') \<and> robust_at k m b'"
proof -
  let ?u = "Balancer_Upstreams b ! k"
  have k: "k < length (Balancer_Upstreams b)" and u: "Healthy ?u" "State ?u = CircuitClosed"
    using assms by (simp_all add: robust_at_def Let_def)
  have "admitted now ?u" using u by (simp add: admitted_iff)
  then obtain i b' where nxt: "Balancer_Next now b = (Inr i, b')"
    using lb.next_iff_admitted [of now b] k by (meson nth_mem)
  have "after_admit now ?u = ?u" using u by (simp add: after_admit_def admit_def)
  then have "robust_at k m b'"
    using assms lb.next_Inr [OF nxt] k
    by (auto simp: robust_at_def slot_simps add_conns_def effThreshold_def State_def Let_def)
  with nxt show ?thesis by blast
qed

lemma robust_at_failed:
  assumes "robust_at k (Suc m) b"
  shows "robust_at k m (Balancer_Release i (Balancer_MarkFailure now i b))"
proof -
  let ?u = "Balancer_Upstreams b ! k"
  have k: "k < length (Balancer_Upstreams b)" and u: "Healthy ?u" "State ?u = CircuitClosed"
    "FailureCount ?u + int (Suc m) < effThreshold ?u"
    using assms by (simp_all add: robust_at_def Let_def)
  have "Balancer_Upstreams (Balancer_Release i (Balancer_MarkFailure now i b)) ! k
      = (if k = i then release_target (RecordFailure now ?u) else ?u)"
    using k by (simp add: lb.upstreams_release lb.upstreams_mark_failure slot_simps)
  moreover have "RecordFailure now ?u = ?u\<lparr>FailureCount := FailureCount ?u + 1\<rparr>"
    using u by (simp add: RecordFailure_def State_def Let_def)
  moreover have "release_target (?u\<lparr>FailureCount := c\<rparr>)
      = ?u\<lparr>FailureCount := c, ActiveConns := ActiveConns ?u - 1\<rparr>" for c
    using u(2) by (simp add: release_target_def add_conns_def State_def Let_def)
  ultimately have "Balancer_Upstreams (Balancer_Release i (Balancer_MarkFailure now i b)) ! k
      = (if k = i then ?u\<lparr>FailureCount := FailureCount ?u + 1, ActiveConns := ActiveConns ?u - 1\<rparr>
         else ?u)"
    by (simp only:)
  then show ?thesis
    using k u by (cases "k = i") (auto simp: robust_at_def effThreshold_def State_def)
qed

lemma serve_loop_failover:
  assumes "isReplaySafeMethod (Method r)"
    and "\<And>k req. k < K \<Longrightarrow> retryable (env_rt env k req)"
    and "\<And>req. env_rt env K req = Inr resp" and "\<not> retryable (Inr resp)"
  shows "n \<le> K \<Longrightarrow> int K \<le> eng_maxRetries e \<Longrightarrow> robust_at t (K - n) (eng_lb e) \<Longrightarrow>
         fst (serve_loop env r n i e w) = fst (writeResponse resp w)"
proof (induction n i e rule: serve_loop_rule [where env = env and r = r and w = w])
  case (too_large n i e err)
  then show ?case
    using assms(2) [of n "forward_request e r (eng_target e i)"] assms(3)
    by (cases "n = K") (auto simp: forward_def retryable_def)
next
  case (no_target n i e x e2)
  have "n \<noteq> K"
    using no_target(2) assms(3,4) may_retry_retryable(1) by (auto simp: forward_def)
  then have "robust_at t (K - Suc n) (eng_lb (failed_engine env n i e))"
    using no_target(6,8) robust_at_failed [of t "K - Suc n" "eng_lb e"]
    by (simp add: frame_simps Suc_diff_Suc)
  from robust_at_next [OF this, of "env_next env (Suc n)"] show ?case
    using retry_next_frame [OF no_target(3)] by simp
next
  case (retry n i e j e2)
  have "n \<noteq> K"
    using retry(2) assms(3,4) may_retry_retryable(1) by (auto simp: forward_def)
  then have "robust_at t (K - Suc n) (eng_lb (failed_engine env n i e))"
    using retry(7,9) robust_at_failed [of t "K - Suc n" "eng_lb e"]
    by (simp add: frame_simps Suc_diff_Suc)
  from robust_at_next [OF this, of "env_next env (Suc n)"]
  have "robust_at t (K - Suc n) (eng_lb e2)"
    using retry_next_frame [OF retry(3)] by simp
  then show ?case
    using retry \<open>n \<noteq> K\<close> retry_next_frame [OF retry(3)] by (simp add: frame_simps)
next
  case (failed n i e err)
  then show ?case
    using assms(3) assms(2) [of n "forward_request e r (eng_target e i)"]
      may_retry_retryable(2) [OF assms(1), of "Inl err" n e]
    by (cases "n = K") (auto simp: forward_def)
next
  case (relayed n i e resp')
  then have "n = K"
    using assms(2) [of n "forward_request e r (eng_target e i)"]
      may_retry_retryable(2) [OF assms(1), of "Inr resp'" n e]
    by (cases "n = K") (auto simp: forward_def)
  then show ?case using relayed assms(3) by (simp add: forward_def frame_simps)
qed simp

section \<open>Properties\<close>

text \<open>
  C7. Failover. A request with a replay-safe method whose first attempts all end in a retryable
  way, a retryable transport error or a 502, 503 or 504, is answered with the first other
  answer, completely, provided the retry limit admits that attempt and one upstream is in
  rotation with enough failures to spare. So failing upstreams are not visible to the client.
\<close>

theorem failover:
  assumes "isReplaySafeMethod (Method r)" and "\<not> isWebSocketUpgrade (limit_body e r)"
    and "\<forall>k < K. \<forall>req. retryable (env_rt env k req)"
    and "\<forall>req. env_rt env K req = Inr resp" and "\<not> retryable (Inr resp)"
    and "int K \<le> eng_maxRetries e" and "robust_at t K (eng_lb e)"
  shows "fst (Engine_ServeHTTP env r e w) = fst (writeResponse resp w)"
proof -
  obtain i b where nxt: "Balancer_Next (env_next env 0) (eng_lb e) = (Inr i, b)"
    and b: "robust_at t K b"
    using robust_at_next [OF assms(7)] by blast
  have "fst (serve_loop env (limit_body e r) 0 i (e\<lparr>eng_lb := b\<rparr>) w) = fst (writeResponse resp w)"
    using assms b by (intro serve_loop_failover [where K = K and t = t]) (auto simp: limit_body_def)
  then show ?thesis using nxt assms(2) by (simp add: Engine_ServeHTTP_def Let_def)
qed

theorem failover_witness:
  "run_writer (sample_run ''GET'' 2) = fst (writeResponse (sample_response 200) (sample_writer []))"
proof -
  let ?env = "sample_env [Inl conn_reset, Inr (sample_response 200)]"
    and ?r = "sample_request ''GET'' []" and ?e = "sample_engine 2"
  have c: "isReplaySafeMethod (Method ?r)" "\<not> isWebSocketUpgrade (limit_body ?e ?r)"
    "\<not> retryable (Inr (sample_response 200))" "int 1 \<le> eng_maxRetries ?e" "robust_at 0 1 (eng_lb ?e)"
    by code_simp+
  have "retryable (Inl conn_reset)" by code_simp
  then have "\<forall>k < 1. \<forall>req. retryable (env_rt ?env k req)"
    "\<forall>req. env_rt ?env 1 req = Inr (sample_response 200)"
    by (simp_all add: sample_env_def)
  then show ?thesis
    using failover [OF c(1,2) _ _ c(3-5), of ?env "sample_writer []"]
    by (simp add: sample_run_def run_writer_def)
qed

section \<open>Accounting\<close>

text \<open>
  An answer that is not retried counts as a success of the upstream, whatever its status: when
  the upstream answers a request with a method that is not replay-safe, with 500 or 503 or any
  other status, its failure count is reset to zero and no failure is counted in the metrics.
  So an upstream that fails every such request never trips its circuit.
\<close>

lemma unretried_answer_is_success:
  assumes "\<not> isReplaySafeMethod (Method r)" and "\<not> isWebSocketUpgrade (limit_body e r)"
    and "0 \<le> eng_maxRetries e" and "Balancer_Next (env_next env 0) (eng_lb e) = (Inr i, b)"
    and "\<forall>req. env_rt env 0 req = Inr resp"
    and "Engine_ServeHTTP env r e w = (w', e', Returned)"
  shows "FailureCount (eng_target e' i) = 0 \<and>
         m_Failures (eng_metrics e') = m_Failures (eng_metrics e)"
proof -
  let ?r = "limit_body e r" and ?e = "e\<lparr>eng_lb := b\<rparr>"
  have "Method ?r = Method r" by (simp add: limit_body_def)
  then have may: "\<not> may_retry x 0 ?r (Inr resp)" for x
    using assms(1) by (simp add: may_retry_def shouldRetry_def)
  have run: "relay_response ?r i resp ?e w = (w', e', Returned)"
    using assms(2-6) may by (simp add: Engine_ServeHTTP_def serve_loop.simps forward_def Let_def)
  have i: "i < length (Balancer_Upstreams b)"
    using lb.next_Inr [OF assms(4)] by simp
  have "eng_target e' i = release_target (RecordSuccess (Balancer_Upstreams b ! i))"
    using relay_Returned [OF run] i by (simp add: eng_target_def lb.upstreams_release slot_simps)
  moreover have "FailureCount (release_target (RecordSuccess u)) = 0" for u
    by (simp add: release_target_def RecordSuccess_def add_conns_def State_def Let_def)
  moreover have "m_Failures (eng_metrics e') = m_Failures (eng_metrics e)"
    using run by (auto simp: relay_response_def frame_simps Let_def split: prod.splits if_splits)
  ultimately show ?thesis by simp
qed

lemma unretried_answer_is_success_instance:
  "FailureCount (eng_target (run_engine (Engine_ServeHTTP (sample_env [Inr (sample_response 503)])
     (sample_request ''POST'' []) (sample_engine 2) (sample_writer []))) 1) = 0"
proof -
  let ?env = "sample_env [Inr (sample_response 503)]" and ?r = "sample_request ''POST'' []"
    and ?e = "sample_engine 2"
  let ?run = "Engine_ServeHTTP ?env ?r ?e (sample_writer [])"
  let ?nx = "Balancer_Next (env_next ?env 0) (eng_lb ?e)"
  have "fst ?nx = Inr 1" by code_simp
  then have nxt: "?nx = (Inr 1, snd ?nx)" by (cases ?nx) simp
  have c: "\<not> isReplaySafeMethod (Method ?r)" "\<not> isWebSocketUpgrade (limit_body ?e ?r)"
    "0 \<le> eng_maxRetries ?e" "run_outcome ?run = Returned"
    by code_simp+
  have "\<forall>req. env_rt ?env 0 req = Inr (sample_response 503)" by (simp add: sample_env_def)
  from unretried_answer_is_success [OF c(1-3) nxt this run_parts [OF c(4)]]
  show ?thesis by simp
qed

text \<open>
  An upgrade request whose writer cannot be hijacked is booked as a failure of an upstream that
  was never contacted: the client gets 500, the failure metric of the upstream is incremented
  and its breaker is told of a failure.
\<close>

lemma unhijackable_upgrade_blames_upstream:
  assumes "isWebSocketUpgrade (limit_body e r)" and "\<not> is_Hijacker (w_layers w) (w_base w)"
    and "Balancer_Next (env_next env 0) (eng_lb e) = (Inr i, b)"
    and "Engine_ServeHTTP env r e w = (w', e', Returned)"
  shows "w' = fst (http_Error ''hijacking not supported'' 500 w) \<and>
         eng_lb e' = Balancer_Release i (Balancer_MarkFailure (env_fail env 0) i b) \<and>
         m_Failures (eng_metrics e')
           = inc [eng_routeName e, UpstreamLabel (Balancer_Upstreams b ! i)] (m_Failures (eng_metrics e))"
proof -
  have run: "serve_upgrade env (limit_body e r) i (e\<lparr>eng_lb := b\<rparr>) w = (w', e', Returned)"
    using assms by (simp add: Engine_ServeHTTP_def Let_def)
  then have e': "e' = release i (count_failure (env_fail env 0) i (e\<lparr>eng_lb := b\<rparr>))"
    and w': "w' = fst (http_Error ''hijacking not supported'' 500 w)"
    using assms(2)
    by (auto simp: serve_upgrade_def handleWebSocket_def ws_return_def Let_def
        split: prod.splits if_splits)
  then show ?thesis
    by (simp add: frame_simps count_failure_def metrics_defs eng_target_def Let_def)
qed

lemma unhijackable_upgrade_blames_upstream_instance:
  "FailureCount (eng_target (run_engine (Engine_ServeHTTP (sample_env [])
     (sample_request ''GET'' [(''Connection'', [''Upgrade'']), (''Upgrade'', [''websocket''])])
     (sample_engine 2) (sample_writer [Transform (newTransformResponseWriter [] [] [])]))) 1) = 1"
proof -
  let ?env = "sample_env []" and ?e = "sample_engine 2"
    and ?r = "sample_request ''GET'' [(''Connection'', [''Upgrade'']), (''Upgrade'', [''websocket''])]"
    and ?w = "sample_writer [Transform (newTransformResponseWriter [] [] [])]"
  let ?run = "Engine_ServeHTTP ?env ?r ?e ?w"
  let ?nx = "Balancer_Next (env_next ?env 0) (eng_lb ?e)"
  have "fst ?nx = Inr 1" by code_simp
  then have nxt: "?nx = (Inr 1, snd ?nx)" by (cases ?nx) simp
  have c: "isWebSocketUpgrade (limit_body ?e ?r)" "\<not> is_Hijacker (w_layers ?w) (w_base ?w)"
    "run_outcome ?run = Returned"
    by code_simp+
  have "FailureCount (Balancer_Upstreams (Balancer_Release 1 (Balancer_MarkFailure (env_fail ?env 0) 1
      (snd ?nx))) ! 1) = 1"
    by code_simp
  then show ?thesis
    using unhijackable_upgrade_blames_upstream [OF c(1,2) nxt run_parts [OF c(3)]]
    by (simp add: eng_target_def)
qed

end
