(* ===== verification/Gzip_Props.thy ===== *)
theory Gzip_Props
  imports Middleware Failover
begin

text \<open>
  Correctness of the gzip middleware on top of any chain of writers: what reaches the writer
  below is the body itself, or the encoding of the whole body under a header that says so.
\<close>

section \<open>Writing through the gzip layer\<close>

abbreviation gzip_mark :: "header \<Rightarrow> header" where
  "gzip_mark h \<equiv> Add ''Vary'' ''Accept-Encoding''
                    (Del ''Content-Length'' (Set ''Content-Encoding'' ''gzip'' h))"

definition gzip_match :: "gzipResponseWriter \<Rightarrow> base_writer \<Rightarrow> bool" where
  "gzip_match g b = matchContentType (gzw_cfg g) (Get (bw_header b) ''Content-Type'')"

text \<open>As long as the buffer stays short, chunks are only collected.\<close>

lemma copy_chunks_short:
  assumes "\<not> gzw_activated g"
    and "int (length (gzw_buf g @ concat cs)) < gz_MinLength (gzw_cfg g)"
  shows "copy_chunks (cs @ ds) err (Gzip g # ls) b =
         (let (ls', b', n, res) =
            copy_chunks ds err (Gzip (g\<lparr>gzw_buf := gzw_buf g @ concat cs\<rparr>) # ls) b
          in (ls', b', length (concat cs) + n, res))"
  using assms
proof (induction cs arbitrary: g)
  case Nil
  then show ?case by simp
next
  case (Cons c cs)
  let ?g = "g\<lparr>gzw_buf := gzw_buf g @ c\<rparr>"
  have "layers_Write c (Gzip g # ls) b = (Gzip ?g # ls, b, Wrote (length c))"
    using Cons.prems by simp
  moreover have "copy_chunks (cs @ ds) err (Gzip ?g # ls) b =
         (let (ls', b', n, res) =
            copy_chunks ds err (Gzip (?g\<lparr>gzw_buf := gzw_buf ?g @ concat cs\<rparr>) # ls) b
          in (ls', b', length (concat cs) + n, res))"
    using Cons.prems by (intro Cons.IH) auto
  ultimately show ?case by (simp add: Let_def case_prod_beta)
qed

text \<open>Once it is active with an encoder, chunks go to the encoder.\<close>

lemma copy_chunks_active:
  assumes "gzw_activated g" and "gzw_gz g = Some data"
  shows "copy_chunks cs err (Gzip g # ls) b =
         (Gzip (g\<lparr>gzw_gz := Some (data @ concat cs)\<rparr>) # ls, b, length (concat cs),
          if err then CopyError else Copied)"
  using assms
proof (induction cs arbitrary: g data)
  case Nil
  then show ?case by simp
next
  case (Cons c cs)
  then show ?case by (simp add: Let_def)
qed

text \<open>Active without an encoder, the next chunk panics.\<close>

lemma copy_chunks_nil:
  assumes "gzw_activated g" and "gzw_gz g = None" and "cs \<noteq> []"
  shows "copy_chunks cs err (Gzip g # ls) b = (Gzip g # ls, b, 0, CopyPanic)"
  using assms by (cases cs) auto

text \<open>A body splits at the chunk with which the buffer becomes long enough.\<close>

lemma chunk_split:
  assumes "m \<le> int (length (concat cs))" and "0 < m"
  obtains xs c ys where "cs = xs @ c # ys" "int (length (concat xs)) < m"
    "m \<le> int (length (concat xs @ c))"
  using assms
proof (induction cs arbitrary: thesis rule: rev_induct)
  case Nil
  then show ?case by simp
next
  case (snoc c cs)
  show ?case
  proof (cases "m \<le> int (length (concat cs))")
    case True
    then obtain xs d ys where "cs = xs @ d # ys" "int (length (concat xs)) < m"
      "m \<le> int (length (concat xs @ d))"
      using snoc.IH snoc.prems(3) by blast
    then show ?thesis by (intro snoc.prems(1) [of xs d "ys @ [c]"]) auto
  next
    case False
    then show ?thesis using snoc.prems by (intro snoc.prems(1) [of cs c "[]"]) auto
  qed
qed

section \<open>Recorders below\<close>

text \<open>Recorders count, and hand everything on to the server's writer.\<close>

fun is_Recorder :: "layer \<Rightarrow> bool" where
  "is_Recorder (Recorder r) = True"
| "is_Recorder _ = False"

lemma recorders_WriteHeader:
  "list_all is_Recorder ls \<Longrightarrow>
   \<exists>ls'. layers_WriteHeader code ls b = (ls', base_WriteHeader code b) \<and> list_all is_Recorder ls'"
proof (induction ls)
  case (Cons l ls)
  then show ?case by (cases l) auto
qed simp

lemma recorders_Write:
  "list_all is_Recorder ls \<Longrightarrow>
   \<exists>ls'. layers_Write bs ls b = (ls', base_Write bs b) \<and> list_all is_Recorder ls'"
proof (induction ls)
  case (Cons l ls)
  then show ?case by (cases l; cases "base_Write bs b") (auto simp: Let_def)
qed (simp add: case_prod_beta)

lemma base_Write_no_panic: "snd (base_Write bs b) \<noteq> WritePanic"
  by (simp add: base_Write_def Let_def)

text \<open>What the server's writer has after a header and some writes, if nothing is in the way.\<close>

definition writable :: "int \<Rightarrow> base_writer \<Rightarrow> bool" where
  "writable st b \<longleftrightarrow>
     bw_sent b = None \<and> \<not> bw_broken b \<and> \<not> invalid_code st \<and> \<not> informational st \<and>
     (bw_timeout b \<or> bodyAllowed st)"

lemma base_header_write:
  assumes "writable st b"
  shows "base_Write bs (base_WriteHeader st b) =
         (b\<lparr>bw_sent := Some (st, bw_header b), bw_body := bw_body b @ bs\<rparr>, Wrote (length bs))"
  using assms by (auto simp: writable_def base_WriteHeader_def base_Write_def Let_def)

lemma base_write_more:
  assumes "bw_sent b = Some (st, h)" and "\<not> bw_broken b" and "bw_timeout b \<or> bodyAllowed st"
  shows "base_Write bs b = (b\<lparr>bw_body := bw_body b @ bs\<rparr>, Wrote (length bs))"
  using assms by (auto simp: base_WriteHeader_def base_Write_def Let_def)

section \<open>The whole body\<close>

text \<open>A body is copied through a fresh gzip writer, and the middleware closes it.\<close>

definition gzip_relay ::
  "gzipResponseWriter \<Rightarrow> string list \<Rightarrow> layer list \<Rightarrow> base_writer
     \<Rightarrow> base_writer \<times> copy_result \<times> write_result" where
  "gzip_relay g cs ls b =
     (let (ls1, b1, n, res) = copy_chunks cs False (Gzip g # ls) b
      in case ls1 of
           Gzip g1 # ls2 \<Rightarrow> (let (g2, ls3, b3, r) = gzip_close g1 ls2 b1 in (b3, res, r))
         | _ \<Rightarrow> (b1, res, Wrote 0))"

definition fresh_gzip :: "gzipResponseWriter \<Rightarrow> bool" where
  "fresh_gzip g \<longleftrightarrow> \<not> gzw_activated g \<and> \<not> gzw_headersSent g \<and> gzw_gz g = None \<and> gzw_buf g = [] \<and>
                   gzw_status g \<noteq> 0 \<and> 0 < gz_MinLength (gzw_cfg g)"

lemma gzip_relay_short:
  assumes "fresh_gzip g" and "list_all is_Recorder ls" and "writable (gzw_status g) b"
    and "int (length (concat cs)) < gz_MinLength (gzw_cfg g)"
  shows "gzip_relay g cs ls b =
         (b\<lparr>bw_sent := Some (gzw_status g, bw_header b), bw_body := bw_body b @ concat cs\<rparr>, Copied,
          Wrote (length (concat cs)))"
proof -
  obtain ls1 where h: "layers_WriteHeader (gzw_status g) ls b = (ls1, base_WriteHeader (gzw_status g) b)"
    and ls1: "list_all is_Recorder ls1"
    using recorders_WriteHeader [OF assms(2)] by blast
  obtain ls2 where w: "layers_Write (concat cs) ls1 (base_WriteHeader (gzw_status g) b)
      = (ls2, base_Write (concat cs) (base_WriteHeader (gzw_status g) b))"
    using recorders_Write [OF ls1] by blast
  have "copy_chunks cs False (Gzip g # ls) b
      = (Gzip (g\<lparr>gzw_buf := concat cs\<rparr>) # ls, b, length (concat cs), Copied)"
    using copy_chunks_short [of g cs "[]" False ls b] assms(1,4) by (simp add: fresh_gzip_def)
  moreover have "base_WriteHeader (gzw_status g) b
      = b\<lparr>bw_sent := Some (gzw_status g, bw_header b)\<rparr>"
    using assms(3) by (simp add: writable_def base_WriteHeader_def)
  moreover have "\<not> invalid_code (gzw_status g)" using assms(3) by (simp add: writable_def)
  ultimately show ?thesis
    using assms(1) h w base_header_write [OF assms(3), of "concat cs"]
    by (auto simp: gzip_relay_def gzip_close_def flushHeaders_def flushHeaders_panics_def fresh_gzip_def Let_def)
qed

lemma gzip_activate_match:
  assumes "fresh_gzip g" and "list_all is_Recorder ls" and "writable (gzw_status g) b"
    and "gz_MinLength (gzw_cfg g) \<le> int (length (buf @ c))"
    and "gzip_match g b" and "\<not> gzip_nil_writer g b"
  shows "\<exists>g' ls'. layers_Write c (Gzip (g\<lparr>gzw_buf := buf\<rparr>) # ls) b =
           (Gzip g' # ls',
            b\<lparr>bw_header := gzip_mark (bw_header b),
              bw_sent := Some (gzw_status g, gzip_mark (bw_header b)),
              bw_body := bw_body b @ cd_head (gzw_codec g)\<rparr>, Wrote (length c)) \<and>
           gzw_activated g' \<and> gzw_gz g' = Some (buf @ c) \<and> gzw_headed g' \<and> gzw_codec g' = gzw_codec g \<and>
           list_all is_Recorder ls'"
proof -
  let ?b = "b\<lparr>bw_header := gzip_mark (bw_header b)\<rparr>"
  have wr: "writable (gzw_status g) ?b" using assms(3) by (simp add: writable_def)
  obtain ls1 where h: "layers_WriteHeader (gzw_status g) ls ?b = (ls1, base_WriteHeader (gzw_status g) ?b)"
    and ls1: "list_all is_Recorder ls1"
    using recorders_WriteHeader [OF assms(2)] by blast
  obtain ls2 where w: "layers_Write (cd_head (gzw_codec g)) ls1 (base_WriteHeader (gzw_status g) ?b)
      = (ls2, base_Write (cd_head (gzw_codec g)) (base_WriteHeader (gzw_status g) ?b))"
    and ls2: "list_all is_Recorder ls2"
    using recorders_Write [OF ls1] by blast
  have "\<not> gzip_nil_writer (g\<lparr>gzw_buf := buf @ c\<rparr>) b"
    using assms(6) by (simp add: gzip_nil_writer_def)
  moreover have "\<not> invalid_code (gzw_status g)" using assms(3) by (simp add: writable_def)
  ultimately show ?thesis
    using assms(1,4,5) h w ls2 base_header_write [OF wr, of "cd_head (gzw_codec g)"]
    by (simp add: fresh_gzip_def gzip_decide_def gzip_match_def flushHeaders_def flushHeaders_panics_def Let_def)
qed

lemma gzip_relay_match:
  assumes "fresh_gzip g" and "list_all is_Recorder ls" and "writable (gzw_status g) b"
    and "gz_MinLength (gzw_cfg g) \<le> int (length (concat cs))"
    and "gzip_match g b" and "\<not> gzip_nil_writer g b"
  shows "gzip_relay g cs ls b =
         (b\<lparr>bw_header := gzip_mark (bw_header b),
            bw_sent := Some (gzw_status g, gzip_mark (bw_header b)),
            bw_body := bw_body b @ cd_head (gzw_codec g) @ cd_rest (gzw_codec g) (concat cs)\<rparr>, Copied,
          Wrote (length (cd_rest (gzw_codec g) (concat cs))))"
proof -
  obtain xs c ys where cs: "cs = xs @ c # ys" and short: "int (length (concat xs)) < gz_MinLength (gzw_cfg g)"
    and long: "gz_MinLength (gzw_cfg g) \<le> int (length (concat xs @ c))"
    using chunk_split [OF assms(4)] assms(1) unfolding fresh_gzip_def by blast
  obtain g' ls' where act: "layers_Write c (Gzip (g\<lparr>gzw_buf := concat xs\<rparr>) # ls) b =
           (Gzip g' # ls',
            b\<lparr>bw_header := gzip_mark (bw_header b),
              bw_sent := Some (gzw_status g, gzip_mark (bw_header b)),
              bw_body := bw_body b @ cd_head (gzw_codec g)\<rparr>, Wrote (length c))" (is "_ = (_, ?b1, _)")
    and g': "gzw_activated g'" "gzw_gz g' = Some (concat xs @ c)" "gzw_headed g'" "gzw_codec g' = gzw_codec g"
    and ls': "list_all is_Recorder ls'"
    using gzip_activate_match [OF assms(1-3) long assms(5,6)] by blast
  let ?g2 = "g'\<lparr>gzw_gz := Some (concat cs)\<rparr>"
  have copy: "copy_chunks cs False (Gzip g # ls) b
      = (Gzip ?g2 # ls', ?b1, length (concat cs), Copied)"
    using copy_chunks_short [of g xs "c # ys" False ls b] assms(1) short act
      copy_chunks_active [OF g'(1,2), of ys False ls' ?b1] cs
    by (simp add: fresh_gzip_def)
  obtain ls2 where w: "layers_Write (cd_rest (gzw_codec g) (concat cs)) ls' ?b1
      = (ls2, base_Write (cd_rest (gzw_codec g) (concat cs)) ?b1)"
    using recorders_Write [OF ls'] by blast
  have "base_Write (cd_rest (gzw_codec g) (concat cs)) ?b1
      = (?b1\<lparr>bw_body := bw_body ?b1 @ cd_rest (gzw_codec g) (concat cs)\<rparr>,
         Wrote (length (cd_rest (gzw_codec g) (concat cs))))"
    using assms(3) by (intro base_write_more [of _ "gzw_status g"]) (auto simp: writable_def)
  then show ?thesis using copy w g' by (simp add: gzip_relay_def gzip_close_def)
qed

section \<open>Properties\<close>

lemma gzip_mark_vals:
  "header_vals (gzip_mark h) ''Content-Encoding'' = [''gzip'']"
  "header_vals (gzip_mark h) ''Content-Length'' = []"
  "''Accept-Encoding'' \<in> set (header_vals (gzip_mark h) ''Vary'')"
proof -
  have k: "CanonicalHeaderKey ''Vary'' = ''Vary''"
    "CanonicalHeaderKey ''Content-Encoding'' = ''Content-Encoding''"
    "CanonicalHeaderKey ''Content-Length'' = ''Content-Length''"
    by code_simp+
  show "header_vals (gzip_mark h) ''Content-Encoding'' = [''gzip'']"
    "header_vals (gzip_mark h) ''Content-Length'' = []"
    "''Accept-Encoding'' \<in> set (header_vals (gzip_mark h) ''Vary'')"
    by (simp_all add: header_simps k)
qed

text \<open>A handler that relays a response, as the engine does at the end of an attempt.\<close>

definition relaying :: "Response \<Rightarrow> 's handler" where
  "relaying resp r w s =
     (let (w1, res) = writeResponse resp w in (w1, s, if res = CopyPanic then Panicked else Returned))"

definition relayed_header :: "Response \<Rightarrow> writer \<Rightarrow> header" where
  "relayed_header resp w = copyHeaders (removeHopByHopHeaders (RespHeader resp)) (w_header w)"

text \<open>A response the rest of the chain can take, without trailers.\<close>

definition relayable :: "Response \<Rightarrow> writer \<Rightarrow> bool" where
  "relayable resp w \<longleftrightarrow>
     list_all is_Recorder (w_layers w) \<and> writable (StatusCode resp) (w_base w) \<and> bw_body (w_base w) = [] \<and>
     Trailer resp = [] \<and> \<not> RespBodyErr resp"

lemma write_gzip_head: "\<exists>g' ls' b' res. layers_Write c (Gzip g # ls) b = (Gzip g' # ls', b', res)"
  by (auto simp: Let_def split: option.split)

lemma copy_gzip_head:
  "\<exists>g' ls' b' n res. copy_chunks cs err (Gzip g # ls) b = (Gzip g' # ls', b', n, res)"
proof (induction cs arbitrary: g ls b)
  case (Cons c cs)
  obtain g1 ls1 b1 res where "layers_Write c (Gzip g # ls) b = (Gzip g1 # ls1, b1, res)"
    using write_gzip_head by blast
  then show ?case using Cons [of g1 ls1 b1] by (cases res) (auto simp: Let_def)
qed simp

text \<open>Relaying a response inside the middleware, for a client that accepts gzip.\<close>

lemma relaying_gzip:
  assumes "relayable resp w" and "acceptsGzip r" and "0 < gz_MinLength cfg"
    and relay: "gzip_relay ((newGzipWriter cfg codec)\<lparr>gzw_status := StatusCode resp\<rparr>) (RespBody resp)
      (w_layers w) ((w_base w)\<lparr>bw_header := relayed_header resp w\<rparr>) = (b', Copied, Wrote n)"
  shows "\<exists>w'. GzipMiddleware cfg codec (relaying resp) r w s = (w', s, Returned) \<and> w_base w' = b'"
proof -
  let ?g = "(newGzipWriter cfg codec)\<lparr>gzw_status := StatusCode resp\<rparr>"
  let ?b = "(w_base w)\<lparr>bw_header := relayed_header resp w\<rparr>"
  let ?w = "push_layer (Gzip (newGzipWriter cfg codec)) w"
  obtain g1 ls1 b1 k res where copy: "copy_chunks (RespBody resp) False (Gzip ?g # w_layers w) ?b
      = (Gzip g1 # ls1, b1, k, res)"
    using copy_gzip_head by blast
  obtain g2 ls2 b2 r2 where close: "gzip_close g1 ls1 b1 = (g2, ls2, b2, r2)" using prod_cases4 by blast
  have res: "res = Copied" "b2 = b'" "r2 = Wrote n"
    using relay copy close by (simp_all add: gzip_relay_def)
  have "writeResponse resp ?w = (\<lparr>w_layers = Gzip g1 # ls1, w_base = b1\<rparr>, Copied)"
    using assms(1) copy res(1)
    by (simp add: writeResponse_def relayable_def relayed_header_def push_layer_def w_set_header_def
        w_WriteHeader_def w_WriteHeader_panics_def w_Copy_def w_Flush_def w_header_def copyTrailers_def Let_def)
  then show ?thesis
    using assms(2,3) close res
    by (simp add: GzipMiddleware_def relaying_def pop_layer_def)
qed

text \<open>Relaying it through recorders only.\<close>

lemma copy_base:
  assumes "bw_sent b = Some (st, h)" and "\<not> bw_broken b" and "bw_timeout b \<or> bodyAllowed st"
  shows "copy_chunks cs False [] b = ([], b\<lparr>bw_body := bw_body b @ concat cs\<rparr>, length (concat cs), Copied)"
  using assms
proof (induction cs arbitrary: b)
  case (Cons c cs)
  then show ?case using base_write_more [OF Cons.prems, of c] Cons.IH [of "b\<lparr>bw_body := bw_body b @ c\<rparr>"] by simp
qed simp

lemma recorders_Copy:
  "list_all is_Recorder ls \<Longrightarrow> copy_chunks cs err [] b = ([], b', n, res) \<Longrightarrow>
   \<exists>ls'. io_Copy cs err ls b = (ls', b', n, res) \<and> list_all is_Recorder ls'"
proof (induction ls)
  case (Cons l ls)
  then show ?case by (cases l) auto
qed simp

lemma Flush_sent:
  "bw_sent b = Some x \<Longrightarrow> bw_sent (layers_Flush ls b) = Some x \<and> bw_body (layers_Flush ls b) = bw_body b"
  by (induction ls b rule: layers_Flush.induct) (auto simp: base_WriteHeader_def)

lemma relaying_recorders:
  assumes "relayable resp w"
  shows "\<exists>w'. relaying resp r w s = (w', s, Returned) \<and>
           bw_sent (w_base w') = Some (StatusCode resp, relayed_header resp w) \<and>
           bw_body (w_base w') = concat (RespBody resp)"
proof -
  let ?b = "(w_base w)\<lparr>bw_header := relayed_header resp w\<rparr>"
  let ?b1 = "?b\<lparr>bw_sent := Some (StatusCode resp, relayed_header resp w)\<rparr>"
  let ?b2 = "?b1\<lparr>bw_body := concat (RespBody resp)\<rparr>"
  have wr: "writable (StatusCode resp) (w_base w)" and rec: "list_all is_Recorder (w_layers w)"
    using assms by (simp_all add: relayable_def)
  have b1: "base_WriteHeader (StatusCode resp) ?b = ?b1"
    using wr by (simp add: writable_def base_WriteHeader_def)
  obtain ls1 where h: "layers_WriteHeader (StatusCode resp) (w_layers w) ?b = (ls1, ?b1)"
    and ls1: "list_all is_Recorder ls1"
    using recorders_WriteHeader [OF rec, of "StatusCode resp" ?b] b1 by auto
  have "copy_chunks (RespBody resp) False [] ?b1 = ([], ?b2, length (concat (RespBody resp)), Copied)"
    using copy_base [of ?b1 "StatusCode resp" _ "RespBody resp"] wr assms
    by (simp add: writable_def relayable_def)
  then obtain ls2 where copy: "io_Copy (RespBody resp) False ls1 ?b1
      = (ls2, ?b2, length (concat (RespBody resp)), Copied)"
    using recorders_Copy [OF ls1] by blast
  have "\<not> invalid_code (StatusCode resp)" using wr by (simp add: writable_def)
  then have "writeResponse resp w = (w_Flush \<lparr>w_layers = ls2, w_base = ?b2\<rparr>, Copied)"
    using assms h copy
    by (simp add: writeResponse_def relayable_def relayed_header_def w_set_header_def w_WriteHeader_def
        w_WriteHeader_panics_def w_Copy_def w_header_def copyTrailers_def Let_def)
  then show ?thesis
    using Flush_sent [of ?b2 _ ls2] by (simp add: relaying_def w_Flush_def)
qed

lemma relayable_writer:
  assumes "relayable resp w" and "0 < gz_MinLength cfg"
  shows "fresh_gzip ((newGzipWriter cfg codec)\<lparr>gzw_status := StatusCode resp\<rparr>)"
    and "list_all is_Recorder (w_layers w)"
    and "writable (gzw_status ((newGzipWriter cfg codec)\<lparr>gzw_status := StatusCode resp\<rparr>))
           ((w_base w)\<lparr>bw_header := relayed_header resp w\<rparr>)"
  using assms by (auto simp: relayable_def writable_def fresh_gzip_def newGzipWriter_def invalid_code_def)

lemma gzip_relayed_short:
  assumes "0 < gz_MinLength cfg" and "relayable resp w" and "acceptsGzip r"
    and "\<not> gz_MinLength cfg \<le> int (length (concat (RespBody resp)))"
  shows "\<exists>w'. GzipMiddleware cfg codec (relaying resp) r w s = (w', s, Returned) \<and>
           bw_sent (w_base w') = Some (StatusCode resp, relayed_header resp w) \<and>
           bw_body (w_base w') = concat (RespBody resp)"
proof -
  have "int (length (concat (RespBody resp)))
      < gz_MinLength (gzw_cfg ((newGzipWriter cfg codec)\<lparr>gzw_status := StatusCode resp\<rparr>))"
    using assms(4) by (simp add: newGzipWriter_def)
  from relaying_gzip [OF assms(2,3,1) gzip_relay_short [OF relayable_writer [OF assms(2,1)] this]]
  show ?thesis using assms(2) by (fastforce simp: relayable_def)
qed

lemma gzip_relayed_long:
  assumes "0 < gz_MinLength cfg" and "- 2 \<le> gz_Level cfg" and "gz_Level cfg \<le> 9"
    and "relayable resp w" and "matchContentType cfg (Get (relayed_header resp w) ''Content-Type'')"
    and "acceptsGzip r" and "gz_MinLength cfg \<le> int (length (concat (RespBody resp)))"
  shows "\<exists>w'. GzipMiddleware cfg codec (relaying resp) r w s = (w', s, Returned) \<and>
           bw_sent (w_base w') = Some (StatusCode resp, gzip_mark (relayed_header resp w)) \<and>
           bw_body (w_base w') = cd_head codec @ cd_rest codec (concat (RespBody resp))"
proof -
  let ?g = "(newGzipWriter cfg codec)\<lparr>gzw_status := StatusCode resp\<rparr>"
  let ?b = "(w_base w)\<lparr>bw_header := relayed_header resp w\<rparr>"
  have "gz_MinLength (gzw_cfg ?g) \<le> int (length (concat (RespBody resp)))"
    "gzip_match ?g ?b" "\<not> gzip_nil_writer ?g ?b"
    using assms by (simp_all add: newGzipWriter_def gzip_match_def gzip_nil_writer_def)
  from relaying_gzip [OF assms(4,6,1) gzip_relay_match [OF relayable_writer [OF assms(4,1)] this]]
  show ?thesis using assms(4) by (fastforce simp: relayable_def newGzipWriter_def)
qed

text \<open>
  C14. Compression is transparent. A response without trailers and without a \<open>Content-Encoding\<close> of its
  own, with a content type that is to be compressed and a valid status that admits a body, is
  relayed through the gzip middleware on top of recorders. If the client accepts gzip and the body
  reaches the configured minimum, the client gets the status, a \<open>Content-Encoding\<close> of gzip only,
  no \<open>Content-Length\<close>, a \<open>Vary\<close> that names \<open>Accept-Encoding\<close>, and bytes that decode to the body;
  otherwise status, headers and body as they are. The encoder is any with a decoder, the body any
  number of chunks. (A body the upstream has encoded is encoded again: \<open>encoded_twice\<close>.)
\<close>

theorem gzip_transparent:
  assumes "\<forall>data. decode (cd_head codec @ cd_rest codec data) = data"
    and "0 < gz_MinLength cfg" and "- 2 \<le> gz_Level cfg" and "gz_Level cfg \<le> 9"
    and "relayable resp w"
    and "matchContentType cfg (Get (relayed_header resp w) ''Content-Type'')"
    and "header_vals (relayed_header resp w) ''Content-Encoding'' = []"
  shows "let (w', s', out) = GzipMiddleware cfg codec (relaying resp) r w s;
             body = concat (RespBody resp)
         in out = Returned \<and> s' = s \<and>
            (if acceptsGzip r \<and> gz_MinLength cfg \<le> int (length body)
             then (\<exists>h. bw_sent (w_base w') = Some (StatusCode resp, h) \<and>
                       header_vals h ''Content-Encoding'' = [''gzip''] \<and>
                       header_vals h ''Content-Length'' = [] \<and>
                       ''Accept-Encoding'' \<in> set (header_vals h ''Vary'')) \<and>
                  decode (bw_body (w_base w')) = body
             else bw_sent (w_base w') = Some (StatusCode resp, relayed_header resp w) \<and>
                  bw_body (w_base w') = body)"
proof (cases "acceptsGzip r")
  case False
  then show ?thesis
    using relaying_recorders [OF assms(5), of r s] by (auto simp: GzipMiddleware_def)
next
  case True
  note short = gzip_relayed_short [OF assms(2,5) True, of codec s]
    and long = gzip_relayed_long [OF assms(2-6) True, of codec s]
  show ?thesis
    using short long assms(1) True
    by (cases "gz_MinLength cfg \<le> int (length (concat (RespBody resp)))") (auto simp: gzip_mark_vals Let_def)
qed

definition sample_gzip :: GzipConfig where
  "sample_gzip = \<lparr>gz_Enabled = True, gz_Level = 6, gz_MinLength = 4, gz_ContentTypes = [''text/html'']\<rparr>"

text \<open>An encoder that frames the data.\<close>

definition frame_codec :: gzip_codec where
  "frame_codec = \<lparr>cd_head = ''<'', cd_rest = (\<lambda>data. data @ ''>'')\<rparr>"

theorem gzip_transparent_witness:
  "let (w', s', out) = GzipMiddleware sample_gzip frame_codec
         (relaying ((sample_response 200)\<lparr>RespBody := [''abc'', ''defg'']\<rparr>))
         (sample_request ''GET'' [(''Accept-Encoding'', [''br, gzip''])]) (sample_writer [Recorder NewResponseRecorder]) ()
   in tl (butlast (bw_body (w_base w'))) = ''abcdefg''"
proof -
  let ?resp = "(sample_response 200)\<lparr>RespBody := [''abc'', ''defg'']\<rparr>"
  let ?w = "sample_writer [Recorder NewResponseRecorder]"
  let ?r = "sample_request ''GET'' [(''Accept-Encoding'', [''br, gzip''])]"
  have "\<forall>data. (\<lambda>x. tl (butlast x)) (cd_head frame_codec @ cd_rest frame_codec data) = data"
    by (simp add: frame_codec_def butlast_append)
  moreover have c: "0 < gz_MinLength sample_gzip" "- 2 \<le> gz_Level sample_gzip" "gz_Level sample_gzip \<le> 9"
    "relayable ?resp ?w" "matchContentType sample_gzip (Get (relayed_header ?resp ?w) ''Content-Type'')"
    "header_vals (relayed_header ?resp ?w) ''Content-Encoding'' = []"
    by code_simp+
  ultimately have "let (w', s', out) = GzipMiddleware sample_gzip frame_codec (relaying ?resp) ?r ?w ();
             body = concat (RespBody ?resp)
         in out = Returned \<and> s' = () \<and>
            (if acceptsGzip ?r \<and> gz_MinLength sample_gzip \<le> int (length body)
             then (\<exists>h. bw_sent (w_base w') = Some (StatusCode ?resp, h) \<and>
                       header_vals h ''Content-Encoding'' = [''gzip''] \<and>
                       header_vals h ''Content-Length'' = [] \<and>
                       ''Accept-Encoding'' \<in> set (header_vals h ''Vary'')) \<and>
                  (\<lambda>x. tl (butlast x)) (bw_body (w_base w')) = body
             else bw_sent (w_base w') = Some (StatusCode ?resp, relayed_header ?resp ?w) \<and>
                  bw_body (w_base w') = body)"
    by (rule gzip_transparent)
  moreover have "acceptsGzip ?r" "gz_MinLength sample_gzip \<le> int (length (concat (RespBody ?resp)))"
    by code_simp+
  ultimately show ?thesis by (auto simp: Let_def split: prod.splits)
qed

text \<open>
  The request header \<open>Accept-Encoding\<close> is forwarded, so that an upstream may answer with a body it has
  encoded itself. The middleware does not look at the \<open>Content-Encoding\<close> of the response: such a body
  is encoded a second time, and its encoding is overwritten in the header.
\<close>

lemma encoded_twice:
  assumes "\<forall>data. decode (cd_head codec @ cd_rest codec data) = data"
    and "0 < gz_MinLength cfg" and "- 2 \<le> gz_Level cfg" and "gz_Level cfg \<le> 9"
    and "relayable resp w" and "matchContentType cfg (Get (relayed_header resp w) ''Content-Type'')"
    and "acceptsGzip r" and "RespBody resp = [cd_head codec @ cd_rest codec page]"
    and "gz_MinLength cfg \<le> int (length (concat (RespBody resp)))"
  shows "\<exists>w' h. GzipMiddleware cfg codec (relaying resp) r w s = (w', s, Returned) \<and>
           bw_sent (w_base w') = Some (StatusCode resp, h) \<and>
           header_vals h ''Content-Encoding'' = [''gzip''] \<and>
           decode (decode (bw_body (w_base w'))) = page"
  using gzip_relayed_long [OF assms(2-7,9), of codec s] assms(1,8) by (fastforce simp: gzip_mark_vals)

lemma encoded_twice_instance:
  "bw_body (w_base (fst (GzipMiddleware sample_gzip frame_codec
     (relaying ((sample_response 200)\<lparr>RespHeader := [(''Content-Type'', [''text/html'']),
        (''Content-Encoding'', [''gzip''])], RespBody := [''<page>'']\<rparr>))
     (sample_request ''GET'' [(''Accept-Encoding'', [''gzip''])]) (sample_writer []) ()))) = ''<<page>>''"
  by code_simp

text \<open>A mismatch of the content type: the buffer is handed on once, and there is no encoder.\<close>

lemma gzip_activate_mismatch:
  assumes "fresh_gzip g" and "list_all is_Recorder ls"
    and "gz_MinLength (gzw_cfg g) \<le> int (length (buf @ c))" and "\<not> gzip_match g b"
  shows "\<exists>g' ls' b'. layers_Write c (Gzip (g\<lparr>gzw_buf := buf\<rparr>) # ls) b =
           (Gzip g' # ls', b', WritePanic) \<or>
         layers_Write c (Gzip (g\<lparr>gzw_buf := buf\<rparr>) # ls) b =
           (Gzip g' # ls', b', Wrote (length c)) \<and> gzw_activated g' \<and> gzw_gz g' = None"
proof -
  obtain ls1 b1 where h: "layers_WriteHeader (gzw_status g) ls b = (ls1, b1)"
    and ls1: "list_all is_Recorder ls1"
    using recorders_WriteHeader [OF assms(2)] by blast
  obtain ls2 where w: "layers_Write (buf @ c) ls1 b1 = (ls2, base_Write (buf @ c) b1)"
    using recorders_Write [OF ls1] by blast
  have "\<not> gzip_nil_writer (g\<lparr>gzw_buf := buf @ c\<rparr>) b"
    using assms(4) by (simp add: gzip_nil_writer_def gzip_match_def)
  then show ?thesis
    using assms(1,3,4) h w base_Write_no_panic [of "buf @ c" b1]
    by (cases "flushHeaders_panics (g\<lparr>gzw_buf := buf @ c, gzw_activated := True\<rparr>) ls b")
      (auto simp: fresh_gzip_def gzip_decide_def gzip_match_def flushHeaders_def Let_def)
qed

lemma copy_mismatch_panics:
  assumes "fresh_gzip g" and "list_all is_Recorder ls" and "\<not> gzip_match g b"
    and "cs = xs @ ys" and "ys \<noteq> []" and "gz_MinLength (gzw_cfg g) \<le> int (length (concat xs))"
  shows "snd (snd (snd (copy_chunks cs err (Gzip g # ls) b))) = CopyPanic"
proof -
  obtain us c vs where xs: "xs = us @ c # vs"
    and short: "int (length (concat us)) < gz_MinLength (gzw_cfg g)"
    and long: "gz_MinLength (gzw_cfg g) \<le> int (length (concat us @ c))"
    using chunk_split [OF assms(6)] assms(1) unfolding fresh_gzip_def by blast
  note copy = copy_chunks_short [of g us "c # vs @ ys" err ls b]
  from gzip_activate_mismatch [OF assms(1,2) long assms(3)] obtain g' ls' b'
    where "layers_Write c (Gzip (g\<lparr>gzw_buf := concat us\<rparr>) # ls) b = (Gzip g' # ls', b', WritePanic) \<or>
      layers_Write c (Gzip (g\<lparr>gzw_buf := concat us\<rparr>) # ls) b = (Gzip g' # ls', b', Wrote (length c)) \<and>
        gzw_activated g' \<and> gzw_gz g' = None" by blast
  then show ?thesis
  proof (elim disjE conjE)
    assume act: "layers_Write c (Gzip (g\<lparr>gzw_buf := concat us\<rparr>) # ls) b = (Gzip g' # ls', b', Wrote (length c))"
      "gzw_activated g'" "gzw_gz g' = None"
    have "copy_chunks (vs @ ys) err (Gzip g' # ls') b' = (Gzip g' # ls', b', 0, CopyPanic)"
      using assms(5) by (intro copy_chunks_nil [OF act(2,3)]) simp
    then show ?thesis
      using copy assms(1,4) short act(1) xs by (simp add: fresh_gzip_def case_prod_beta)
  qed (use copy assms(1,4) short xs in \<open>simp add: fresh_gzip_def case_prod_beta\<close>)
qed

lemma writeResponse_mismatch_panics:
  assumes "w_layers w = Gzip (newGzipWriter cfg codec) # ls" and "list_all is_Recorder ls"
    and "Trailer resp = []" and "StatusCode resp \<noteq> 0" and "0 < gz_MinLength cfg"
    and "\<not> matchContentType cfg
           (Get (copyHeaders (removeHopByHopHeaders (RespHeader resp)) (w_header w)) ''Content-Type'')"
    and "RespBody resp = xs @ ys" and "ys \<noteq> []" and "gz_MinLength cfg \<le> int (length (concat xs))"
  shows "snd (writeResponse resp w) = CopyPanic"
proof -
  let ?g = "(newGzipWriter cfg codec)\<lparr>gzw_status := StatusCode resp\<rparr>"
  let ?b = "(w_base w)\<lparr>bw_header := copyHeaders (removeHopByHopHeaders (RespHeader resp)) (w_header w)\<rparr>"
  have "fresh_gzip ?g" using assms(4,5) by (simp add: fresh_gzip_def newGzipWriter_def)
  then have "snd (snd (snd (copy_chunks (RespBody resp) (RespBodyErr resp) (Gzip ?g # ls) ?b))) = CopyPanic"
    using assms by (intro copy_mismatch_panics) (auto simp: gzip_match_def newGzipWriter_def)
  then show ?thesis
    using assms(1,3)
    by (simp add: writeResponse_def w_set_header_def w_WriteHeader_def w_WriteHeader_panics_def w_Copy_def
        w_header_def case_prod_beta Let_def)
qed

text \<open>
  C38. The gzip writer panics on a body that is not to be compressed, and the panic costs a
  connection. When the content type of an answer does not match, a first part of the body
  reaches the minimum length and a further chunk follows, the engine's handler panics; the
  upstream it had acquired stays counted as busy, because the release comes after the copy.
\<close>

theorem gzip_mismatch_panics_and_leaks:
  assumes "Balancer_Next (env_next env 0) (eng_lb e) = (Inr i, b)"
    and "\<not> isWebSocketUpgrade (limit_body e r)" and "0 \<le> eng_maxRetries e"
    and "\<forall>req. env_rt env 0 req = Inr resp" and "\<not> retryable (Inr resp)"
    and "w_layers w = Gzip (newGzipWriter cfg codec) # ls" and "list_all is_Recorder ls"
    and "Trailer resp = []" and "StatusCode resp \<noteq> 0" and "0 < gz_MinLength cfg"
    and "\<not> matchContentType cfg
           (Get (copyHeaders (removeHopByHopHeaders (RespHeader resp)) (w_header w)) ''Content-Type'')"
    and "RespBody resp = xs @ ys" and "ys \<noteq> []" and "gz_MinLength cfg \<le> int (length (concat xs))"
  shows "run_outcome (Engine_ServeHTTP env r e w) = Panicked \<and>
         lb_conns (eng_lb (run_engine (Engine_ServeHTTP env r e w)))
           = at_slot i (\<lambda>c. c + 1) (lb_conns (eng_lb e))"
proof -
  have may: "\<not> may_retry x 0 y (Inr resp)" for x y
    using assms(5) may_retry_retryable(1) by blast
  have run: "Engine_ServeHTTP env r e w = relay_response (limit_body e r) i resp (e\<lparr>eng_lb := b\<rparr>) w"
    using assms(1-4) may by (simp add: Engine_ServeHTTP_def serve_loop.simps forward_def Let_def)
  have "snd (writeResponse resp w) = CopyPanic"
    using assms(6-14) by (rule writeResponse_mismatch_panics)
  then have "run_outcome (Engine_ServeHTTP env r e w) = Panicked"
    "eng_lb (run_engine (Engine_ServeHTTP env r e w)) = Balancer_apply i RecordSuccess b"
    unfolding run by (simp_all add: relay_response_def run_outcome_def run_engine_def case_prod_beta Let_def)
  moreover have "lb_conns (Balancer_apply i RecordSuccess b) = lb_conns b"
    by (rule lb_conns_apply) (simp add: frame_simps)
  ultimately show ?thesis using lb_conns_simps(1) [OF assms(1)] by simp
qed

theorem gzip_mismatch_panics_and_leaks_witness:
  "lb_conns (eng_lb (run_engine (Engine_ServeHTTP
     (sample_env [Inr ((sample_response 200)\<lparr>RespHeader := [(''Content-Type'', [''image/png''])],
                                             RespBody := [''12345'', ''6'']\<rparr>)])
     (sample_request ''GET'' []) (sample_engine 2)
     (sample_writer [Gzip (newGzipWriter sample_gzip frame_codec)])))) = [0, 1]"
proof -
  let ?resp = "(sample_response 200)\<lparr>RespHeader := [(''Content-Type'', [''image/png''])],
                                     RespBody := [''12345'', ''6'']\<rparr>"
  let ?env = "sample_env [Inr ?resp]" and ?r = "sample_request ''GET'' []" and ?e = "sample_engine 2"
  let ?w = "sample_writer [Gzip (newGzipWriter sample_gzip frame_codec)]"
  let ?nx = "Balancer_Next (env_next ?env 0) (eng_lb ?e)"
  have "fst ?nx = Inr 1" by code_simp
  then have nxt: "?nx = (Inr 1, snd ?nx)" by (cases ?nx) simp
  have c: "\<not> isWebSocketUpgrade (limit_body ?e ?r)" "0 \<le> eng_maxRetries ?e" "\<not> retryable (Inr ?resp)"
    "Trailer ?resp = []" "StatusCode ?resp \<noteq> 0" "0 < gz_MinLength sample_gzip"
    "\<not> matchContentType sample_gzip
       (Get (copyHeaders (removeHopByHopHeaders (RespHeader ?resp)) (w_header ?w)) ''Content-Type'')"
    "gz_MinLength sample_gzip \<le> int (length (concat [''12345'']))"
    "lb_conns (eng_lb ?e) = [0, 0]"
    by code_simp+
  have rt: "\<forall>req. env_rt ?env 0 req = Inr ?resp" by (simp add: sample_env_def)
  show ?thesis
    using gzip_mismatch_panics_and_leaks [OF nxt c(1,2) rt c(3), of ?w sample_gzip frame_codec "[]"
        "[''12345'']" "[''6'']"] c(4-9)
    by (simp add: sample_writer_def)
qed

end
