(* ===== verification/Nginx_Parser.thy ===== *)
theory Nginx_Parser
  imports Go_Strings
begin

text \<open>
  The lexer and parser for nginx configuration files (\<^verbatim>\<open>src/internal/config/nginx_parser.go\<close>).
  The lexer's source and position are represented by the input that is left; \<open>peek\<close> is \<open>lex_next\<close>
  without taking over the rest. The recursive-descent functions take fuel; \<open>parse_total\<close> shows
  that three times the length of the input, plus three, is always enough, so the parser itself
  (which has none) always ends.
\<close>

section \<open>Lexer\<close>

datatype token = TokWord string | TokSemicolon | TokLBrace | TokRBrace | TokEOF

fun tok_val :: "token \<Rightarrow> string" where
  "tok_val (TokWord w) = w"
| "tok_val TokSemicolon = '';''"
| "tok_val TokLBrace = ''{''"
| "tok_val TokRBrace = ''}''"
| "tok_val TokEOF = []"

text \<open>\<open>unicode.IsSpace\<close> on a single byte.\<close>

definition IsSpace :: "char \<Rightarrow> bool" where
  "IsSpace c = (let n = (of_char c :: nat) in 9 \<le> n \<and> n \<le> 13 \<or> n = 32 \<or> n = 133 \<or> n = 160)"

fun readQuoted :: "char \<Rightarrow> string \<Rightarrow> string \<times> string" where
  "readQuoted quote [] = ([], [])"
| "readQuoted quote (c # s) =
     (if c = quote then ([], s)
      else if c = CHR 0x5C then
        (case s of
           [] \<Rightarrow> ([c], [])
         | d # t \<Rightarrow> (let (v, rest) = readQuoted quote t in (d # v, rest)))
      else (let (v, rest) = readQuoted quote s in (c # v, rest)))"

definition word_end :: "char \<Rightarrow> bool" where
  "word_end c =
     (IsSpace c \<or> c = CHR '';'' \<or> c = CHR ''{'' \<or> c = CHR ''}'' \<or> c = CHR ''#'')"

definition readWord :: "string \<Rightarrow> string \<times> string" where
  "readWord s = (takeWhile (\<lambda>c. \<not> word_end c) s, dropWhile (\<lambda>c. \<not> word_end c) s)"

function lex_next :: "string \<Rightarrow> token \<times> string" where
  "lex_next [] = (TokEOF, [])"
| "lex_next (c # s) =
     (if IsSpace c then lex_next s
      else if c = CHR ''#'' then lex_next (dropWhile (\<lambda>d. d \<noteq> CHR 0x0A) s)
      else if c = CHR '';'' then (TokSemicolon, s)
      else if c = CHR ''{'' then (TokLBrace, s)
      else if c = CHR ''}'' then (TokRBrace, s)
      else if c = CHR 0x22 \<or> c = CHR 0x27 then
        (let (v, rest) = readQuoted c s in (TokWord v, rest))
      else (let (v, rest) = readWord (c # s) in (TokWord v, rest)))"
  by pat_completeness auto
termination
  by (relation "measure length") (auto simp: le_imp_less_Suc length_dropWhile_le)

section \<open>Parser\<close>

datatype nginxNode = Node (Directive: string) (Args: "string list") (Block: "nginxNode list")

datatype parse_error = ExpectedDirective string | ExpectedClosing string

fun parseBlock :: "nat \<Rightarrow> string \<Rightarrow> (parse_error + nginxNode list \<times> string) option"
and parseNode :: "nat \<Rightarrow> string \<Rightarrow> (parse_error + nginxNode option \<times> string) option"
and parseArgs ::
  "nat \<Rightarrow> string \<Rightarrow> string list \<Rightarrow> string \<Rightarrow> (parse_error + nginxNode option \<times> string) option" where
  "parseBlock 0 s = None"
| "parseBlock (Suc n) s =
     (if fst (lex_next s) = TokEOF \<or> fst (lex_next s) = TokRBrace then Some (Inr ([], s))
      else case parseNode n s of
             None \<Rightarrow> None
           | Some (Inl err) \<Rightarrow> Some (Inl err)
           | Some (Inr (node, s1)) \<Rightarrow>
               (case parseBlock n s1 of
                  None \<Rightarrow> None
                | Some (Inl err) \<Rightarrow> Some (Inl err)
                | Some (Inr (nodes, s2)) \<Rightarrow>
                    Some (Inr (case node of None \<Rightarrow> nodes | Some x \<Rightarrow> x # nodes, s2))))"
| "parseNode 0 s = None"
| "parseNode (Suc n) s =
     (case lex_next s of
        (TokEOF, s1) \<Rightarrow> Some (Inr (None, s1))
      | (TokRBrace, s1) \<Rightarrow> Some (Inr (None, s1))
      | (TokWord d, s1) \<Rightarrow> parseArgs n d [] s1
      | (t, s1) \<Rightarrow> Some (Inl (ExpectedDirective (tok_val t))))"
| "parseArgs 0 d args s = None"
| "parseArgs (Suc n) d args s =
     (case lex_next s of
        (TokSemicolon, s1) \<Rightarrow> Some (Inr (Some (Node d args []), s1))
      | (TokLBrace, s1) \<Rightarrow>
          (case parseBlock n s1 of
             None \<Rightarrow> None
           | Some (Inl err) \<Rightarrow> Some (Inl err)
           | Some (Inr (children, s2)) \<Rightarrow>
               (case lex_next s2 of
                  (TokRBrace, s3) \<Rightarrow> Some (Inr (Some (Node d args children), s3))
                | (t, s3) \<Rightarrow> Some (Inl (ExpectedClosing (tok_val t)))))
      | (TokEOF, s1) \<Rightarrow> Some (Inr (Some (Node d args []), s))
      | (t, s1) \<Rightarrow> parseArgs n d (args @ [tok_val t]) s1)"

definition parse_fuel :: "string \<Rightarrow> nat" where
  "parse_fuel s = 3 * length s + 3"

text \<open>\<open>ParseNginxFile\<close> on the contents of the file; \<open>None\<close> would be a parser that does not end.\<close>

definition parseNginx :: "string \<Rightarrow> (parse_error + nginxNode list) option" where
  "parseNginx src = map_option (map_sum id fst) (parseBlock (parse_fuel src) src)"

section \<open>The parser ends\<close>

lemma readQuoted_length: "length (snd (readQuoted q s)) \<le> length s"
proof (induction q s rule: readQuoted.induct)
  case (2 q c s)
  show ?case
  proof (cases "c = q \<or> c \<noteq> CHR 0x5C")
    case True
    then show ?thesis using 2(2) by (auto simp: case_prod_beta le_SucI)
  next
    case False
    then show ?thesis using 2(1) by (cases s) (auto simp: case_prod_beta le_SucI)
  qed
qed simp

lemma lex_next_length:
  "length (snd (lex_next s)) \<le> length s \<and>
   (fst (lex_next s) \<noteq> TokEOF \<longrightarrow> length (snd (lex_next s)) < length s)"
proof (induction s rule: lex_next.induct)
  case (2 c s)
  have drop: "length (dropWhile P s) \<le> length s" for P by (rule length_dropWhile_le)
  have word: "\<not> word_end c \<Longrightarrow> length (snd (readWord (c # s))) < length (c # s)"
    using drop by (simp add: readWord_def le_imp_less_Suc)
  have quoted: "length (snd (readQuoted q s)) < length (c # s)" for q
    using readQuoted_length [of q s] by simp
  have "IsSpace c \<Longrightarrow> ?case" using 2(1) by auto
  moreover have "\<not> IsSpace c \<Longrightarrow> c = CHR ''#'' \<Longrightarrow> ?case"
    using 2(2) drop [of "\<lambda>d. d \<noteq> CHR 0x0A"] by (auto simp: le_SucI less_SucI dest: order_trans)
  moreover have "\<not> IsSpace c \<Longrightarrow> c \<noteq> CHR ''#'' \<Longrightarrow> ?case"
    using word quoted by (auto simp: word_end_def case_prod_beta less_imp_le)
  ultimately show ?case by blast
qed simp

lemma lex_next_less: "lex_next s = (t, s1) \<Longrightarrow> t \<noteq> TokEOF \<Longrightarrow> length s1 < length s"
  using lex_next_length [of s] by simp

text \<open>With enough fuel every function returns, and what is left is no longer than what was there.\<close>

definition ends_within :: "nat \<Rightarrow> (parse_error + 'a \<times> string) option \<Rightarrow> bool" where
  "ends_within m res \<longleftrightarrow>
     (\<exists>err. res = Some (Inl err)) \<or> (\<exists>x s. res = Some (Inr (x, s)) \<and> length s \<le> m)"

lemma ends_within_mono: "ends_within m res \<Longrightarrow> m \<le> k \<Longrightarrow> ends_within k res"
  by (auto simp: ends_within_def)

lemma parser_ends:
  "(\<forall>s. 3 * length s + 2 < n \<longrightarrow> ends_within (length s) (parseBlock n s)) \<and>
   (\<forall>s. 3 * length s + 1 < n \<longrightarrow> fst (lex_next s) \<noteq> TokEOF \<longrightarrow>
        ends_within (length s - 1) (parseNode n s)) \<and>
   (\<forall>d args s. 3 * length s < n \<longrightarrow> ends_within (length s) (parseArgs n d args s))"
proof (induction n)
  case (Suc n)
  have block: "ends_within (length s) (parseBlock n s)" if "3 * length s + 2 < n" for s
    using Suc that by blast
  have args: "ends_within (length s) (parseArgs n d as s)" if "3 * length s < n" for d as s
    using Suc that by blast
  have node: "ends_within (length s - 1) (parseNode n s)"
    if "3 * length s + 1 < n" "fst (lex_next s) \<noteq> TokEOF" for s
    using Suc that by blast
  show ?case
  proof (intro conjI allI impI)
    fix s :: string
    assume fuel: "3 * length s + 2 < Suc n"
    show "ends_within (length s) (parseBlock (Suc n) s)"
    proof (cases "fst (lex_next s) = TokEOF \<or> fst (lex_next s) = TokRBrace")
      case True
      then show ?thesis by (simp add: ends_within_def)
    next
      case False
      then have pos: "0 < length s" using lex_next_length [of s] by auto
      have nd: "ends_within (length s - 1) (parseNode n s)" using node False fuel by auto
      then consider err where "parseNode n s = Some (Inl err)"
        | x s1 where "parseNode n s = Some (Inr (x, s1))" "length s1 \<le> length s - 1"
        unfolding ends_within_def by blast
      then show ?thesis
      proof cases
        case 1
        then show ?thesis using False by (simp add: ends_within_def)
      next
        case (2 x s1)
        then have "3 * length s1 + 2 < n" using fuel pos by linarith
        from block [OF this] show ?thesis using 2 False by (auto simp: ends_within_def)
      qed
    qed
  next
    fix s :: string
    assume fuel: "3 * length s + 1 < Suc n" and ne: "fst (lex_next s) \<noteq> TokEOF"
    obtain t s1 where lx: "lex_next s = (t, s1)" by fastforce
    have less: "length s1 < length s" using lex_next_less [OF lx] ne lx by simp
    have "ends_within (length s - 1) (parseArgs n d [] s1)" for d
      using args [of s1 d "[]"] fuel less by (auto intro: ends_within_mono)
    then show "ends_within (length s - 1) (parseNode (Suc n) s)"
      using lx less ne by (cases t) (auto simp: ends_within_def)
  next
    fix d as and s :: string
    assume fuel: "3 * length s < Suc n"
    obtain t s1 where lx: "lex_next s = (t, s1)" by fastforce
    show "ends_within (length s) (parseArgs (Suc n) d as s)"
    proof (cases "t = TokEOF")
      case True
      then show ?thesis using lx by (simp add: ends_within_def)
    next
      case False
      then have less: "length s1 < length s" using lex_next_less [OF lx] by simp
      have more: "ends_within (length s) (parseArgs n d bs s1)" for bs
        using args [of s1 d bs] fuel less by (auto intro: ends_within_mono)
      show ?thesis
      proof (cases "t = TokLBrace")
        case True
        have "ends_within (length s1) (parseBlock n s1)" using block fuel less by simp
        then consider err where "parseBlock n s1 = Some (Inl err)"
          | x s2 where "parseBlock n s1 = Some (Inr (x, s2))" "length s2 \<le> length s1"
          unfolding ends_within_def by blast
        then show ?thesis
        proof cases
          case 1
          then show ?thesis using lx True by (simp add: ends_within_def)
        next
          case (2 x s2)
          moreover have "length (snd (lex_next s2)) \<le> length s"
            using lex_next_length [of s2] 2(2) less by linarith
          ultimately show ?thesis
            using lx True by (auto simp: ends_within_def case_prod_beta split: prod.splits token.splits)
        qed
      next
        case no_block: False
        then show ?thesis
          using lx less more False by (cases t) (auto simp: ends_within_def)
      qed
    qed
  qed
qed simp

section \<open>Printing\<close>

definition quote_char :: "char \<Rightarrow> string" where
  "quote_char c = (if c = CHR 0x22 \<or> c = CHR 0x5C then [CHR 0x5C, c] else [c])"

definition quote_word :: "string \<Rightarrow> string" where
  "quote_word w = [CHR 0x22] @ concat (map quote_char w) @ [CHR 0x22]"

definition print_args :: "string list \<Rightarrow> string" where
  "print_args as = concat (map (\<lambda>a. '' '' @ quote_word a) as)"

fun print_node :: "nginxNode \<Rightarrow> string"
and print_nodes :: "nginxNode list \<Rightarrow> string" where
  "print_node (Node d as ch) =
     quote_word d @ print_args as @ (if ch = [] then '';'' else ''{'' @ print_nodes ch @ ''}'')"
| "print_nodes [] = []"
| "print_nodes (nd # ns) = print_node nd @ print_nodes ns"

definition print_body :: "nginxNode list \<Rightarrow> string" where
  "print_body ch = (if ch = [] then '';'' else ''{'' @ print_nodes ch @ ''}'')"

lemma readQuoted_quoted:
  "readQuoted (CHR 0x22) (concat (map quote_char w) @ CHR 0x22 # rest) = (w, rest)"
  by (induction w) (auto simp: quote_char_def)

lemma lex_quote [simp]: "lex_next (quote_word w @ rest) = (TokWord w, rest)"
  by (simp add: quote_word_def IsSpace_def readQuoted_quoted)

lemma lex_blank [simp]: "lex_next (CHR '' '' # s) = lex_next s"
  by (simp add: IsSpace_def)

lemma lex_body:
  "lex_next (print_body ch @ rest) =
     (if ch = [] then (TokSemicolon, rest) else (TokLBrace, print_nodes ch @ CHR ''}'' # rest))"
  by (simp add: print_body_def IsSpace_def)

lemma lex_rbrace [simp]: "lex_next (CHR ''}'' # rest) = (TokRBrace, rest)"
  by (simp add: IsSpace_def)

declare lex_next.simps(2) [simp del]

lemma print_node_eq: "print_node (Node d as ch) = quote_word d @ print_args as @ print_body ch"
  by (simp add: print_body_def)

lemma quote_word_pos: "0 < length (quote_word w)"
  by (simp add: quote_word_def)

lemma print_parse_fuel:
  "(\<forall>ns rest. 3 * length (print_nodes ns @ rest) + 2 < n \<longrightarrow>
      fst (lex_next rest) \<in> {TokEOF, TokRBrace} \<longrightarrow>
      parseBlock n (print_nodes ns @ rest) = Some (Inr (ns, rest))) \<and>
   (\<forall>nd rest. 3 * length (print_node nd @ rest) + 1 < n \<longrightarrow>
      parseNode n (print_node nd @ rest) = Some (Inr (Some nd, rest))) \<and>
   (\<forall>d pre as ch rest. 3 * length (print_args as @ print_body ch @ rest) < n \<longrightarrow>
      parseArgs n d pre (print_args as @ print_body ch @ rest) = Some (Inr (Some (Node d (pre @ as) ch), rest)))"
proof (induction n)
  case (Suc n)
  have block: "parseBlock n (print_nodes ns @ rest) = Some (Inr (ns, rest))"
    if "3 * length (print_nodes ns @ rest) + 2 < n" "fst (lex_next rest) \<in> {TokEOF, TokRBrace}" for ns rest
    using Suc that by blast
  have node: "parseNode n (print_node nd @ rest) = Some (Inr (Some nd, rest))"
    if "3 * length (print_node nd @ rest) + 1 < n" for nd rest
    using Suc that by blast
  have args: "parseArgs n d pre (print_args as @ print_body ch @ rest) = Some (Inr (Some (Node d (pre @ as) ch), rest))"
    if "3 * length (print_args as @ print_body ch @ rest) < n" for d pre as ch rest
    using Suc that by blast
  show ?case
  proof (intro conjI allI impI)
    fix ns rest
    assume fuel: "3 * length (print_nodes ns @ rest) + 2 < Suc n"
      and fin: "fst (lex_next rest) \<in> {TokEOF, TokRBrace}"
    show "parseBlock (Suc n) (print_nodes ns @ rest) = Some (Inr (ns, rest))"
    proof (cases ns)
      case Nil
      then show ?thesis using fin by auto
    next
      case (Cons nd ns')
      have pos: "0 < length (print_node nd)"
        using quote_word_pos by (cases nd) (simp add: print_node_eq)
      have "fst (lex_next (print_nodes ns @ rest)) = TokWord (Directive nd)"
        using Cons by (cases nd) (simp add: print_node_eq del: print_node.simps)
      moreover have "parseNode n (print_nodes ns @ rest) = Some (Inr (Some nd, print_nodes ns' @ rest))"
        using node [of nd "print_nodes ns' @ rest"] fuel Cons by simp
      moreover have "parseBlock n (print_nodes ns' @ rest) = Some (Inr (ns', rest))"
      proof (rule block [OF _ fin])
        have "length (print_nodes ns @ rest) = length (print_node nd) + length (print_nodes ns' @ rest)"
          using Cons by simp
        then show "3 * length (print_nodes ns' @ rest) + 2 < n" using fuel pos by linarith
      qed
      ultimately show ?thesis using Cons by simp
    qed
  next
    fix nd rest
    assume fuel: "3 * length (print_node nd @ rest) + 1 < Suc n"
    obtain d as ch where nd: "nd = Node d as ch" by (cases nd)
    have "3 * length (print_args as @ print_body ch @ rest) < n"
      using fuel quote_word_pos [of d] unfolding nd print_node_eq by simp
    from args [OF this, of d "[]"]
    show "parseNode (Suc n) (print_node nd @ rest) = Some (Inr (Some nd, rest))"
      unfolding nd print_node_eq by simp
  next
    fix d pre as ch rest
    assume fuel: "3 * length (print_args as @ print_body ch @ rest) < Suc n"
    show "parseArgs (Suc n) d pre (print_args as @ print_body ch @ rest)
        = Some (Inr (Some (Node d (pre @ as) ch), rest))"
    proof (cases as)
      case Nil
      show ?thesis
      proof (cases "ch = []")
        case True
        then show ?thesis using Nil by (simp add: print_args_def lex_body)
      next
        case False
        have "3 * length (print_nodes ch @ CHR ''}'' # rest) + 2 < n"
          using fuel Nil False by (simp add: print_args_def print_body_def)
        from block [OF this] show ?thesis using Nil False by (simp add: print_args_def lex_body)
      qed
    next
      case (Cons a as')
      have eq: "print_args as = CHR '' '' # quote_word a @ print_args as'"
        using Cons by (simp add: print_args_def)
      have "3 * length (print_args as' @ print_body ch @ rest) < n"
        using fuel unfolding eq by simp
      from args [OF this, of d "pre @ [a]"] show ?thesis unfolding eq using Cons by simp
    qed
  qed
qed simp

lemma parse_printed:
  assumes "fst (lex_next rest) \<in> {TokEOF, TokRBrace}"
  shows "parseNginx (print_nodes ns @ rest) = Some (Inr ns)"
  using print_parse_fuel [THEN conjunct1, rule_format, of ns rest "parse_fuel (print_nodes ns @ rest)"] assms
  by (simp add: parseNginx_def parse_fuel_def)

section \<open>Properties\<close>

text \<open>
  C12. Parsing inverts printing. Every tree of directives, whatever the text of its names and
  arguments, is what the parser returns for its printed form, in which words are quoted and the
  quote and the backslash are escaped.
\<close>

theorem nginx_print_parse: "parseNginx (print_nodes ns) = Some (Inr ns)"
  using parse_printed [of "[]" ns] by simp

text \<open>
  C13. The parser always ends: on every input, well-formed or not, it returns a list of directives or
  an error.
\<close>

theorem nginx_parse_total: "\<exists>res. parseNginx src = Some res"
  using parser_ends [THEN conjunct1, rule_format, of src "parse_fuel src"]
  by (auto simp: parseNginx_def parse_fuel_def ends_within_def)

text \<open>
  A stray closing brace at the top level ends the configuration: everything after it is ignored,
  without an error.
\<close>

lemma stray_brace_truncates: "parseNginx (print_nodes ns @ ''}'' @ rest) = Some (Inr ns)"
  using parse_printed [of "''}'' @ rest" ns] by simp

end
