(* ===== verification/Nginx_Translator.thy ===== *)
theory Nginx_Translator
  imports Nginx_Parser Config
begin

text \<open>
  Translation of a parsed nginx configuration into the gateway's own
  (\<^verbatim>\<open>src/internal/config/nginx_translator.go\<close>), and the loading functions of
  \<^verbatim>\<open>src/internal/config/config.go\<close>. The loops over directives are folds whose state is what the
  Go loop mutates. Sizes and durations are 64-bit integers and wrap around.
  \<open>strconv.ParseFloat\<close> is an argument; so are the file system and the YAML library \<^verbatim>\<open>viper\<close>.
  The error results of \<open>FromNginx\<close> and the functions it calls are always nil and left out.
\<close>

section \<open>Numbers\<close>

text \<open>\<open>strconv.Atoi\<close> and \<open>strconv.ParseInt\<close> in base 10 with 64 bits.\<close>

definition Atoi :: "string \<Rightarrow> int option" where
  "Atoi s =
     (let neg = HasPrefix s ''-'';
          ds = (if neg \<or> HasPrefix s ''+'' then drop 1 s else s);
          v = (if neg then - dec_val ds else dec_val ds)
      in if ds \<noteq> [] \<and> list_all is_digit ds \<and> - (2 ^ 63) \<le> v \<and> v < 2 ^ 63 then Some v else None)"

section \<open>Helpers\<close>

definition extractGroupName :: "string \<Rightarrow> string" where
  "extractGroupName rawURL =
     (let s = (case Index rawURL ''://'' of Some idx \<Rightarrow> drop (idx + 3) rawURL | None \<Rightarrow> rawURL);
          s1 = (case Index s ''/'' of Some idx \<Rightarrow> take idx s | None \<Rightarrow> s)
      in case last_index (CHR '':'') s1 of
           Some idx \<Rightarrow> (if Atoi (drop (idx + 1) s1) = None then s1 else s1)
         | None \<Rightarrow> s1)"

text \<open>The first of \<open>strings.Fields\<close>, if there is one.\<close>

definition first_field :: "string \<Rightarrow> string option" where
  "first_field s =
     (case dropWhile is_space s of
        [] \<Rightarrow> None
      | t \<Rightarrow> Some (takeWhile (\<lambda>c. \<not> is_space c) t))"

definition parsePort :: "string \<Rightarrow> int option" where
  "parsePort s = (case first_field s of None \<Rightarrow> None | Some p \<Rightarrow> Atoi p)"

definition parseSize :: "string \<Rightarrow> int" where
  "parseSize s0 =
     (let s = ToLower (TrimSpace s0)
      in if s = [] \<or> s = ''0'' then 0
         else let u = last s;
                  (multiplier, numStr) =
                    (if u = CHR ''k'' then (1024, butlast s)
                     else if u = CHR ''m'' then (1024 * 1024, butlast s)
                     else if u = CHR ''g'' then (1024 * 1024 * 1024, butlast s)
                     else (1, s))
              in case Atoi numStr of None \<Rightarrow> 0 | Some v \<Rightarrow> wrap64 (v * multiplier))"

definition parseDurationSeconds :: "string \<Rightarrow> int" where
  "parseDurationSeconds s0 =
     (let s = ToLower (TrimSpace s0)
      in if s = [] then 0
         else let u = last s;
                  (multiplier, numStr) =
                    (if u = CHR ''s'' then (1, butlast s)
                     else if u = CHR ''m'' then (60, butlast s)
                     else if u = CHR ''h'' then (3600, butlast s)
                     else if u = CHR ''d'' then (86400, butlast s)
                     else (1, s))
              in case Atoi numStr of None \<Rightarrow> 0 | Some v \<Rightarrow> wrap64 (v * multiplier))"

fun parseRate :: "(string \<Rightarrow> rat option) \<Rightarrow> string list \<Rightarrow> rat" where
  "parseRate ParseFloat [] = 0"
| "parseRate ParseFloat (arg # args) =
     (if \<not> HasPrefix arg ''rate='' then parseRate ParseFloat args
      else let val0 = TrimPrefix arg ''rate='';
               (divisor, val) =
                 (if HasSuffix val0 ''r/m'' then (60, TrimSuffix val0 ''r/m'')
                  else if HasSuffix val0 ''r/s'' then (1, TrimSuffix val0 ''r/s'')
                  else if HasSuffix val0 ''/s'' then (1, TrimSuffix val0 ''/s'')
                  else if HasSuffix val0 ''/m'' then (60, TrimSuffix val0 ''/m'')
                  else (1, val0))
           in case ParseFloat val of
                Some n \<Rightarrow> n / divisor
              | None \<Rightarrow> parseRate ParseFloat args)"

fun parseLimitReqBurst :: "string list \<Rightarrow> int" where
  "parseLimitReqBurst [] = 0"
| "parseLimitReqBurst (arg # args) =
     (if HasPrefix arg ''burst=''
      then (case Atoi (TrimPrefix arg ''burst='') of
              Some v \<Rightarrow> v
            | None \<Rightarrow> parseLimitReqBurst args)
      else parseLimitReqBurst args)"

fun set_config :: "string \<Rightarrow> cfg_value \<Rightarrow> cfg_map \<Rightarrow> cfg_map" where
  "set_config k v [] = [(k, v)]"
| "set_config k v ((k', v') # m) = (if k' = k then (k, v) # m else (k', v') # set_config k v m)"

fun appendRequestTransformer :: "PluginConfig list \<Rightarrow> string \<Rightarrow> string \<Rightarrow> PluginConfig list" where
  "appendRequestTransformer [] header value =
     [\<lparr>pc_Name = ''request-header-transformer'', pc_Enabled = True,
       pc_Config = [(''add_headers'', CMap [(header, CStr value)])]\<rparr>]"
| "appendRequestTransformer (p # ps) header value =
     (if pc_Name p = ''request-header-transformer''
      then (let m = (case map_of (pc_Config p) ''add_headers'' of Some (CMap m) \<Rightarrow> m | _ \<Rightarrow> [])
            in p\<lparr>pc_Config := set_config ''add_headers'' (CMap (set_config header (CStr value) m))
                   (pc_Config p)\<rparr> # ps)
      else p # appendRequestTransformer ps header value)"

section \<open>Upstream blocks\<close>

definition with_scheme :: "string \<Rightarrow> string" where
  "with_scheme addr = (if \<not> Contains addr ''://'' then ''http://'' @ addr else addr)"

definition apply_weight :: "string \<Rightarrow> UpstreamConfig \<Rightarrow> UpstreamConfig" where
  "apply_weight arg uc =
     (if HasPrefix arg ''weight=''
      then (case Atoi (TrimPrefix arg ''weight='') of Some w \<Rightarrow> uc\<lparr>uc_Weight := w\<rparr> | None \<Rightarrow> uc)
      else uc)"

definition upstream_node ::
  "nginxNode \<Rightarrow> UpstreamConfig list \<times> string \<Rightarrow> UpstreamConfig list \<times> string" where
  "upstream_node n st =
     (case st of (upstreams, algorithm) \<Rightarrow>
        if Directive n = ''server'' then
          (case Args n of
             [] \<Rightarrow> (upstreams, algorithm)
           | addr # opts \<Rightarrow>
               (upstreams @ [fold apply_weight opts \<lparr>uc_URL = with_scheme addr, uc_Weight = 1\<rparr>], algorithm))
        else if Directive n = ''least_conn'' then (upstreams, ''least_conn'')
        else if Directive n = ''ip_hash'' then (upstreams, ''round_robin'')
        else if Directive n = ''random'' then (upstreams, ''round_robin'')
        else (upstreams, algorithm))"

definition parseUpstreamBlock :: "nginxNode list \<Rightarrow> UpstreamConfig list \<times> string" where
  "parseUpstreamBlock nodes = fold upstream_node nodes ([], [])"

section \<open>Location blocks\<close>

type_synonym upstream_groups = "string \<rightharpoonup> UpstreamConfig list"

definition location_name :: "string \<Rightarrow> string" where
  "location_name pathPrefix =
     (let name = TrimPrefix (map (\<lambda>c. if c = CHR ''/'' then CHR ''-'' else c) pathPrefix) ''-''
      in if name = [] then ''root'' else name)"

definition trim_slashes :: "string \<Rightarrow> string" where
  "trim_slashes s = rev (dropWhile (\<lambda>c. c = CHR ''/'') (rev s))"

definition join_spaces :: "string list \<Rightarrow> string" where
  "join_spaces ws = concat (map (\<lambda>(i, w). if i = 0 then w else '' '' @ w) (enumerate 0 ws))"

definition limit_req_plugin :: "int \<Rightarrow> PluginConfig" where
  "limit_req_plugin burst =
     \<lparr>pc_Name = ''rate-limit'', pc_Enabled = True,
      pc_Config = [(''requests_per_second'', CFloat (of_int burst / 2)), (''burst'', CInt burst)]\<rparr>"

definition location_node ::
  "upstream_groups \<Rightarrow> nginxNode \<Rightarrow> RouteConfig \<times> string \<Rightarrow> RouteConfig \<times> string" where
  "location_node upstreamGroups n st =
     (case st of (route, resolvedGroupName) \<Rightarrow>
        if Directive n = ''proxy_pass'' then
          (case Args n of
             [] \<Rightarrow> (route, resolvedGroupName)
           | arg # _ \<Rightarrow>
               (let target = trim_slashes arg; gn = extractGroupName target
                in case upstreamGroups gn of
                     Some grp \<Rightarrow> (route\<lparr>rc_Upstreams := grp\<rparr>, gn)
                   | None \<Rightarrow>
                       (route\<lparr>rc_Upstreams := [\<lparr>uc_URL = with_scheme target, uc_Weight = 1\<rparr>]\<rparr>,
                        resolvedGroupName)))
        else if Directive n = ''proxy_read_timeout'' then
          (case Args n of
             [] \<Rightarrow> (route, resolvedGroupName)
           | arg # _ \<Rightarrow> (route\<lparr>rc_TimeoutSeconds := parseDurationSeconds arg\<rparr>, resolvedGroupName))
        else if Directive n = ''client_max_body_size'' then
          (case Args n of
             [] \<Rightarrow> (route, resolvedGroupName)
           | arg # _ \<Rightarrow> (route\<lparr>rc_MaxBodyBytes := parseSize arg\<rparr>, resolvedGroupName))
        else if Directive n = ''limit_req'' then
          (let burst = parseLimitReqBurst (Args n)
           in if burst > 0
              then (route\<lparr>rc_Plugins := rc_Plugins route @ [limit_req_plugin burst]\<rparr>, resolvedGroupName)
              else (route, resolvedGroupName))
        else if Directive n = ''proxy_set_header'' then
          (case Args n of
             header # v # vs \<Rightarrow>
               (let headerVal = join_spaces (v # vs)
                in if \<not> Contains headerVal ''$''
                   then (route\<lparr>rc_Plugins := appendRequestTransformer (rc_Plugins route) header headerVal\<rparr>,
                         resolvedGroupName)
                   else (route, resolvedGroupName))
           | _ \<Rightarrow> (route, resolvedGroupName))
        else (route, resolvedGroupName))"

definition parseLocationBlock ::
  "string \<Rightarrow> string \<Rightarrow> int \<Rightarrow> nginxNode list \<Rightarrow> upstream_groups \<Rightarrow> (RouteConfig \<times> string) option" where
  "parseLocationBlock pathPrefix serverHost serverMaxBodyBytes nodes upstreamGroups =
     (let route0 = \<lparr>rc_Name = location_name pathPrefix, rc_Host = serverHost, rc_PathPrefix = pathPrefix,
                    rc_Upstreams = [], rc_TimeoutSeconds = 0, rc_MaxBodyBytes = serverMaxBodyBytes,
                    rc_MaxRetries = 0, rc_Plugins = [], rc_CircuitBreaker = zero_CircuitBreaker\<rparr>;
          (route, resolvedGroupName) = fold (location_node upstreamGroups) nodes (route0, [])
      in if length (rc_Upstreams route) = 0 then None else Some (route, resolvedGroupName))"

section \<open>Server blocks\<close>

record server_state =
  sb_cfg :: Config
  sb_host :: string
  sb_maxBody :: int

abbreviation upd_server :: "(ServerConfig \<Rightarrow> ServerConfig) \<Rightarrow> server_state \<Rightarrow> server_state" where
  "upd_server f st \<equiv> st\<lparr>sb_cfg := (sb_cfg st)\<lparr>cfg_Server := f (cfg_Server (sb_cfg st))\<rparr>\<rparr>"

abbreviation upd_gzip :: "(GzipConfig \<Rightarrow> GzipConfig) \<Rightarrow> server_state \<Rightarrow> server_state" where
  "upd_gzip f st \<equiv> st\<lparr>sb_cfg := (sb_cfg st)\<lparr>cfg_Gzip := f (cfg_Gzip (sb_cfg st))\<rparr>\<rparr>"

definition apply_listen :: "string list \<Rightarrow> server_state \<Rightarrow> server_state" where
  "apply_listen args st =
     (case args of
        [] \<Rightarrow> st
      | portStr # opts \<Rightarrow>
          (let isTLS = (opts \<noteq> [] \<and> hd opts = ''ssl'')
           in case parsePort portStr of
                None \<Rightarrow> st
              | Some port \<Rightarrow>
                  if isTLS then upd_server (\<lambda>s. s\<lparr>srv_HTTPSPort := port\<rparr>) st
                  else upd_server (\<lambda>s. s\<lparr>srv_Port := port\<rparr>) st))"

text \<open>\<open>int\<close> of a float, as on amd64: the least number when the value is out of range.\<close>

definition int_of_float :: "rat \<Rightarrow> int" where
  "int_of_float x = (let n = trunc x in if - (2 ^ 63) \<le> n \<and> n < 2 ^ 63 then n else - (2 ^ 63))"

definition apply_rate_zone ::
  "(string \<Rightarrow> rat option) \<Rightarrow> string list \<Rightarrow> server_state \<Rightarrow> server_state" where
  "apply_rate_zone ParseFloat args st =
     (let rate = (cfg_Rate (sb_cfg st))\<lparr>rate_RequestsPerSecond := parseRate ParseFloat args\<rparr>;
          rate1 = (if rate_Burst rate = 0
                   then rate\<lparr>rate_Burst := wrap64 (int_of_float (rate_RequestsPerSecond rate) * 5)\<rparr> else rate)
      in st\<lparr>sb_cfg := (sb_cfg st)\<lparr>cfg_Rate := rate1\<rparr>\<rparr>)"

text \<open>The path of a location, after its modifier; \<open>None\<close> when the location is skipped.\<close>

definition location_path :: "string list \<Rightarrow> string option" where
  "location_path args =
     (case args of
        [] \<Rightarrow> None
      | pathPrefix # rest \<Rightarrow>
          if HasPrefix pathPrefix ''@'' \<or> pathPrefix = ''~'' \<or> pathPrefix = ''~*'' \<or> pathPrefix = ''=''
          then None
          else if pathPrefix = ''^~'' \<or> pathPrefix = ''=''
          then (case rest of p # _ \<Rightarrow> Some p | [] \<Rightarrow> None)
          else Some pathPrefix)"

definition add_route ::
  "(string \<rightharpoonup> string) \<Rightarrow> RouteConfig \<Rightarrow> string \<Rightarrow> Config \<Rightarrow> Config" where
  "add_route upstreamAlgorithms route groupName cfg =
     (let px = (cfg_Proxy cfg)\<lparr>px_Routes := px_Routes (cfg_Proxy cfg) @ [route]\<rparr>;
          px1 = (if px_Algorithm px = [] \<and> groupName \<noteq> []
                 then (case upstreamAlgorithms groupName of
                         Some algo \<Rightarrow> px\<lparr>px_Algorithm := algo\<rparr>
                       | None \<Rightarrow> px)
                 else px)
      in cfg\<lparr>cfg_Proxy := px1\<rparr>)"

definition apply_location ::
  "upstream_groups \<Rightarrow> (string \<rightharpoonup> string) \<Rightarrow> nginxNode \<Rightarrow> server_state \<Rightarrow> server_state" where
  "apply_location upstreamGroups upstreamAlgorithms n st =
     (case location_path (Args n) of
        None \<Rightarrow> st
      | Some pathPrefix \<Rightarrow>
          (case parseLocationBlock pathPrefix (sb_host st) (sb_maxBody st) (Block n) upstreamGroups of
             None \<Rightarrow> st
           | Some (route, groupName) \<Rightarrow>
               st\<lparr>sb_cfg := add_route upstreamAlgorithms route groupName (sb_cfg st)\<rparr>))"

definition server_node ::
  "(string \<Rightarrow> rat option) \<Rightarrow> upstream_groups \<Rightarrow> (string \<rightharpoonup> string) \<Rightarrow> nginxNode \<Rightarrow> server_state \<Rightarrow> server_state" where
  "server_node ParseFloat groups algos n st =
     (let d = Directive n; args = Args n
      in if d = ''listen'' then apply_listen args st
         else if d = ''server_name'' then
           (if args \<noteq> [] \<and> hd args \<noteq> ''_'' then st\<lparr>sb_host := hd args\<rparr> else st)
         else if d = ''ssl_certificate'' then
           (if args \<noteq> [] then upd_server (\<lambda>s. s\<lparr>srv_TLSCertFile := hd args\<rparr>) st else st)
         else if d = ''ssl_certificate_key'' then
           (if args \<noteq> [] then upd_server (\<lambda>s. s\<lparr>srv_TLSKeyFile := hd args\<rparr>) st else st)
         else if d = ''client_max_body_size'' then
           (if args \<noteq> [] then st\<lparr>sb_maxBody := parseSize (hd args)\<rparr> else st)
         else if d = ''gzip'' then
           (if args \<noteq> [] \<and> hd args = ''on'' then upd_gzip (\<lambda>g. g\<lparr>gz_Enabled := True\<rparr>) st else st)
         else if d = ''gzip_min_length'' then
           (case (if args \<noteq> [] then Atoi (hd args) else None) of
              Some v \<Rightarrow> upd_gzip (\<lambda>g. g\<lparr>gz_MinLength := v\<rparr>) st
            | None \<Rightarrow> st)
         else if d = ''gzip_types'' then
           upd_gzip (\<lambda>g. g\<lparr>gz_ContentTypes := gz_ContentTypes g @ args\<rparr>) st
         else if d = ''gzip_comp_level'' then
           (case (if args \<noteq> [] then Atoi (hd args) else None) of
              Some v \<Rightarrow> upd_gzip (\<lambda>g. g\<lparr>gz_Level := v\<rparr>) st
            | None \<Rightarrow> st)
         else if d = ''limit_req_zone'' then apply_rate_zone ParseFloat args st
         else if d = ''location'' then apply_location groups algos n st
         else st)"

definition applyServerBlock ::
  "(string \<Rightarrow> rat option) \<Rightarrow> upstream_groups \<Rightarrow> (string \<rightharpoonup> string) \<Rightarrow> nginxNode list \<Rightarrow> Config \<Rightarrow> Config" where
  "applyServerBlock ParseFloat groups algos nodes cfg =
     sb_cfg (fold (server_node ParseFloat groups algos) nodes
               \<lparr>sb_cfg = cfg, sb_host = [], sb_maxBody = 0\<rparr>)"

section \<open>FromNginx\<close>

record nginx_state =
  ng_cfg :: Config
  ng_groups :: upstream_groups
  ng_algos :: "string \<rightharpoonup> string"

definition top_node :: "(string \<Rightarrow> rat option) \<Rightarrow> nginxNode \<Rightarrow> nginx_state \<Rightarrow> nginx_state" where
  "top_node ParseFloat node st =
     (if Directive node = ''upstream'' then
        (case Args node of
           [] \<Rightarrow> st
         | name # _ \<Rightarrow>
             (let (upstreams, algo) = parseUpstreamBlock (Block node);
                  st1 = st\<lparr>ng_groups := (ng_groups st)(name \<mapsto> upstreams)\<rparr>
              in if algo \<noteq> [] then st1\<lparr>ng_algos := (ng_algos st1)(name \<mapsto> algo)\<rparr> else st1))
      else if Directive node = ''server'' then
        st\<lparr>ng_cfg := applyServerBlock ParseFloat (ng_groups st) (ng_algos st) (Block node) (ng_cfg st)\<rparr>
      else st)"

definition FromNginx :: "(string \<Rightarrow> rat option) \<Rightarrow> nginxNode list \<Rightarrow> Config" where
  "FromNginx ParseFloat nodes =
     ng_cfg (fold (top_node ParseFloat) nodes
               \<lparr>ng_cfg = zero_Config, ng_groups = Map.empty, ng_algos = Map.empty\<rparr>)"

section \<open>Loading\<close>

datatype load_error = ReadError | ParseError parse_error | ViperError | UnmarshalError

text \<open>The file system and viper: what reading and unmarshalling the YAML file gives.\<close>

record load_env =
  le_ReadFile :: "string \<Rightarrow> string option"
  le_ReadInConfig :: bool
  le_Unmarshal :: "Config option"
  le_ParseFloat :: "string \<Rightarrow> rat option"

definition Load :: "load_env \<Rightarrow> load_error + Config" where
  "Load env =
     (if \<not> le_ReadInConfig env then Inl ViperError
      else case le_Unmarshal env of
             None \<Rightarrow> Inl UnmarshalError
           | Some cfg \<Rightarrow> Inr (applyDefaults cfg))"

definition Config_Reload :: "load_env \<Rightarrow> load_error + Config" where
  "Config_Reload env =
     (if \<not> le_ReadInConfig env then Inl ViperError
      else case le_Unmarshal env of
             None \<Rightarrow> Inl UnmarshalError
           | Some cfg \<Rightarrow> Inr (applyDefaults cfg))"

definition ParseNginxFile :: "load_env \<Rightarrow> string \<Rightarrow> (load_error + nginxNode list) option" where
  "ParseNginxFile env path =
     (case le_ReadFile env path of
        None \<Rightarrow> Some (Inl ReadError)
      | Some data \<Rightarrow> map_option (map_sum ParseError id) (parseNginx data))"

definition LoadNginx :: "load_env \<Rightarrow> string \<Rightarrow> (load_error + Config) option" where
  "LoadNginx env path =
     map_option (map_sum id (\<lambda>nodes. applyDefaults (FromNginx (le_ParseFloat env) nodes)))
       (ParseNginxFile env path)"

text \<open>\<open>filepath.Ext\<close>: from the last dot of the last path element.\<close>

definition Ext :: "string \<Rightarrow> string" where
  "Ext path =
     (let el = rev (takeWhile (\<lambda>c. c \<noteq> CHR ''/'') (rev path))
      in case last_index (CHR ''.'') el of None \<Rightarrow> [] | Some i \<Rightarrow> drop i el)"

definition LoadAuto :: "load_env \<Rightarrow> string \<Rightarrow> (load_error + Config) option" where
  "LoadAuto env path =
     (if ToLower (Ext path) = ''.conf'' \<or> ToLower (Ext path) = ''.nginx'' then LoadNginx env path
      else Some (Load env))"

end
