(* ===== verification/Nginx_Sizes.thy ===== *)
theory Nginx_Sizes
  imports Nginx_Translator
begin

text \<open>
  Decimal numbers in an nginx configuration: what \<open>strconv.Atoi\<close> reads of a printed number, and
  the value of the sizes that \<open>parseSize\<close> of \<^verbatim>\<open>src/internal/config/nginx_translator.go\<close> reads.
\<close>

section \<open>Decimal words\<close>

lemma digit_char_val: "d < 10 \<Longrightarrow> digit_val (digit_char d) = d"
  by (simp add: digit_val_def digit_char_def)

lemma digit_char_digit: "d < 10 \<Longrightarrow> is_digit (digit_char d)"
  by (simp add: is_digit_def digit_char_def)

lemma show_nat_digits: "list_all is_digit (show_nat n)"
proof (induction n rule: show_nat.induct)
  case (1 n)
  then show ?case
    by (subst show_nat.simps) (simp add: digit_char_digit)
qed

lemma show_nat_nonempty: "show_nat n \<noteq> []"
  by (subst show_nat.simps) simp

lemma dec_val_snoc: "dec_val (s @ [c]) = 10 * dec_val s + int (digit_val c)"
  by (simp add: dec_val_def)

lemma dec_val_show_nat: "dec_val (show_nat n) = int n"
proof (induction n rule: show_nat.induct)
  case (1 n)
  show ?case
  proof (cases "n < 10")
    case True
    then show ?thesis
      by (subst show_nat.simps) (simp add: dec_val_def digit_char_val)
  next
    case False
    then have "dec_val (show_nat n) = 10 * int (n div 10) + int (n mod 10)"
      using 1 by (subst show_nat.simps) (simp add: dec_val_snoc digit_char_val)
    then show ?thesis by (simp add: of_nat_div of_nat_mod)
  qed
qed

lemma Atoi_show_nat: "n < 2 ^ 63 \<Longrightarrow> Atoi (show_nat n) = Some (int n)"
proof -
  assume n: "n < 2 ^ 63"
  obtain c s where cs: "show_nat n = c # s" using show_nat_nonempty [of n] by (cases "show_nat n") auto
  then have "is_digit c" using show_nat_digits [of n] by simp
  then have "\<not> HasPrefix (show_nat n) ''-''" "\<not> HasPrefix (show_nat n) ''+''"
    using cs by (auto simp: HasPrefix_def is_digit_def)
  moreover have "int n < 2 ^ 63" using n by (simp only: of_nat_less_numeral_power_cancel_iff)
  ultimately show ?thesis
    using show_nat_digits [of n] show_nat_nonempty [of n]
    by (simp add: Atoi_def dec_val_show_nat Let_def)
qed

lemma lower_digit: "is_digit c \<Longrightarrow> lower_char c = c"
  by (auto simp: lower_char_def is_digit_def is_upper_def)

lemma digit_not_space: "is_digit c \<Longrightarrow> \<not> is_space c"
  by (auto simp: is_digit_def is_space_def)

text \<open>A word of digits and a unit is neither trimmed nor changed by lower-casing.\<close>

lemma size_word:
  assumes "list_all is_digit ds" and "ds \<noteq> []" and "u \<in> set [[], ''k'', ''m'', ''g'']"
  shows "ToLower (TrimSpace (ds @ u)) = ds @ u"
proof -
  have sp: "\<not> is_space c" if "c \<in> set (ds @ u)" for c
  proof (cases "c \<in> set ds")
    case True
    then show ?thesis using assms(1) digit_not_space by (simp add: list_all_iff)
  next
    case False
    then show ?thesis using that assms(3) by (auto simp: is_space_def)
  qed
  have lo: "lower_char c = c" if "c \<in> set (ds @ u)" for c
  proof (cases "c \<in> set ds")
    case True
    then show ?thesis using assms(1) lower_digit by (simp add: list_all_iff)
  next
    case False
    then show ?thesis using that assms(3) by (auto simp: lower_char_def is_upper_def)
  qed
  have keep: "dropWhile is_space s = s" if "\<forall>c\<in>set s. \<not> is_space c" for s
    using that by (cases s) auto
  have "TrimSpace (ds @ u) = ds @ u"
    using sp keep [of "ds @ u"] keep [of "rev (ds @ u)"]
    unfolding TrimSpace_def trim_by_def by (simp del: rev_append)
  then show ?thesis using lo by (simp add: ToLower_def map_idI)
qed

text \<open>
  Sizes. A decimal number below two to the 63rd with a unit of k, m or g, or none, is read as that
  many bytes when these fit a signed 64-bit integer; beyond, the product wraps around, possibly
  to zero or below, which the engine takes for no limit on the body.
\<close>

lemma parseSize_value:
  assumes "n < 2 ^ 63"
    and "(u, factor) \<in> set [([], 1), (''k'', 1024), (''m'', 1024 * 1024), (''g'', 1024 * 1024 * 1024)]"
  shows "parseSize (show_nat n @ u) = wrap64 (int n * factor) \<and>
         (int n * factor < 2 ^ 63 \<longrightarrow> parseSize (show_nat n @ u) = int n * factor)"
proof -
  let ?ds = "show_nat n"
  have "u \<in> set [[], ''k'', ''m'', ''g'']" and pos: "0 < factor" using assms(2) by auto
  note word = size_word [OF show_nat_digits [of n] show_nat_nonempty [of n] this(1)]
  have "is_digit (last ?ds)" using show_nat_digits [of n] show_nat_nonempty [of n] by (simp add: list_all_iff)
  then have unit: "last ?ds \<noteq> CHR ''k'' \<and> last ?ds \<noteq> CHR ''m'' \<and> last ?ds \<noteq> CHR ''g''"
    by (auto simp: is_digit_def)
  have val: "parseSize (?ds @ u) = wrap64 (int n * factor)"
  proof (cases "?ds @ u = ''0''")
    case True
    then have "u = []" "?ds = ''0''" using show_nat_nonempty [of n] by (auto simp: append_eq_Cons_conv)
    moreover from this have "n = 0" using dec_val_show_nat [of n] by (simp add: dec_val_def digit_val_def)
    moreover have "ToLower (TrimSpace (?ds @ u)) = ''0''" using word True by simp
    ultimately show ?thesis by (simp add: parseSize_def wrap64_def)
  next
    case False
    then show ?thesis
      using assms(2) word unit show_nat_nonempty [of n] Atoi_show_nat [OF assms(1)]
      by (auto simp: parseSize_def Let_def)
  qed
  moreover have "wrap64 (int n * factor) = int n * factor" if "int n * factor < 2 ^ 63"
    using that pos by (intro wrap64_id) (auto intro: order_trans [of _ 0])
  ultimately show ?thesis by simp
qed

lemma parseSize_value_instance: "parseSize (show_nat 10 @ ''m'') = 10485760"
  using parseSize_value [of 10 "''m''" "1024 * 1024"] by simp

end
