(* ===== verification/Rate_Limit.thy ===== *)
theory Rate_Limit
  imports Middleware
begin

text \<open>
  The per-address rate limiter (\<^verbatim>\<open>src/internal/middleware/ratelimit.go\<close>). The token bucket is
  \<^verbatim>\<open>golang.org/x/time/rate\<close>, outside the repository: its two operations are an argument, over
  any type of limiter. The store is the Go map; a request looks its limiter up, asks it, and
  the limiter's new state is the state the map's pointer leads to.
\<close>

section \<open>The store\<close>

record 'l limiter_ops =
  lim_New :: "rat \<Rightarrow> int \<Rightarrow> 'l"
  lim_Allow :: "time \<Rightarrow> 'l \<Rightarrow> bool \<times> 'l"

record 'l ipEntry =
  ent_limiter :: 'l
  ent_lastSeen :: time

record 'l ipStore =
  st_ips :: "string \<rightharpoonup> 'l ipEntry"
  st_rps :: rat
  st_burst :: int

definition newIPStore :: "rat \<Rightarrow> int \<Rightarrow> 'l ipStore" where
  "newIPStore rps burst = \<lparr>st_ips = Map.empty, st_rps = rps, st_burst = burst\<rparr>"

definition ipStore_get :: "'l limiter_ops \<Rightarrow> time \<Rightarrow> string \<Rightarrow> 'l ipStore \<Rightarrow> 'l \<times> 'l ipStore" where
  "ipStore_get ops now ip s =
     (let e = (case st_ips s ip of
                 Some e \<Rightarrow> e
               | None \<Rightarrow> \<lparr>ent_limiter = lim_New ops (st_rps s) (st_burst s), ent_lastSeen = 0\<rparr>);
          e1 = e\<lparr>ent_lastSeen := now\<rparr>
      in (ent_limiter e1, s\<lparr>st_ips := (st_ips s)(ip \<mapsto> e1)\<rparr>))"

definition ten_minutes :: int where
  "ten_minutes = 600000000000"

text \<open>One round of the loop of \<open>cleanup\<close>.\<close>

definition ipStore_cleanup :: "time \<Rightarrow> 'l ipStore \<Rightarrow> 'l ipStore" where
  "ipStore_cleanup now s =
     (let cutoff = now - ten_minutes
      in s\<lparr>st_ips := (\<lambda>ip. case st_ips s ip of
                          None \<Rightarrow> None
                        | Some e \<Rightarrow> if ent_lastSeen e < cutoff then None else Some e)\<rparr>)"

definition clientIP :: "Request \<Rightarrow> string" where
  "clientIP r =
     (let xff = Get (ReqHeader r) ''X-Forwarded-For'';
          ip = TrimSpace (hd (split_on (CHR '','') xff));
          fallback = (case SplitHostPort (RemoteAddr r) of None \<Rightarrow> RemoteAddr r | Some (h, _) \<Rightarrow> h)
      in if xff \<noteq> [] \<and> ip \<noteq> [] then ip else fallback)"

text \<open>Asking the limiter of an address.\<close>

definition allow_ip :: "'l limiter_ops \<Rightarrow> time \<Rightarrow> string \<Rightarrow> 'l ipStore \<Rightarrow> bool \<times> 'l ipStore" where
  "allow_ip ops now ip s =
     (let (lim, s1) = ipStore_get ops now ip s;
          (ok, lim') = lim_Allow ops now lim
      in (ok, s1\<lparr>st_ips := (st_ips s1)(ip \<mapsto> \<lparr>ent_limiter = lim', ent_lastSeen = now\<rparr>)\<rparr>))"

definition IPRateLimit :: "'l limiter_ops \<Rightarrow> time \<Rightarrow> 's handler \<Rightarrow> ('l ipStore \<times> 's) handler" where
  "IPRateLimit ops now next r w st =
     (let (store, s) = st;
          (ok, store1) = allow_ip ops now (clientIP r) store
      in if \<not> ok then reply_error ''rate limit exceeded'' 429 w (store1, s)
         else let (w1, s1, out) = next r w s in (w1, (store1, s1), out))"

section \<open>Runs\<close>

text \<open>Requests and cleanup rounds in the order in which they hold the lock.\<close>

datatype rl_event = RL_Request time string | RL_Cleanup time

fun rl_decisions :: "'l limiter_ops \<Rightarrow> rl_event list \<Rightarrow> 'l ipStore \<Rightarrow> (string \<times> bool) list" where
  "rl_decisions ops [] s = []"
| "rl_decisions ops (RL_Request now ip # evs) s =
     (let (ok, s1) = allow_ip ops now ip s in (ip, ok) # rl_decisions ops evs s1)"
| "rl_decisions ops (RL_Cleanup now # evs) s = rl_decisions ops evs (ipStore_cleanup now s)"

fun concerns :: "string \<Rightarrow> rl_event \<Rightarrow> bool" where
  "concerns ip (RL_Request _ ip') = (ip' = ip)"
| "concerns ip (RL_Cleanup _) = True"

text \<open>Two stores agree on an address.\<close>

definition agree_at :: "string \<Rightarrow> 'l ipStore \<Rightarrow> 'l ipStore \<Rightarrow> bool" where
  "agree_at ip s t \<longleftrightarrow> st_ips s ip = st_ips t ip \<and> st_rps s = st_rps t \<and> st_burst s = st_burst t"

lemma agree_allow:
  assumes "agree_at ip s t"
  shows "fst (allow_ip ops now ip s) = fst (allow_ip ops now ip t) \<and>
         agree_at ip (snd (allow_ip ops now ip s)) (snd (allow_ip ops now ip t))"
  using assms
  by (simp add: agree_at_def allow_ip_def ipStore_get_def case_prod_beta Let_def cong: option.case_cong)

lemma agree_other:
  "agree_at ip s t \<Longrightarrow> ip' \<noteq> ip \<Longrightarrow> agree_at ip (snd (allow_ip ops now ip' s)) t"
  by (simp add: agree_at_def allow_ip_def ipStore_get_def case_prod_beta Let_def)

lemma agree_cleanup:
  "agree_at ip s t \<Longrightarrow> agree_at ip (ipStore_cleanup now s) (ipStore_cleanup now t)"
  by (simp add: agree_at_def ipStore_cleanup_def)

lemma decisions_agree:
  "agree_at ip s t \<Longrightarrow>
   filter (\<lambda>d. fst d = ip) (rl_decisions ops evs s) = rl_decisions ops (filter (concerns ip) evs) t"
proof (induction ops evs s arbitrary: t rule: rl_decisions.induct)
  case (2 ops now ip' evs s)
  obtain ok s1 where s1: "allow_ip ops now ip' s = (ok, s1)" by fastforce
  obtain ok' t1 where t1: "allow_ip ops now ip t = (ok', t1)" by fastforce
  show ?case
  proof (cases "ip' = ip")
    case True
    then have "ok = ok'" "agree_at ip s1 t1"
      using agree_allow [OF 2(2), of ops now] s1 t1 by simp_all
    then show ?thesis using 2(1) [OF s1 [symmetric] refl] True s1 t1 by simp
  next
    case False
    then have "agree_at ip s1 t" using agree_other [OF 2(2) False, of ops now] s1 by simp
    then show ?thesis using 2(1) [OF s1 [symmetric] refl] False s1 by simp
  qed
qed (simp_all add: agree_cleanup)

section \<open>Properties\<close>

text \<open>
  C29. Clients do not share buckets. Whatever the limiter, the decisions an address gets over any
  sequence of requests of any addresses and cleanup rounds are those it would get if the other
  addresses had sent nothing.
\<close>

theorem rate_limit_isolation:
  "filter (\<lambda>d. fst d = ip) (rl_decisions ops evs (newIPStore rps burst)) =
   rl_decisions ops (filter (concerns ip) evs) (newIPStore rps burst)"
  by (rule decisions_agree) (simp add: agree_at_def)

text \<open>
  Cleanup evicts exactly the addresses not seen for more than ten minutes and leaves the
  limiters of the others untouched; in particular a request and a cleanup round up to ten
  minutes after it leave the address in the store.
\<close>

lemma cleanup_exact:
  "st_ips (ipStore_cleanup now s) ip =
     (case st_ips s ip of
        None \<Rightarrow> None
      | Some e \<Rightarrow> if now - ent_lastSeen e > ten_minutes then None else Some e) \<and>
   (st_ips (ipStore_cleanup now (snd (allow_ip ops t ip s))) ip = None \<longleftrightarrow> now - t > ten_minutes)"
  by (auto simp: ipStore_cleanup_def allow_ip_def ipStore_get_def case_prod_beta Let_def
      split: option.splits)

text \<open>
  The client chooses its bucket. Any name without a comma and without surrounding white space
  that is sent as \<open>X-Forwarded-For\<close> is the key under which the request is counted, whatever
  the address it comes from.
\<close>

lemma forwarded_for_chooses_bucket:
  assumes "ip \<noteq> []" and "TrimSpace ip = ip" and "CHR '','' \<notin> set ip"
  shows "clientIP (r\<lparr>ReqHeader := Set ''X-Forwarded-For'' ip (ReqHeader r)\<rparr>) = ip"
  using assms by (simp add: clientIP_def header_simps split_on_no_sep Let_def)

lemma forwarded_for_chooses_bucket_instance:
  "clientIP ((sample_request ''GET'' [])\<lparr>ReqHeader := Set ''X-Forwarded-For'' ''6.6.6.6'' []\<rparr>) = ''6.6.6.6''"
proof -
  have "TrimSpace ''6.6.6.6'' = ''6.6.6.6''" by code_simp
  then show ?thesis
    using forwarded_for_chooses_bucket [of "''6.6.6.6''" "sample_request ''GET'' []"]
    by (simp add: sample_request_def)
qed

end
