(* ===== verification/Net_IP.thy ===== *)
theory Net_IP
  imports Go_Strings "HOL-Library.Word"
begin

unbundle bit_operations_syntax

text \<open>
  The part of Go's package \<^verbatim>\<open>net\<close> the address restriction plugin relies on: parsing of IPv4 and
  IPv6 addresses and CIDR ranges, and membership. An address is the list of its bytes, 4 or
  16 of them.
\<close>

type_synonym byte = "8 word"
type_synonym ip = "byte list"

section \<open>Addresses\<close>

text \<open>An octet: decimal digits, no leading zero, at most 255.\<close>

definition parse_octet :: "string \<Rightarrow> byte option" where
  "parse_octet s =
     (if s \<noteq> [] \<and> list_all is_digit s \<and> (length s = 1 \<or> hd s \<noteq> CHR ''0'') \<and> dec_val s \<le> 255
      then Some (of_int (dec_val s)) else None)"

definition parseIPv4 :: "string \<Rightarrow> ip option" where
  "parseIPv4 s =
     (let fields = map parse_octet (split_on (CHR ''.'') s)
      in if length fields = 4 \<and> list_all (\<lambda>f. f \<noteq> None) fields then Some (map the fields) else None)"

definition hex_digits :: "string \<Rightarrow> string" where
  "hex_digits s = takeWhile (\<lambda>c. hex_val c \<noteq> None) s"

definition hex_number :: "string \<Rightarrow> nat" where
  "hex_number s = fold (\<lambda>c acc. 16 * acc + the (hex_val c)) s 0"

text \<open>
  The loop of the IPv6 parser: \<open>bs\<close> are the bytes parsed so far, \<open>ell\<close> the position of the
  ellipsis, \<open>s\<close> the rest of the input. The result is the state in which the loop is left.
\<close>

function ipv6_loop :: "byte list \<Rightarrow> nat option \<Rightarrow> string \<Rightarrow> (byte list \<times> nat option \<times> string) option" where
  "ipv6_loop bs ell s =
     (if length bs \<ge> 16 then Some (bs, ell, s)
      else
        let ds = hex_digits s; rest = drop (length ds) s
        in if ds = [] \<or> length ds > 4 then None
           else if rest \<noteq> [] \<and> hd rest = CHR ''.'' then
             (if ell = None \<and> length bs \<noteq> 12 \<or> length bs + 4 > 16 then None
              else map_option (\<lambda>v4. (bs @ v4, ell, [])) (parseIPv4 s))
           else
             let n = hex_number ds; bs1 = bs @ [of_nat (n div 256), of_nat (n mod 256)]
             in if rest = [] then Some (bs1, ell, [])
                else if hd rest \<noteq> CHR '':'' \<or> length rest = 1 then None
                else let s1 = tl rest
                     in if hd s1 = CHR '':'' then
                          (if ell \<noteq> None then None
                           else if tl s1 = [] then Some (bs1, Some (length bs1), [])
                           else ipv6_loop bs1 (Some (length bs1)) (tl s1))
                        else ipv6_loop bs1 ell s1)"
  by pat_completeness auto
termination by (relation "measure (\<lambda>(bs, ell, s). 16 - length bs)") auto

declare ipv6_loop.simps [simp del]

definition parseIPv6 :: "string \<Rightarrow> ip option" where
  "parseIPv6 s =
     (let (ell, s1) = (if HasPrefix s ''::'' then (Some 0, drop 2 s) else (None, s))
      in if ell = Some 0 \<and> s1 = [] then Some (replicate 16 0)
         else (case ipv6_loop [] ell s1 of
                 None \<Rightarrow> None
               | Some (bs, ell1, rest) \<Rightarrow>
                   if rest \<noteq> [] then None
                   else if length bs < 16 then
                     (case ell1 of
                        None \<Rightarrow> None
                      | Some p \<Rightarrow> Some (take p bs @ replicate (16 - length bs) 0 @ drop p bs))
                   else if ell1 \<noteq> None then None else Some bs))"

text \<open>The first dot or colon decides which of the two it is.\<close>

definition ParseAddr :: "string \<Rightarrow> ip option" where
  "ParseAddr s =
     (case dropWhile (\<lambda>c. c \<noteq> CHR ''.'' \<and> c \<noteq> CHR '':'' \<and> c \<noteq> CHR ''%'') s of
        [] \<Rightarrow> None
      | c # _ \<Rightarrow> if c = CHR ''.'' then parseIPv4 s else if c = CHR '':'' then parseIPv6 s else None)"

definition v4prefix :: ip where
  "v4prefix = replicate 10 0 @ [255, 255]"

definition To16 :: "ip \<Rightarrow> ip" where
  "To16 a = (if length a = 4 then v4prefix @ a else a)"

definition To4 :: "ip \<Rightarrow> ip option" where
  "To4 a = (if length a = 4 then Some a
            else if length a = 16 \<and> take 12 a = v4prefix then Some (drop 12 a) else None)"

definition ParseIP :: "string \<Rightarrow> ip option" where
  "ParseIP s = map_option To16 (ParseAddr s)"

section \<open>Ranges\<close>

record IPNet =
  net_IP :: ip
  net_Mask :: ip

definition mask_byte :: "nat \<Rightarrow> byte" where
  "mask_byte n = (if n \<ge> 8 then 255 else NOT (drop_bit n 255))"

fun CIDRMask :: "nat \<Rightarrow> nat \<Rightarrow> ip" where
  "CIDRMask n 0 = []"
| "CIDRMask n (Suc l) = mask_byte n # CIDRMask (n - 8) l"

definition mask_ip :: "ip \<Rightarrow> ip \<Rightarrow> ip" where
  "mask_ip a m = map2 (AND) a m"

definition ParseCIDR :: "string \<Rightarrow> IPNet option" where
  "ParseCIDR s =
     (case Index s ''/'' of
        None \<Rightarrow> None
      | Some i \<Rightarrow>
          (case ParseAddr (take i s) of
             None \<Rightarrow> None
           | Some a \<Rightarrow>
               let mask = drop (i + 1) s
               in if mask = [] \<or> \<not> list_all is_digit mask \<or> dec_val mask > int (8 * length a) then None
                  else let m = CIDRMask (nat (dec_val mask)) (length a)
                       in Some \<lparr>net_IP = mask_ip a m, net_Mask = m\<rparr>))"

text \<open>\<open>IPNet.Contains\<close>; an address that could not be parsed is \<open>nil\<close>, the empty list of bytes.\<close>

definition Contains_IP :: "IPNet \<Rightarrow> ip \<Rightarrow> bool" where
  "Contains_IP n a =
     (let nn = (case To4 (net_IP n) of Some x \<Rightarrow> x | None \<Rightarrow> net_IP n);
          m = (if length (net_Mask n) = 16 \<and> length nn = 4 then drop 12 (net_Mask n) else net_Mask n);
          x = (case To4 a of Some y \<Rightarrow> y | None \<Rightarrow> a)
      in length x = length nn \<and> list_all2 (=) (mask_ip nn m) (mask_ip x m))"

section \<open>Membership is agreement on the prefix\<close>

text \<open>Bit \<open>i\<close> of an address, from the most significant one.\<close>

definition ipbit :: "ip \<Rightarrow> nat \<Rightarrow> bool" where
  "ipbit a i = bit (a ! (i div 8)) (7 - i mod 8)"

lemma bit_mask_byte: "bit (mask_byte k) j \<longleftrightarrow> j < 8 \<and> 8 \<le> j + k"
proof -
  have all: "(255 :: byte) = - 1" by simp
  show ?thesis unfolding mask_byte_def all by (auto simp: bit_simps)
qed

lemma byte_prefix_eq:
  "x AND mask_byte k = y AND mask_byte k \<longleftrightarrow> (\<forall>i < min k 8. bit x (7 - i) = bit (y :: byte) (7 - i))"
proof
  assume eq: "x AND mask_byte k = y AND mask_byte k"
  have "bit (x AND mask_byte k) j = bit (y AND mask_byte k) j" for j using eq by simp
  then have "bit x j = bit y j" if "j < 8" "8 \<le> j + k" for j
    using that by (auto simp: bit_and_iff bit_mask_byte)
  then show "\<forall>i < min k 8. bit x (7 - i) = bit y (7 - i)" by auto
next
  assume same: "\<forall>i < min k 8. bit x (7 - i) = bit y (7 - i)"
  have "bit x j = bit y j" if "j < 8" "8 \<le> j + k" for j
  proof -
    have "7 - j < min k 8" using that by auto
    with same have "bit x (7 - (7 - j)) = bit y (7 - (7 - j))" by blast
    then show ?thesis using that by simp
  qed
  then show "x AND mask_byte k = y AND mask_byte k"
    by (intro bit_word_eqI) (auto simp: bit_and_iff bit_mask_byte)
qed

lemma mask_ip_idem: "length a = length m \<Longrightarrow> mask_ip (mask_ip a m) m = mask_ip a m"
  unfolding mask_ip_def by (induction a m rule: list_induct2) (simp_all add: and.assoc)

lemma length_CIDRMask [simp]: "length (CIDRMask n l) = l"
  by (induction n l rule: CIDRMask.induct) auto

lemma length_mask_ip [simp]: "length (mask_ip a m) = min (length a) (length m)"
  by (simp add: mask_ip_def)

lemma ipbit_Cons:
  "ipbit (x # a) i = (if i < 8 then bit x (7 - i) else ipbit a (i - 8))"
proof (cases "i < 8")
  case False
  then have "i div 8 = Suc ((i - 8) div 8)" "i mod 8 = (i - 8) mod 8"
    by (simp_all add: div_if mod_if)
  then show ?thesis using False by (simp add: ipbit_def)
qed (simp add: ipbit_def)

lemma masked_eq_iff:
  "length a = l \<Longrightarrow> length x = l \<Longrightarrow> n \<le> 8 * l \<Longrightarrow>
   mask_ip a (CIDRMask n l) = mask_ip x (CIDRMask n l) \<longleftrightarrow> (\<forall>i < n. ipbit a i = ipbit x i)"
proof (induction n l arbitrary: a x rule: CIDRMask.induct)
  case (1 n)
  then show ?case by (simp add: mask_ip_def)
next
  case (2 n l)
  obtain p a' where a: "a = p # a'" and a': "length a' = l" using 2(2) by (cases a) auto
  obtain q x' where x: "x = q # x'" and x': "length x' = l" using 2(3) by (cases x) auto
  have "mask_ip a (CIDRMask n (Suc l)) = mask_ip x (CIDRMask n (Suc l)) \<longleftrightarrow>
      p AND mask_byte n = q AND mask_byte n \<and> mask_ip a' (CIDRMask (n - 8) l) = mask_ip x' (CIDRMask (n - 8) l)"
    by (simp add: a x mask_ip_def)
  also have "\<dots> \<longleftrightarrow> (\<forall>i < min n 8. bit p (7 - i) = bit q (7 - i)) \<and>
      (\<forall>i < n - 8. ipbit a' i = ipbit x' i)"
    using 2(1) [OF a' x'] 2(4) byte_prefix_eq by simp
  also have "\<dots> \<longleftrightarrow> (\<forall>i < n. ipbit a i = ipbit x i)" (is "?l \<longleftrightarrow> ?r")
  proof
    assume ?l
    then show ?r unfolding a x ipbit_Cons by auto
  next
    assume H: ?r
    have "bit p (7 - i) = bit q (7 - i)" if "i < min n 8" for i
      using H [rule_format, of i] that by (simp add: a x ipbit_Cons)
    moreover have "ipbit a' i = ipbit x' i" if "i < n - 8" for i
      using H [rule_format, of "i + 8"] that by (simp add: a x ipbit_Cons)
    ultimately show ?l by blast
  qed
  finally show ?case .
qed

lemma Contains_v4:
  assumes "length a = 4" and "n \<le> 32" and "To4 x = Some y"
  shows "Contains_IP \<lparr>net_IP = mask_ip a (CIDRMask n 4), net_Mask = CIDRMask n 4\<rparr> x \<longleftrightarrow>
         (\<forall>i < n. ipbit y i = ipbit a i)"
proof -
  let ?m = "CIDRMask n 4"
  have y: "length y = 4" using assms(3) by (auto simp: To4_def split: if_splits)
  have "To4 (mask_ip a ?m) = Some (mask_ip a ?m)" using assms(1) by (simp add: To4_def)
  then have "Contains_IP \<lparr>net_IP = mask_ip a ?m, net_Mask = ?m\<rparr> x \<longleftrightarrow> mask_ip a ?m = mask_ip y ?m"
    using assms y by (auto simp: Contains_IP_def mask_ip_idem list_all2_eq [symmetric] Let_def)
  then show ?thesis using masked_eq_iff [of a 4 y n] assms y by auto
qed

end
