(* ===== verification/Query.thy ===== *)
theory Query
  imports Go_Strings Prelude "HOL-Library.AList" "HOL-Library.Char_ord" "HOL-Library.List_Lexorder"
begin

text \<open>
  Query strings as Go's \<^verbatim>\<open>net/url\<close> handles them: parsing into a map of value lists (parts that do
  not parse are skipped), the map's operations, and encoding with sorted keys. The plugins
  that rewrite queries parse, edit and encode.
\<close>

section \<open>Escaping\<close>

definition hexchar :: "nat \<Rightarrow> char" where
  "hexchar n = char_of (if n < 10 then 48 + n else 55 + n)"

definition unreserved :: "char \<Rightarrow> bool" where
  "unreserved c = (is_lower c \<or> is_upper c \<or> is_digit c \<or> c \<in> set ''-_.~'')"

definition escape_char :: "char \<Rightarrow> string" where
  "escape_char c =
     (if unreserved c then [c]
      else if c = CHR '' '' then ''+''
      else [CHR ''%'', hexchar (of_char c div 16), hexchar (of_char c mod 16)])"

definition QueryEscape :: "string \<Rightarrow> string" where
  "QueryEscape s = concat (map escape_char s)"

fun QueryUnescape :: "string \<Rightarrow> string option" where
  "QueryUnescape [] = Some []"
| "QueryUnescape (c # s) =
     (if c = CHR ''%'' then
        (case s of
           a # b # t \<Rightarrow>
             (case (hex_val a, hex_val b, QueryUnescape t) of
                (Some x, Some y, Some u) \<Rightarrow> Some (char_of (16 * x + y) # u)
              | _ \<Rightarrow> None)
         | _ \<Rightarrow> None)
      else map_option (\<lambda>u. (if c = CHR ''+'' then CHR '' '' else c) # u) (QueryUnescape s))"

section \<open>Values\<close>

type_synonym qvalues = "(string \<times> string list) list"

definition qvals :: "qvalues \<Rightarrow> string \<Rightarrow> string list" where
  "qvals q k = (case map_of q k of None \<Rightarrow> [] | Some vs \<Rightarrow> vs)"

definition q_Get :: "qvalues \<Rightarrow> string \<Rightarrow> string" where
  "q_Get q k = (case qvals q k of [] \<Rightarrow> [] | v # _ \<Rightarrow> v)"

definition q_Set :: "string \<Rightarrow> string \<Rightarrow> qvalues \<Rightarrow> qvalues" where
  "q_Set k v q = AList.update k [v] q"

definition q_Del :: "string \<Rightarrow> qvalues \<Rightarrow> qvalues" where
  "q_Del k q = AList.delete k q"

definition q_add :: "string \<times> string \<Rightarrow> qvalues \<Rightarrow> qvalues" where
  "q_add kv q = (case kv of (k, v) \<Rightarrow> AList.update k (qvals q k @ [v]) q)"

text \<open>One part of a query: the key and the value around the first equals sign, unescaped.\<close>

definition query_pair :: "string \<Rightarrow> (string \<times> string) option" where
  "query_pair part =
     (if CHR '';'' \<in> set part \<or> part = [] then None
      else let k = takeWhile (\<lambda>c. c \<noteq> CHR ''='') part; v = drop (length k + 1) part
           in case (QueryUnescape k, QueryUnescape v) of
                (Some k', Some v') \<Rightarrow> Some (k', v')
              | _ \<Rightarrow> None)"

definition ParseQuery :: "string \<Rightarrow> qvalues" where
  "ParseQuery s = fold q_add (List.map_filter query_pair (split_on (CHR ''&'') s)) []"

definition q_pairs :: "qvalues \<Rightarrow> (string \<times> string) list" where
  "q_pairs q = concat (map (\<lambda>k. map (Pair k) (qvals q k)) (sort (map fst q)))"

definition encode_pair :: "string \<times> string \<Rightarrow> string" where
  "encode_pair kv = (case kv of (k, v) \<Rightarrow> QueryEscape k @ ''='' @ QueryEscape v)"

fun join_with :: "string \<Rightarrow> string list \<Rightarrow> string" where
  "join_with sep [] = []"
| "join_with sep [x] = x"
| "join_with sep (x # y # xs) = x @ sep @ join_with sep (y # xs)"

definition Encode :: "qvalues \<Rightarrow> string" where
  "Encode q = join_with ''&'' (map encode_pair (q_pairs q))"

section \<open>Round trip\<close>

lemma of_char_div: "(of_char c :: nat) div 16 < 16"
  using of_char_less [of c] by (simp add: div_less_iff_less_mult)

lemma hex_val_hexchar: "n < 16 \<Longrightarrow> hex_val (hexchar n) = Some n"
  unfolding hex_val_def hexchar_def by (auto simp: Let_def of_char_of)

lemma hex_byte: "char_of (16 * ((of_char c :: nat) div 16) + of_char c mod 16) = c"
  by simp

lemma unescape_escape_char:
  "QueryUnescape (escape_char c @ s) = map_option ((#) c) (QueryUnescape s)"
proof -
  have "(of_char c :: nat) div 16 < 16" by (rule of_char_div)
  then have "hex_val (hexchar (of_char c div 16)) = Some (of_char c div 16)"
    "hex_val (hexchar (of_char c mod 16)) = Some (of_char c mod 16)"
    by (simp_all add: hex_val_hexchar)
  moreover have "unreserved c \<Longrightarrow> c \<noteq> CHR ''%'' \<and> c \<noteq> CHR ''+''"
    by (auto simp: unreserved_def is_lower_def is_upper_def is_digit_def)
  ultimately show ?thesis
    by (cases "QueryUnescape s") (auto simp: escape_char_def hex_byte)
qed

lemma QueryUnescape_escape: "QueryUnescape (QueryEscape s) = Some s"
  unfolding QueryEscape_def by (induction s) (simp_all add: unescape_escape_char)

text \<open>The separators do not occur in escaped text.\<close>

lemma escape_no_sep:
  "c \<in> set (escape_char d) \<Longrightarrow> c \<noteq> CHR ''&'' \<and> c \<noteq> CHR ''='' \<and> c \<noteq> CHR '';''"
proof -
  have hex: "hexchar n \<notin> {CHR ''&'', CHR ''='', CHR '';''}" if "n < 16" for n
    using that hex_val_hexchar [of n] by (auto simp: hex_val_def)
  have "(of_char d :: nat) div 16 < 16" by (rule of_char_div)
  then have "hexchar (of_char d div 16) \<notin> {CHR ''&'', CHR ''='', CHR '';''}"
    "hexchar (of_char d mod 16) \<notin> {CHR ''&'', CHR ''='', CHR '';''}"
    using hex by simp_all
  moreover assume "c \<in> set (escape_char d)"
  ultimately show ?thesis
    by (auto simp: escape_char_def unreserved_def is_lower_def is_upper_def is_digit_def
        split: if_splits)
qed

lemma QueryEscape_no_sep:
  "c \<in> set (QueryEscape s) \<Longrightarrow> c \<noteq> CHR ''&'' \<and> c \<noteq> CHR ''='' \<and> c \<noteq> CHR '';''"
  unfolding QueryEscape_def by (auto dest: escape_no_sep)

lemma query_pair_encode: "query_pair (encode_pair kv) = Some kv"
proof (cases kv)
  case (Pair k v)
  have "takeWhile (\<lambda>c. c \<noteq> CHR ''='') (QueryEscape k @ ''='' @ QueryEscape v) = QueryEscape k"
    by (subst takeWhile_append2) (auto dest: QueryEscape_no_sep)
  moreover have "CHR '';'' \<notin> set (encode_pair kv)"
    using Pair by (auto simp: encode_pair_def dest: QueryEscape_no_sep)
  ultimately show ?thesis
    using Pair by (simp add: query_pair_def encode_pair_def QueryUnescape_escape Let_def)
qed

lemma split_on_join:
  assumes "xs \<noteq> []" and "\<forall>x \<in> set xs. c \<notin> set x"
  shows "split_on c (join_with [c] xs) = xs"
  using assms
proof (induction "[c]" xs rule: join_with.induct)
  case (3 x y xs)
  then show ?case using split_on_app_sep [of c x] by simp
qed (simp_all add: split_on_no_sep)

lemma qvals_q_add: "qvals (q_add (k, v) q) j = qvals q j @ (if j = k then [v] else [])"
  by (simp add: qvals_def q_add_def AList.update_conv')

lemma qvals_fold_q_add:
  "qvals (fold q_add kvs q) j = qvals q j @ map snd (filter (\<lambda>kv. fst kv = j) kvs)"
  by (induction kvs arbitrary: q) (auto simp: qvals_q_add)

lemma qvals_q_pairs:
  assumes "distinct (map fst q)"
  shows "map snd (filter (\<lambda>kv. fst kv = j) (q_pairs q)) = qvals q j"
proof -
  have pick: "map snd (filter (\<lambda>kv. fst kv = j) (concat (map (\<lambda>k. map (Pair k) (f k)) ks)))
      = (if j \<in> set ks then f j else [])" if "distinct ks" for ks and f :: "string \<Rightarrow> string list"
    using that
  proof (induction ks)
    case (Cons a ks)
    then show ?case by (cases "a = j") (auto simp: filter_map comp_def)
  qed simp
  have "j \<notin> set (map fst q) \<Longrightarrow> qvals q j = []"
    by (simp add: qvals_def map_of_eq_None_iff [THEN iffD2])
  then show ?thesis unfolding q_pairs_def using assms by (subst pick) auto
qed

text \<open>Encoding a set of query values and parsing the result gives every key its values back.\<close>

lemma ParseQuery_Encode:
  assumes "distinct (map fst q)"
  shows "qvals (ParseQuery (Encode q)) k = qvals q k"
proof -
  have "List.map_filter query_pair (split_on (CHR ''&'') (Encode q)) = q_pairs q"
  proof (cases "q_pairs q = []")
    case True
    then show ?thesis by (simp add: Encode_def query_pair_def List.map_filter_def)
  next
    case False
    have "split_on (CHR ''&'') (Encode q) = map encode_pair (q_pairs q)"
      unfolding Encode_def using False
      by (intro split_on_join)
        (auto simp: encode_pair_def dest: QueryEscape_no_sep split: prod.splits)
    then show ?thesis
      by (simp add: List.map_filter_def comp_def query_pair_encode)
  qed
  then show ?thesis
    using qvals_q_pairs [OF assms] by (simp add: ParseQuery_def qvals_fold_q_add) (simp add: qvals_def)
qed

lemma distinct_q_edit:
  "distinct (map fst q) \<Longrightarrow> distinct (map fst (q_Set k v q))"
  "distinct (map fst q) \<Longrightarrow> distinct (map fst (q_Del k q))"
  "distinct (map fst q) \<Longrightarrow> distinct (map fst (q_add kv q))"
  by (auto simp: q_Set_def q_Del_def q_add_def AList.distinct_update AList.delete_eq
      distinct_map_filter split: prod.splits)

lemma distinct_ParseQuery: "distinct (map fst (ParseQuery s))"
proof -
  have "distinct (map fst q) \<Longrightarrow> distinct (map fst (fold q_add kvs q))" for kvs q
    by (induction kvs arbitrary: q) (simp_all add: distinct_q_edit)
  then show ?thesis by (simp add: ParseQuery_def)
qed

lemma qvals_edit:
  "qvals (q_Set k v q) j = (if j = k then [v] else qvals q j)"
  "qvals (q_Del k q) j = (if j = k then [] else qvals q j)"
  by (simp_all add: qvals_def q_Set_def q_Del_def AList.update_conv' AList.delete_conv')

end
