(* ===== verification/Plugins.thy ===== *)
theory Plugins
  imports Rate_Limit Net_IP Query
begin

text \<open>
  The plugins (\<^verbatim>\<open>src/internal/plugin\<close>, \<^verbatim>\<open>src/internal/plugin/plugins\<close> and
  \<^verbatim>\<open>src/internal/pluginreg\<close>). \<open>New\<close> of a plugin returns an error or an instance, which holds
  what the Go closure captures; the handler an instance gives is \<open>plugin_serve\<close>. A plugin that
  only decides about a request and rewrites it is a gate: it rejects with a text and a status,
  or passes a request on. The token library \<^verbatim>\<open>golang-jwt\<close>, the token bucket and the
  formatting of claim values are arguments.
\<close>

section \<open>helpers.go\<close>

definition stringOr :: "cfg_map \<Rightarrow> string \<Rightarrow> string \<Rightarrow> string" where
  "stringOr cfg key dflt =
     (case map_of cfg key of Some (CStr v) \<Rightarrow> if v \<noteq> [] then v else dflt | _ \<Rightarrow> dflt)"

definition boolVal :: "cfg_map \<Rightarrow> string \<Rightarrow> bool" where
  "boolVal cfg key = (case map_of cfg key of Some (CBool v) \<Rightarrow> v | _ \<Rightarrow> False)"

definition floatVal :: "cfg_map \<Rightarrow> string \<Rightarrow> rat" where
  "floatVal cfg key = (case map_of cfg key of Some (CFloat v) \<Rightarrow> v | _ \<Rightarrow> 0)"

definition as_list :: "cfg_value option \<Rightarrow> cfg_value list" where
  "as_list v = (case v of Some (CList l) \<Rightarrow> l | _ \<Rightarrow> [])"

definition as_string :: "cfg_value \<Rightarrow> string option" where
  "as_string v = (case v of CStr s \<Rightarrow> Some s | _ \<Rightarrow> None)"

definition stringMap :: "cfg_map \<Rightarrow> string \<Rightarrow> (string \<times> string) list" where
  "stringMap cfg key =
     (let raw = (case map_of cfg key of Some (CMap m) \<Rightarrow> m | _ \<Rightarrow> [])
      in List.map_filter (\<lambda>(k, v). map_option (Pair k) (as_string v)) raw)"

definition stringList :: "cfg_map \<Rightarrow> string \<Rightarrow> string list" where
  "stringList cfg key = List.map_filter as_string (as_list (map_of cfg key))"

section \<open>Instances\<close>

datatype plugin_error =
    KeysRequired | SecretRequired | UnsupportedAlgorithm string | InvalidCIDR string
  | InvalidRate | UnknownPlugin

datatype 'l plugin_inst =
    KeyAuth string string bool "string list"
  | JWT string string "(string \<times> string) list"
  | IPRestriction "IPNet list" "IPNet list"
  | RequestTransformer "(string \<times> string) list" "string list" "(string \<times> string) list"
      "(string \<times> string) list" "string list"
  | ResponseTransformer "(string \<times> string) list" "string list" "(string \<times> string) list"
  | RateLimit "'l ipStore"

type_synonym gate_result = "(string \<times> int) + Request"

subsection \<open>key_auth.go\<close>

definition KeyAuth_New :: "cfg_map \<Rightarrow> plugin_error + 'l plugin_inst" where
  "KeyAuth_New cfg =
     (let header = stringOr cfg ''header'' ''X-API-Key'';
          query = stringOr cfg ''query'' ''api_key'';
          hideCredentials = boolVal cfg ''hide_credentials'';
          rawKeys = as_list (map_of cfg ''keys'')
      in if length rawKeys = 0 then Inl KeysRequired
         else Inr (KeyAuth header query hideCredentials
                     (filter (\<lambda>s. s \<noteq> []) (List.map_filter as_string rawKeys))))"

definition validKey :: "string \<Rightarrow> string list \<Rightarrow> bool" where
  "validKey provided keys = list_ex (\<lambda>k. provided = k) keys"

definition provided_key :: "string \<Rightarrow> string \<Rightarrow> Request \<Rightarrow> string" where
  "provided_key header query r =
     (let key = Get (ReqHeader r) header
      in if key = [] then q_Get (ParseQuery (url_RawQuery (ReqURL r))) query else key)"

definition key_auth_gate :: "string \<Rightarrow> string \<Rightarrow> bool \<Rightarrow> string list \<Rightarrow> Request \<Rightarrow> gate_result" where
  "key_auth_gate header query hideCredentials keys r =
     (if \<not> validKey (provided_key header query r) keys then Inl (''unauthorized'', 401)
      else if hideCredentials then
        Inr (r\<lparr>ReqHeader := Del header (ReqHeader r),
               ReqURL := (ReqURL r)\<lparr>url_RawQuery :=
                 Encode (q_Del query (ParseQuery (url_RawQuery (ReqURL r))))\<rparr>\<rparr>)
      else Inr r)"

subsection \<open>jwt.go\<close>

text \<open>
  \<open>jwt.Parse\<close>, with a key function, the valid methods and a required expiry: an error, or a token
  with its validity and its claims, if these are a claims map.
\<close>

datatype jwt_family = HMAC | OtherFamily

record jwt_token =
  tok_Valid :: bool
  tok_Claims :: "cfg_map option"

type_synonym jwt_parser =
  "(jwt_family \<Rightarrow> string option) \<Rightarrow> string list \<Rightarrow> string \<Rightarrow> jwt_token option"

definition JWT_New :: "cfg_map \<Rightarrow> plugin_error + 'l plugin_inst" where
  "JWT_New cfg =
     (let secret = stringOr cfg ''secret'' [];
          algorithm = stringOr cfg ''algorithm'' ''HS256'';
          claimsToHeaders = stringMap cfg ''claims_to_headers''
      in if secret = [] then Inl SecretRequired
         else if ToUpper algorithm \<in> {''HS256'', ''HS384'', ''HS512''}
         then Inr (JWT secret algorithm claimsToHeaders)
         else Inl (UnsupportedAlgorithm algorithm))"

definition jwt_keyFunc :: "string \<Rightarrow> jwt_family \<Rightarrow> string option" where
  "jwt_keyFunc secret method = (case method of HMAC \<Rightarrow> Some secret | OtherFamily \<Rightarrow> None)"

definition extractBearerToken :: "Request \<Rightarrow> string" where
  "extractBearerToken r =
     (let auth = Get (ReqHeader r) ''Authorization''
      in if auth = [] then []
         else if \<not> HasPrefix auth ''Bearer '' then []
         else TrimSpace (drop (length ''Bearer '') auth))"

definition claims_headers ::
  "(cfg_value \<Rightarrow> string) \<Rightarrow> (string \<times> string) list \<Rightarrow> cfg_map \<Rightarrow> header \<Rightarrow> header" where
  "claims_headers fmt claimsToHeaders claims h =
     fold (\<lambda>(claim, header) h. case map_of claims claim of Some val \<Rightarrow> Set header (fmt val) h | None \<Rightarrow> h)
       claimsToHeaders h"

definition jwt_gate ::
  "jwt_parser \<Rightarrow> (cfg_value \<Rightarrow> string) \<Rightarrow> string \<Rightarrow> string \<Rightarrow> (string \<times> string) list \<Rightarrow> Request \<Rightarrow> gate_result" where
  "jwt_gate parse fmt secret algorithm claimsToHeaders r =
     (let tokenStr = extractBearerToken r
      in if tokenStr = [] then Inl (''missing or invalid Authorization header'', 401)
         else (case parse (jwt_keyFunc secret) [algorithm] tokenStr of
                 None \<Rightarrow> Inl (''invalid token'', 401)
               | Some token \<Rightarrow>
                   if \<not> tok_Valid token then Inl (''invalid token'', 401)
                   else (case tok_Claims token of
                           None \<Rightarrow> Inl (''invalid token claims'', 401)
                         | Some claims \<Rightarrow>
                             if length claimsToHeaders > 0
                             then Inr (r\<lparr>ReqHeader := claims_headers fmt claimsToHeaders claims (ReqHeader r)\<rparr>)
                             else Inr r)))"

subsection \<open>ip_restriction.go\<close>

definition cidr_text :: "string \<Rightarrow> string" where
  "cidr_text s0 =
     (let s = TrimSpace s0
      in if \<not> Contains s ''/'' then (if Contains s '':'' then s @ ''/128'' else s @ ''/32'') else s)"

fun parse_cidrs :: "cfg_value list \<Rightarrow> plugin_error + IPNet list" where
  "parse_cidrs [] = Inr []"
| "parse_cidrs (entry # raw) =
     (case as_string entry of
        None \<Rightarrow> parse_cidrs raw
      | Some s \<Rightarrow>
          (case ParseCIDR (cidr_text s) of
             None \<Rightarrow> Inl (InvalidCIDR (cidr_text s))
           | Some n \<Rightarrow> (case parse_cidrs raw of Inl e \<Rightarrow> Inl e | Inr nets \<Rightarrow> Inr (n # nets))))"

definition parseCIDRList :: "cfg_map \<Rightarrow> string \<Rightarrow> plugin_error + IPNet list" where
  "parseCIDRList cfg key = parse_cidrs (as_list (map_of cfg key))"

definition containsIP :: "IPNet list \<Rightarrow> ip \<Rightarrow> bool" where
  "containsIP nets a = list_ex (\<lambda>n. Contains_IP n a) nets"

definition ip_or_nil :: "ip option \<Rightarrow> ip" where
  "ip_or_nil a = (case a of None \<Rightarrow> [] | Some x \<Rightarrow> x)"

definition parseClientIP :: "Request \<Rightarrow> ip" where
  "parseClientIP r =
     (let xff = Get (ReqHeader r) ''X-Forwarded-For'';
          fallback = (case SplitHostPort (RemoteAddr r) of
                        None \<Rightarrow> ip_or_nil (ParseIP (RemoteAddr r))
                      | Some (host, _) \<Rightarrow> ip_or_nil (ParseIP host))
      in if xff \<noteq> []
         then (case ParseIP (TrimSpace (hd (split_on (CHR '','') xff))) of
                 Some a \<Rightarrow> a
               | None \<Rightarrow> fallback)
         else fallback)"

definition IPRestriction_New :: "cfg_map \<Rightarrow> plugin_error + 'l plugin_inst" where
  "IPRestriction_New cfg =
     (case parseCIDRList cfg ''allow'' of
        Inl e \<Rightarrow> Inl e
      | Inr allowNets \<Rightarrow>
          (case parseCIDRList cfg ''deny'' of
             Inl e \<Rightarrow> Inl e
           | Inr denyNets \<Rightarrow> Inr (IPRestriction allowNets denyNets)))"

definition ip_restriction_gate :: "IPNet list \<Rightarrow> IPNet list \<Rightarrow> Request \<Rightarrow> gate_result" where
  "ip_restriction_gate allowNets denyNets r =
     (let a = parseClientIP r
      in if containsIP denyNets a then Inl (''forbidden'', 403)
         else if length allowNets > 0 \<and> \<not> containsIP allowNets a then Inl (''forbidden'', 403)
         else Inr r)"

subsection \<open>request_transformer.go and response_transformer.go\<close>

definition RequestTransformer_New :: "cfg_map \<Rightarrow> plugin_error + 'l plugin_inst" where
  "RequestTransformer_New cfg =
     Inr (RequestTransformer (stringMap cfg ''add_headers'') (stringList cfg ''remove_headers'')
            (stringMap cfg ''rename_headers'') (stringMap cfg ''add_query'')
            (stringList cfg ''remove_query''))"

definition transform_query ::
  "string list \<Rightarrow> (string \<times> string) list \<Rightarrow> qvalues \<Rightarrow> qvalues" where
  "transform_query remove add q = fold (\<lambda>(k, v). q_Set k v) add (fold q_Del remove q)"

definition request_transformer ::
  "(string \<times> string) list \<Rightarrow> string list \<Rightarrow> (string \<times> string) list \<Rightarrow> (string \<times> string) list \<Rightarrow>
   string list \<Rightarrow> Request \<Rightarrow> Request" where
  "request_transformer addHeaders removeHeaders renameHeaders addQuery removeQuery r =
     (let r1 = r\<lparr>ReqHeader := transform_headers removeHeaders renameHeaders addHeaders (ReqHeader r)\<rparr>
      in if length addQuery > 0 \<or> length removeQuery > 0
         then r1\<lparr>ReqURL := (ReqURL r1)\<lparr>url_RawQuery :=
                 Encode (transform_query removeQuery addQuery
                   (ParseQuery (url_RawQuery (ReqURL r1))))\<rparr>\<rparr>
         else r1)"

definition ResponseTransformer_New :: "cfg_map \<Rightarrow> plugin_error + 'l plugin_inst" where
  "ResponseTransformer_New cfg =
     Inr (ResponseTransformer (stringMap cfg ''add_headers'') (stringList cfg ''remove_headers'')
            (stringMap cfg ''rename_headers''))"

subsection \<open>rate_limit.go\<close>

definition RateLimit_New :: "cfg_map \<Rightarrow> plugin_error + 'l plugin_inst" where
  "RateLimit_New cfg =
     (case map_of cfg ''requests_per_second'' of
        Some (CFloat rps) \<Rightarrow>
          (if rps \<le> 0 then Inl InvalidRate
           else let burst = trunc (floatVal cfg ''burst'')
                in Inr (RateLimit (newIPStore rps (if burst \<le> 0 then trunc rps else burst))))
      | _ \<Rightarrow> Inl InvalidRate)"

section \<open>plugin.go and registry.go\<close>

datatype plugin_kind =
    KeyAuthPlugin | JWTPlugin | IPRestrictionPlugin | RequestTransformerPlugin
  | ResponseTransformerPlugin | RateLimitPlugin

fun Plugin_Name :: "plugin_kind \<Rightarrow> string" where
  "Plugin_Name KeyAuthPlugin = ''key-auth''"
| "Plugin_Name JWTPlugin = ''jwt''"
| "Plugin_Name IPRestrictionPlugin = ''ip-restriction''"
| "Plugin_Name RequestTransformerPlugin = ''request-header-transformer''"
| "Plugin_Name ResponseTransformerPlugin = ''response-header-transformer''"
| "Plugin_Name RateLimitPlugin = ''rate-limit''"

fun Plugin_New :: "plugin_kind \<Rightarrow> cfg_map \<Rightarrow> plugin_error + 'l plugin_inst" where
  "Plugin_New KeyAuthPlugin cfg = KeyAuth_New cfg"
| "Plugin_New JWTPlugin cfg = JWT_New cfg"
| "Plugin_New IPRestrictionPlugin cfg = IPRestriction_New cfg"
| "Plugin_New RequestTransformerPlugin cfg = RequestTransformer_New cfg"
| "Plugin_New ResponseTransformerPlugin cfg = ResponseTransformer_New cfg"
| "Plugin_New RateLimitPlugin cfg = RateLimit_New cfg"

type_synonym plugin_registry = "string \<rightharpoonup> plugin_kind"

definition Register :: "plugin_kind \<Rightarrow> plugin_registry \<Rightarrow> plugin_registry" where
  "Register p r = r(Plugin_Name p \<mapsto> p)"

definition Registry_Default :: plugin_registry where
  "Registry_Default =
     fold Register [KeyAuthPlugin, JWTPlugin, IPRestrictionPlugin, RequestTransformerPlugin,
                    ResponseTransformerPlugin, RateLimitPlugin] Map.empty"

section \<open>The handlers\<close>

record 'l plugin_env =
  pe_jwt :: jwt_parser
  pe_fmt :: "cfg_value \<Rightarrow> string"
  pe_limiter :: "'l limiter_ops"
  pe_now :: time

definition serve_gate :: "gate_result \<Rightarrow> 's handler \<Rightarrow> writer \<Rightarrow> 's \<Rightarrow> writer \<times> 's \<times> outcome" where
  "serve_gate g next w s =
     (case g of Inl (msg, code) \<Rightarrow> reply_error msg code w s | Inr r \<Rightarrow> next r w s)"

definition with_inst ::
  "'l plugin_inst \<Rightarrow> writer \<times> 's \<times> outcome \<Rightarrow> writer \<times> ('l plugin_inst \<times> 's) \<times> outcome" where
  "with_inst p res = (case res of (w, s, out) \<Rightarrow> (w, (p, s), out))"

fun plugin_serve ::
  "'l plugin_env \<Rightarrow> 's handler \<Rightarrow> 'l plugin_inst \<Rightarrow> Request \<Rightarrow> writer \<Rightarrow> 's
     \<Rightarrow> writer \<times> ('l plugin_inst \<times> 's) \<times> outcome" where
  "plugin_serve env next (KeyAuth header query hide keys) r w s =
     with_inst (KeyAuth header query hide keys)
       (serve_gate (key_auth_gate header query hide keys r) next w s)"
| "plugin_serve env next (JWT secret alg claims) r w s =
     with_inst (JWT secret alg claims)
       (serve_gate (jwt_gate (pe_jwt env) (pe_fmt env) secret alg claims r) next w s)"
| "plugin_serve env next (IPRestriction allow deny) r w s =
     with_inst (IPRestriction allow deny) (serve_gate (ip_restriction_gate allow deny r) next w s)"
| "plugin_serve env next (RequestTransformer add remove rename addq removeq) r w s =
     with_inst (RequestTransformer add remove rename addq removeq)
       (next (request_transformer add remove rename addq removeq r) w s)"
| "plugin_serve env next (ResponseTransformer add remove rename) r w s =
     with_inst (ResponseTransformer add remove rename)
       (let (w1, s1, out) = next r (push_layer (Transform (newTransformResponseWriter add remove rename)) w) s
        in (snd (pop_layer w1), s1, out))"
| "plugin_serve env next (RateLimit store) r w s =
     (let (w1, (store1, s1), out) = IPRateLimit (pe_limiter env) (pe_now env) next r w (store, s)
      in (w1, (RateLimit store1, s1), out))"

text \<open>
  A chain of instances around a handler: the first one is the outermost. A handler is called at
  most once, so the inner instances are still as they were when it is.
\<close>

fun chain_serve ::
  "'l plugin_env \<Rightarrow> 's handler \<Rightarrow> 'l plugin_inst list \<Rightarrow> Request \<Rightarrow> writer \<Rightarrow> 's
     \<Rightarrow> writer \<times> ('l plugin_inst list \<times> 's) \<times> outcome" where
  "chain_serve env next [] r w s = (let (w1, s1, out) = next r w s in (w1, ([], s1), out))"
| "chain_serve env next (p # ps) r w s =
     (let (w1, (p1, ps1, s1), out) =
        plugin_serve env (\<lambda>r w (_, s). chain_serve env next ps r w s) p r w (ps, s)
      in (w1, (p1 # ps1, s1), out))"

end
