(* ===== verification/Layers.thy ===== *)
theory Layers
  imports Plain_Writers
begin

text \<open>
  The contract of a list of layers around a handler, shared by the plugin chain of a route and
  the middleware stack of the router: serving a list is serving its first layer around the rest.
  A layer calls the handler inside it at most once, keeps its kind, and does not depend on what
  that handler does with writers that cannot be hijacked if it was given such a writer itself.
\<close>

section \<open>Calling a handler at most once\<close>

text \<open>What a run of a wrapped handler did to the state behind the wrapper.\<close>

definition calls_once :: "'s handler \<Rightarrow> 's \<Rightarrow> 's \<Rightarrow> bool" where
  "calls_once h s s' \<longleftrightarrow> s' = s \<or> (\<exists>r w w1 out. h r w s = (w1, s', out))"

text \<open>The same, for a wrapper that passes a panic on.\<close>

definition at_most_once :: "'s handler \<Rightarrow> 's \<Rightarrow> 's \<Rightarrow> outcome \<Rightarrow> bool" where
  "at_most_once h s s' out \<longleftrightarrow>
     s' = s \<or> (\<exists>r w w1. h r w s = (w1, s', Returned) \<or> h r w s = (w1, s', Panicked) \<and> out = Panicked)"

lemma calls_onceI: "h r w s = (w1, s', out) \<Longrightarrow> calls_once h s s'"
  by (auto simp: calls_once_def)

lemma calls_once_refl [simp]: "calls_once h s s"
  by (simp add: calls_once_def)

lemma at_most_onceI: "h r w s = (w1, s', out) \<Longrightarrow> at_most_once h s s' out"
  by (cases out) (auto simp: at_most_once_def)

lemma at_most_once_refl [simp]: "at_most_once h s s out"
  by (simp add: at_most_once_def)

lemma at_most_once_calls: "at_most_once h s s' out \<Longrightarrow> calls_once h s s'"
  by (auto simp: at_most_once_def calls_once_def)

lemma reply_error_state: "reply_error msg code w s = (w', s', out) \<Longrightarrow> s' = s"
  by (auto simp: reply_error_def split: prod.splits)

section \<open>Writers that cannot be hijacked\<close>

definition unhijackable :: "writer \<Rightarrow> bool" where
  "unhijackable w \<longleftrightarrow> \<not> layers_Hijack (w_layers w) (w_base w)"

lemma unhijackable_push [simp]: "unhijackable w \<Longrightarrow> unhijackable (push_layer l w)"
  by (cases l) (auto simp: unhijackable_def push_layer_def)

lemma is_Hijacker_header [simp]: "is_Hijacker ls (b\<lparr>bw_header := h\<rparr>) = is_Hijacker ls b"
  by (induction ls b rule: is_Hijacker.induct) simp_all

lemma layers_Hijack_header [simp]: "layers_Hijack ls (b\<lparr>bw_header := h\<rparr>) = layers_Hijack ls b"
  by (induction ls b rule: layers_Hijack.induct) simp_all

lemma unhijackable_set_header [simp]: "unhijackable (w_set_header f w) \<longleftrightarrow> unhijackable w"
  by (simp add: unhijackable_def w_set_header_def)

lemma unhijackable_timeoutWriter [simp]: "unhijackable (timeoutWriter late)"
  by (simp add: unhijackable_def timeoutWriter_def)

text \<open>Two handlers that agree on such writers.\<close>

definition agree_unhijackable :: "'s handler \<Rightarrow> 's handler \<Rightarrow> bool" where
  "agree_unhijackable h h' \<longleftrightarrow> (\<forall>r w s. unhijackable w \<longrightarrow> h r w s = h' r w s)"

lemma agreeD: "agree_unhijackable h h' \<Longrightarrow> unhijackable w \<Longrightarrow> h r w s = h' r w s"
  by (simp add: agree_unhijackable_def)

section \<open>The contract\<close>

locale layered =
  fixes serve1 :: "('m list \<times> 's) handler \<Rightarrow> 'm \<Rightarrow> Request \<Rightarrow> writer \<Rightarrow> 'm list \<times> 's
                     \<Rightarrow> writer \<times> ('m \<times> 'm list \<times> 's) \<times> outcome"
    and serve :: "'s handler \<Rightarrow> 'm list \<Rightarrow> Request \<Rightarrow> writer \<Rightarrow> 's
                     \<Rightarrow> writer \<times> ('m list \<times> 's) \<times> outcome"
    and shape :: "'m \<Rightarrow> 'm"
  assumes serve_Nil: "serve h [] r w s = (let (w1, s1, out) = h r w s in (w1, ([], s1), out))"
    and serve_Cons: "serve h (m # ms) r w s =
      (let (w1, (m1, ms1, s1), out) = serve1 (\<lambda>r w (_, s). serve h ms r w s) m r w (ms, s)
       in (w1, (m1 # ms1, s1), out))"
    and serve1_once: "serve1 k m r w x = (w', (m', x'), out) \<Longrightarrow> calls_once k x x'"
    and serve1_shape: "serve1 k m r w x = (w', (m', x'), out) \<Longrightarrow> shape m' = shape m"
    and serve1_agree: "agree_unhijackable k k' \<Longrightarrow> unhijackable w \<Longrightarrow> serve1 k m r w x = serve1 k' m r w x"
begin

lemma serve_ConsE:
  assumes "serve h (m # ms) r w s = (w', (ms', s'), out)"
  obtains m1 ms1 where "ms' = m1 # ms1"
    and "serve1 (\<lambda>r w x. serve h ms r w (snd x)) m r w (ms, s) = (w', (m1, ms1, s'), out)"
  using assms that by (auto simp: serve_Cons case_prod_beta' Let_def prod_eq_iff)

lemma serve_once: "serve h ms r w s = (w', (ms', s'), out) \<Longrightarrow> calls_once h s s'"
proof (induction ms arbitrary: r w w' ms' s' out)
  case Nil
  then show ?case by (auto simp: serve_Nil split: prod.splits dest: calls_onceI)
next
  case (Cons m ms)
  obtain m1 ms1 where "serve1 (\<lambda>r w x. serve h ms r w (snd x)) m r w (ms, s) = (w', (m1, ms1, s'), out)"
    using Cons.prems by (rule serve_ConsE)
  from serve1_once [OF this] consider "s' = s"
    | r1 w1 w2 o1 where "serve h ms r1 w1 s = (w2, (ms1, s'), o1)"
    by (auto simp: calls_once_def)
  then show ?case using Cons.IH by cases auto
qed

lemma serve_shape: "serve h ms r w s = (w', (ms', s'), out) \<Longrightarrow> map shape ms' = map shape ms"
proof (induction ms arbitrary: r w w' ms' s' out)
  case Nil
  then show ?case by (auto simp: serve_Nil split: prod.splits)
next
  case (Cons m ms)
  obtain m1 ms1 where ms': "ms' = m1 # ms1"
    and run: "serve1 (\<lambda>r w x. serve h ms r w (snd x)) m r w (ms, s) = (w', (m1, ms1, s'), out)"
    using Cons.prems by (rule serve_ConsE)
  have "map shape ms1 = map shape ms"
    using serve1_once [OF run] Cons.IH by (auto simp: calls_once_def)
  then show ?case using serve1_shape [OF run] ms' by simp
qed

lemma serve_agree:
  assumes "agree_unhijackable h h'"
  shows "unhijackable w \<Longrightarrow> serve h ms r w s = serve h' ms r w s"
proof (induction ms arbitrary: r w s)
  case Nil
  then show ?case by (simp add: serve_Nil agreeD [OF assms])
next
  case (Cons m ms)
  have "agree_unhijackable (\<lambda>r w (_, s). serve h ms r w s) (\<lambda>r w (_, s). serve h' ms r w s)"
    using Cons.IH by (auto simp: agree_unhijackable_def)
  from serve1_agree [OF this Cons.prems] show ?case by (simp add: serve_Cons)
qed

end

text \<open>Layers that pass a panic of the handler on.\<close>

locale layered_passing = layered serve1 serve shape
  for serve1 :: "('m list \<times> 's) handler \<Rightarrow> 'm \<Rightarrow> Request \<Rightarrow> writer \<Rightarrow> 'm list \<times> 's
                     \<Rightarrow> writer \<times> ('m \<times> 'm list \<times> 's) \<times> outcome"
    and serve :: "'s handler \<Rightarrow> 'm list \<Rightarrow> Request \<Rightarrow> writer \<Rightarrow> 's
                     \<Rightarrow> writer \<times> ('m list \<times> 's) \<times> outcome"
    and shape :: "'m \<Rightarrow> 'm" +
  assumes serve1_passes: "serve1 k m r w x = (w', (m', x'), out) \<Longrightarrow> at_most_once k x x' out"
begin

lemma serve_passes: "serve h ms r w s = (w', (ms', s'), out) \<Longrightarrow> at_most_once h s s' out"
proof (induction ms arbitrary: r w w' ms' s' out)
  case Nil
  then show ?case by (auto simp: serve_Nil split: prod.splits dest: at_most_onceI)
next
  case (Cons m ms)
  obtain m1 ms1 where "serve1 (\<lambda>r w x. serve h ms r w (snd x)) m r w (ms, s) = (w', (m1, ms1, s'), out)"
    using Cons.prems by (rule serve_ConsE)
  from serve1_passes [OF this] consider "s' = s"
    | r1 w1 w2 where "serve h ms r1 w1 s = (w2, (ms1, s'), Returned)"
    | r1 w1 w2 where "serve h ms r1 w1 s = (w2, (ms1, s'), Panicked)" "out = Panicked"
    unfolding at_most_once_def by auto
  then show ?case
  proof cases
    case 1
    then show ?thesis by simp
  next
    case (2 r1 w1 w2)
    then have "at_most_once h s s' Returned" using Cons.IH by auto
    then show ?thesis by (auto simp: at_most_once_def)
  next
    case (3 r1 w1 w2)
    then show ?thesis using Cons.IH by auto
  qed
qed

end

text \<open>
  Layers that hand the handler only writers of a certain kind, provided they were given such a
  writer themselves.
\<close>

locale layered_on = layered serve1 serve shape
  for serve1 :: "('m list \<times> 's) handler \<Rightarrow> 'm \<Rightarrow> Request \<Rightarrow> writer \<Rightarrow> 'm list \<times> 's
                     \<Rightarrow> writer \<times> ('m \<times> 'm list \<times> 's) \<times> outcome"
    and serve :: "'s handler \<Rightarrow> 'm list \<Rightarrow> Request \<Rightarrow> writer \<Rightarrow> 's
                     \<Rightarrow> writer \<times> ('m list \<times> 's) \<times> outcome"
    and shape :: "'m \<Rightarrow> 'm" +
  fixes kind :: "writer \<Rightarrow> bool" and good :: "'m \<Rightarrow> bool"
  assumes serve1_on: "good m \<Longrightarrow> kind w \<Longrightarrow> serve1 k m r w x = (w', (m', x'), out) \<Longrightarrow>
    x' = x \<or> (\<exists>r1 w1 w2 o1. kind w1 \<and> k r1 w1 x = (w2, x', o1))"
begin

lemma serve_on:
  "list_all good ms \<Longrightarrow> kind w \<Longrightarrow> serve h ms r w s = (w', (ms', s'), out) \<Longrightarrow>
   s' = s \<or> (\<exists>r1 w1 w2 o1. kind w1 \<and> h r1 w1 s = (w2, s', o1))"
proof (induction ms arbitrary: r w w' ms' s' out)
  case Nil
  then show ?case by (auto simp: serve_Nil split: prod.splits)
next
  case (Cons m ms)
  obtain m1 ms1 where run: "serve1 (\<lambda>r w x. serve h ms r w (snd x)) m r w (ms, s) = (w', (m1, ms1, s'), out)"
    using Cons.prems(3) by (rule serve_ConsE)
  have "good m" using Cons.prems(1) by simp
  from serve1_on [OF this Cons.prems(2) run] consider "s' = s"
    | r1 w1 w2 o1 where "kind w1" "serve h ms r1 w1 s = (w2, (ms1, s'), o1)"
    by auto
  then show ?case using Cons.IH Cons.prems(1) by cases auto
qed

end

end
