(* ===== verification/Plugin_Props.thy ===== *)
theory Plugin_Props
  imports Plugins Layers
begin

text \<open>What the plugins guarantee to the routes they protect, and where they do not.\<close>

section \<open>Chains\<close>

lemma serve_gate_once: "serve_gate g next w s = (w', s', out) \<Longrightarrow> at_most_once next s s' out"
  by (auto simp: serve_gate_def reply_error_def split: sum.splits prod.splits
      dest: at_most_onceI)

lemma plugin_serve_once:
  "plugin_serve env next p r w s = (w', (p', s'), out) \<Longrightarrow> at_most_once next s s' out"
proof (cases p)
  case (RateLimit store)
  moreover assume "plugin_serve env next p r w s = (w', (p', s'), out)"
  ultimately show ?thesis
    by (auto simp: IPRateLimit_def reply_error_def Let_def
        split: prod.splits if_splits dest: at_most_onceI)
qed (auto simp: with_inst_def split: prod.splits dest: serve_gate_once at_most_onceI)

text \<open>What of an instance stays as it is while it serves: all but the entries of a limiter's store.\<close>

fun plugin_shape :: "'l plugin_inst \<Rightarrow> 'l plugin_inst" where
  "plugin_shape (RateLimit s) = RateLimit (newIPStore (st_rps s) (st_burst s))"
| "plugin_shape p = p"

lemma allow_ip_config:
  "allow_ip ops now ip s = (ok, s') \<Longrightarrow> st_rps s' = st_rps s \<and> st_burst s' = st_burst s"
  by (auto simp: allow_ip_def ipStore_get_def Let_def split: prod.splits)

lemma plugin_serve_shape:
  "plugin_serve env h p r w s = (w', (p', s'), out) \<Longrightarrow> plugin_shape p' = plugin_shape p"
  by (cases p)
    (auto simp: with_inst_def IPRateLimit_def reply_error_def Let_def
      split: prod.splits if_splits dest!: allow_ip_config)

lemma plugin_serve_agree:
  "agree_unhijackable h h' \<Longrightarrow> unhijackable w \<Longrightarrow> plugin_serve env h p r w s = plugin_serve env h' p r w s"
  by (cases p)
    (simp_all add: serve_gate_def IPRateLimit_def agreeD cong: sum.case_cong prod.case_cong if_cong)

interpretation chain: layered_passing "plugin_serve env" "chain_serve env" plugin_shape
  for env :: "'l plugin_env"
proof unfold_locales
  fix h :: "'s handler" and r w s
  show "chain_serve env h [] r w s = (let (w1, s1, out) = h r w s in (w1, ([], s1), out))" by simp
qed (auto dest: plugin_serve_once plugin_serve_shape intro: at_most_once_calls
     simp del: plugin_serve.simps plugin_shape.simps simp: plugin_serve_agree)

lemma serve_gate_on:
  "kind w \<Longrightarrow> serve_gate g h w s = (w', s', out) \<Longrightarrow>
   s' = s \<or> (\<exists>r1 w1 w2 o1. kind w1 \<and> h r1 w1 s = (w2, s', o1))"
  by (auto simp: serve_gate_def split: sum.splits dest: reply_error_state)

lemma plugin_serve_plain:
  "plain w \<Longrightarrow> plugin_serve env h p r w s = (w', (p', s'), out) \<Longrightarrow>
   s' = s \<or> (\<exists>r1 w1 w2 o1. plain w1 \<and> h r1 w1 s = (w2, s', o1))"
proof (cases p)
  case (ResponseTransformer add remove rename)
  moreover assume "plain w" "plugin_serve env h p r w s = (w', (p', s'), out)"
  ultimately show ?thesis
    using plain_push [of "Transform (newTransformResponseWriter add remove rename)" w]
    by (auto simp: with_inst_def Let_def split: prod.splits)
next
  case (RateLimit store)
  moreover assume "plain w" "plugin_serve env h p r w s = (w', (p', s'), out)"
  ultimately show ?thesis
    by (auto simp: IPRateLimit_def Let_def split: prod.splits if_splits dest: reply_error_state)
qed (auto simp: with_inst_def split: prod.splits dest: serve_gate_on)

interpretation chain_plain: layered_on "plugin_serve env" "chain_serve env" plugin_shape plain "\<lambda>_. True"
  for env :: "'l plugin_env"
  by unfold_locales (rule plugin_serve_plain)

text \<open>
  C16. A plugin chain calls the handler behind it at most once. Whatever the chain, the request and
  the outcome, the state of the protected handler is as it was, or is what one call of it
  leaves, and a panic of that call is passed on; so a rejected request never reaches the
  route's engine, and none is sent twice.
\<close>

theorem chain_calls_once:
  assumes "chain_serve env next ps r w s = (w', (ps', s'), out)"
  shows "s' = s \<or>
         (\<exists>r1 w1 w2. next r1 w1 s = (w2, s', Returned) \<or> next r1 w1 s = (w2, s', Panicked) \<and> out = Panicked)"
  using chain.serve_passes [OF assms] by (simp add: at_most_once_def)

text \<open>A limiter that counts to its burst, and a token parser that rejects everything.\<close>

definition sample_penv :: "int plugin_env" where
  "sample_penv =
     \<lparr>pe_jwt = (\<lambda>_ _ _. None), pe_fmt = (\<lambda>_. []),
      pe_limiter = \<lparr>lim_New = (\<lambda>_ burst. burst), lim_Allow = (\<lambda>_ l. (l > 0, l - 1))\<rparr>, pe_now = 0\<rparr>"

theorem chain_calls_once_witness:
  "snd (fst (snd (chain_serve sample_penv (\<lambda>r w n. (w, Suc n, Returned))
     [KeyAuth ''X-Key'' ''q'' False [''x''], RateLimit (newIPStore 5 5)]
     (sample_request ''GET'' [(''X-Key'', [''x''])]) (sample_writer []) 0))) \<le> 1"
proof -
  obtain w' ps' s' out where run: "chain_serve sample_penv (\<lambda>r w n. (w, Suc n, Returned))
     [KeyAuth ''X-Key'' ''q'' False [''x''], RateLimit (newIPStore 5 5)]
     (sample_request ''GET'' [(''X-Key'', [''x''])]) (sample_writer []) 0 = (w', (ps', s'), out)"
    using prod_cases4 by (metis prod.collapse)
  from chain_calls_once [OF run] show ?thesis unfolding run by auto
qed

section \<open>Key authentication\<close>

lemma KeyAuth_New_keys:
  assumes "KeyAuth_New cfg = Inr (KeyAuth header query hide keys)"
  shows "k \<in> set keys \<longleftrightarrow> k \<noteq> [] \<and> CStr k \<in> set (as_list (map_of cfg ''keys''))"
proof -
  have "keys = filter (\<lambda>s. s \<noteq> []) (List.map_filter as_string (as_list (map_of cfg ''keys'')))"
    using assms by (auto simp: KeyAuth_New_def Let_def split: if_splits)
  moreover have "k \<in> set (List.map_filter as_string l) \<longleftrightarrow> CStr k \<in> set l" for l
    by (induction l) (auto simp: as_string_def split: cfg_value.splits)
  ultimately show ?thesis by auto
qed

text \<open>
  C17. Key authentication. With a configuration the plugin accepts, a request passes exactly when the
  key it presents, in the header or else in the query, is one of the configured non-empty
  strings; any other request is answered with 401. With hidden credentials the request that is
  passed on carries the key neither in the header nor in the query, and every other query
  parameter keeps its values.
\<close>

theorem key_auth_correct:
  assumes "KeyAuth_New cfg = Inr (KeyAuth header query hide keys)"
  shows "case key_auth_gate header query hide keys r of
           Inl (msg, code) \<Rightarrow> code = 401 \<and>
             (provided_key header query r = [] \<or>
              CStr (provided_key header query r) \<notin> set (as_list (map_of cfg ''keys'')))
         | Inr r' \<Rightarrow>
             provided_key header query r \<noteq> [] \<and>
             CStr (provided_key header query r) \<in> set (as_list (map_of cfg ''keys'')) \<and>
             (if hide then
                header_vals (ReqHeader r') (CanonicalHeaderKey header) = [] \<and>
                (\<forall>k. qvals (ParseQuery (url_RawQuery (ReqURL r'))) k =
                  (if k = query then [] else qvals (ParseQuery (url_RawQuery (ReqURL r))) k))
              else r' = r)"
proof -
  let ?q = "ParseQuery (url_RawQuery (ReqURL r))"
  have "qvals (ParseQuery (Encode (q_Del query ?q))) k = (if k = query then [] else qvals ?q k)" for k
    using ParseQuery_Encode [OF distinct_q_edit(2) [OF distinct_ParseQuery]] by (simp add: qvals_edit)
  then show ?thesis
    using KeyAuth_New_keys [OF assms]
    by (auto simp: key_auth_gate_def validKey_def list_ex_iff header_simps)
qed

definition sample_keys :: cfg_map where
  "sample_keys = [(''keys'', CList [CStr ''k1'']), (''hide_credentials'', CBool True)]"

theorem key_auth_correct_witness:
  "\<exists>r'. key_auth_gate ''X-API-Key'' ''api_key'' True [''k1'']
          (sample_request ''GET'' [(''X-Api-Key'', [''k1''])]) = Inr r' \<and>
        header_vals (ReqHeader r') ''X-Api-Key'' = []"
proof -
  let ?g = "key_auth_gate ''X-API-Key'' ''api_key'' True [''k1'']
              (sample_request ''GET'' [(''X-Api-Key'', [''k1''])])"
  have new: "KeyAuth_New sample_keys = Inr (KeyAuth ''X-API-Key'' ''api_key'' True [''k1''])"
    by (simp add: KeyAuth_New_def sample_keys_def stringOr_def boolVal_def as_list_def as_string_def)
  have "provided_key ''X-API-Key'' ''api_key'' (sample_request ''GET'' [(''X-Api-Key'', [''k1''])]) = ''k1''"
    "map_of sample_keys ''keys'' = Some (CList [CStr ''k1''])"
    "CanonicalHeaderKey ''X-API-Key'' = ''X-Api-Key''"
    by code_simp+
  then show ?thesis
    using key_auth_correct [OF new, of "sample_request ''GET'' [(''X-Api-Key'', [''k1''])]"]
    by (auto simp: as_list_def split: sum.splits)
qed

section \<open>Address restriction\<close>

definition v4net :: "ip \<times> nat \<Rightarrow> IPNet" where
  "v4net an = (case an of (a, n) \<Rightarrow>
     \<lparr>net_IP = mask_ip a (CIDRMask n 4), net_Mask = CIDRMask n 4\<rparr>)"

text \<open>An address is in a range when it starts with the range's first bits.\<close>

definition in_range :: "ip \<Rightarrow> ip \<times> nat \<Rightarrow> bool" where
  "in_range y an = (case an of (a, n) \<Rightarrow> \<forall>i < n. ipbit y i = ipbit a i)"

definition valid_range :: "ip \<times> nat \<Rightarrow> bool" where
  "valid_range an = (length (fst an) = 4 \<and> snd an \<le> 32)"

lemma containsIP_v4:
  assumes "list_all valid_range ans" and "To4 x = Some y"
  shows "containsIP (map v4net ans) x \<longleftrightarrow> (\<exists>an \<in> set ans. in_range y an)"
  using assms(1)
proof (induction ans)
  case (Cons an ans)
  obtain a n where "an = (a, n)" by (cases an)
  then show ?case
    using Cons Contains_v4 [of a n x y] assms(2)
    by (simp add: containsIP_def v4net_def in_range_def valid_range_def)
qed (simp add: containsIP_def)

text \<open>
  C18. Address restriction on IPv4 ranges. A request from an IPv4 client passes exactly when no denied
  range contains the address and, if there are allowed ranges, one of them does; membership is
  agreement on the first \<open>n\<close> bits of the range. Every other request is answered with 403.
\<close>

theorem ip_restriction_decides:
  assumes "list_all valid_range allow" and "list_all valid_range deny"
    and "To4 (parseClientIP r) = Some y"
  shows "ip_restriction_gate (map v4net allow) (map v4net deny) r =
         (if (\<forall>an \<in> set deny. \<not> in_range y an) \<and> (allow = [] \<or> (\<exists>an \<in> set allow. in_range y an))
          then Inr r else Inl (''forbidden'', 403))"
  using assms by (auto simp: ip_restriction_gate_def containsIP_v4 Let_def)

theorem ip_restriction_decides_witness:
  "case IPRestriction_New [(''deny'', CList [CStr ''10.0.0.0/8''])] of
     Inr (IPRestriction allow deny) \<Rightarrow>
       ip_restriction_gate allow deny (sample_request ''GET'' []) = Inl (''forbidden'', 403)
   | _ \<Rightarrow> False"
proof -
  have parts: "parseCIDRList [(''deny'', CList [CStr ''10.0.0.0/8''])] ''allow'' = Inr []"
    "parseCIDRList [(''deny'', CList [CStr ''10.0.0.0/8''])] ''deny'' = Inr [v4net ([10, 0, 0, 0], 8)]"
    by code_simp+
  have c: "list_all valid_range []" "list_all valid_range [([10, 0, 0, 0], 8)]"
    "To4 (parseClientIP (sample_request ''GET'' [])) = Some [10, 0, 0, 7]"
    by code_simp+
  have "in_range [10, 0, 0, 7] ([10, 0, 0, 0], 8)"
    by (auto simp: in_range_def ipbit_def)
  then show ?thesis
    using ip_restriction_decides [OF c] parts by (simp add: IPRestriction_New_def)
qed

text \<open>
  The address a client claims is the one that counts. A request from a denied address passes if
  it carries an \<open>X-Forwarded-For\<close> header that parses to an address outside the denied ranges,
  whatever address it was sent from; the plugin trusts the header of any client.
\<close>

lemma deny_bypassed_by_header:
  assumes "ParseIP (TrimSpace (hd (split_on (CHR '','') claim))) = Some a" and "claim \<noteq> []"
    and "\<not> containsIP deny a"
  shows "ip_restriction_gate [] deny (r\<lparr>ReqHeader := Set ''X-Forwarded-For'' claim (ReqHeader r)\<rparr>)
         = Inr (r\<lparr>ReqHeader := Set ''X-Forwarded-For'' claim (ReqHeader r)\<rparr>)"
  using assms by (simp add: ip_restriction_gate_def parseClientIP_def header_simps Let_def)

lemma deny_bypassed_by_header_instance:
  "\<exists>r'. ip_restriction_gate [] [v4net ([10, 0, 0, 0], 8)]
     ((sample_request ''GET'' [])\<lparr>ReqHeader := Set ''X-Forwarded-For'' ''8.8.8.8'' []\<rparr>) = Inr r'"
proof -
  have "ParseIP (TrimSpace (hd (split_on (CHR '','') ''8.8.8.8''))) = Some (v4prefix @ [8, 8, 8, 8])"
    "\<not> containsIP [v4net ([10, 0, 0, 0], 8)] (v4prefix @ [8, 8, 8, 8])"
    by code_simp+
  then show ?thesis
    using deny_bypassed_by_header [of "''8.8.8.8''" _ _ "sample_request ''GET'' []"]
    by (fastforce simp: sample_request_def)
qed

section \<open>Transformers\<close>

lemma qvals_fold_Set:
  "qvals (fold (\<lambda>(k, v). q_Set k v) add q) j =
     (case map_of (rev add) j of Some v \<Rightarrow> [v] | None \<Rightarrow> qvals q j)"
proof (induction add arbitrary: q)
  case (Cons kv add)
  then show ?case by (cases kv) (auto simp: qvals_edit map_add_def split: option.splits)
qed simp

lemma qvals_fold_Del: "qvals (fold q_Del ks q) j = (if j \<in> set ks then [] else qvals q j)"
  by (induction ks arbitrary: q) (auto simp: qvals_edit)

lemma distinct_transform_query:
  "distinct (map fst q) \<Longrightarrow> distinct (map fst (transform_query remove add q))"
proof -
  assume q: "distinct (map fst q)"
  have del: "distinct (map fst p) \<Longrightarrow> distinct (map fst (fold q_Del ks p))" for ks p
    by (induction ks arbitrary: p) (simp_all add: distinct_q_edit)
  have set: "distinct (map fst p) \<Longrightarrow> distinct (map fst (fold (\<lambda>(k, v). q_Set k v) kvs p))" for kvs p
    by (induction kvs arbitrary: p) (auto simp: distinct_q_edit)
  show ?thesis unfolding transform_query_def using q by (intro set del)
qed

text \<open>
  C20. The request transformer's query rules survive the wire. After the query string is parsed,
  edited and encoded again, an upstream that parses it finds every added parameter with the
  added value only, no removed parameter, and every other parameter with the values the client
  sent; without query rules the query string is untouched.
\<close>

theorem query_transform_correct:
  "let r' = request_transformer addh removeh renameh addq removeq r in
     if addq = [] \<and> removeq = [] then url_RawQuery (ReqURL r') = url_RawQuery (ReqURL r)
     else \<forall>k. qvals (ParseQuery (url_RawQuery (ReqURL r'))) k =
            (case map_of (rev addq) k of
               Some v \<Rightarrow> [v]
             | None \<Rightarrow> if k \<in> set removeq then [] else qvals (ParseQuery (url_RawQuery (ReqURL r))) k)"
proof -
  let ?q = "ParseQuery (url_RawQuery (ReqURL r))"
  have "qvals (ParseQuery (Encode (transform_query removeq addq ?q))) k =
      qvals (transform_query removeq addq ?q) k" for k
    by (intro ParseQuery_Encode distinct_transform_query distinct_ParseQuery)
  then show ?thesis
    by (auto simp: request_transformer_def transform_query_def qvals_fold_Set qvals_fold_Del Let_def
        split: option.splits)
qed

lemma vals_fold_Set:
  "header_vals (fold (\<lambda>(k, v). Set k v) add h) j =
     (case map_of (rev (map (\<lambda>(k, v). (CanonicalHeaderKey k, v)) add)) j of
        Some v \<Rightarrow> [v] | None \<Rightarrow> header_vals h j)"
proof (induction add arbitrary: h)
  case (Cons kv add)
  then show ?case by (cases kv) (auto simp: header_simps map_add_def split: option.splits)
qed simp

text \<open>
  Header rules without renames. After the transformation, of a request or of a response, an
  added header has exactly the added value, a removed header that is not added has none, and
  every other header is as it was; names are compared in canonical form. Adding takes
  precedence over removing.
\<close>

lemma header_transform_correct:
  "header_vals (transform_headers remove [] add h) j =
     (case map_of (rev (map (\<lambda>(k, v). (CanonicalHeaderKey k, v)) add)) j of
        Some v \<Rightarrow> [v]
      | None \<Rightarrow> if j \<in> CanonicalHeaderKey ` set remove then [] else header_vals h j)"
proof -
  have "header_vals (fold Del remove h) j
      = (if j \<in> CanonicalHeaderKey ` set remove then [] else header_vals h j)"
    using hdr.vals_del_all [of remove h j] by (simp add: hdr.del_all_def)
  then show ?thesis by (simp add: transform_headers_def vals_fold_Set Let_def split: option.split)
qed

text \<open>
  A rename moves the first value of a header to the new name, but a rename to another spelling
  of the same name deletes the header: the new name is set first and the old one deleted after.
\<close>

lemma rename_header:
  assumes "Get h old \<noteq> []"
  shows "header_vals (transform_headers [] [(old, newName)] [] h) j =
         (if j = CanonicalHeaderKey old then []
          else if j = CanonicalHeaderKey newName then [Get h old]
          else header_vals h j)"
  using assms by (simp add: transform_headers_def header_simps Let_def)

lemma rename_header_instance:
  "header_vals (transform_headers [] [(''x-user'', ''X-USER'')] [] [(''X-User'', [''u1''])]) ''X-User'' = []"
proof -
  have "Get [(''X-User'', [''u1''])] ''x-user'' \<noteq> []" "CanonicalHeaderKey ''x-user'' = ''X-User''"
    by code_simp+
  then show ?thesis using rename_header [of "[(''X-User'', [''u1''])]" "''x-user''" "''X-USER''"] by simp
qed

section \<open>Tokens\<close>

text \<open>
  A token algorithm in lower case locks the route. The plugin accepts the algorithm's name in any
  case, but hands it to the parser as it is written; with a parser that accepts a token only
  under one of the listed method names, and gets a key only for HMAC methods, whose names are in
  upper case, every request is answered with 401.
\<close>

lemma lowercase_algorithm_rejects_all:
  assumes "JWT_New cfg = Inr (JWT secret alg claims)" and "ToUpper alg \<noteq> alg"
    and "\<forall>kf methods t tok. (\<forall>f. f \<noteq> HMAC \<longrightarrow> kf f = None) \<longrightarrow> parse kf methods t = Some tok \<longrightarrow>
           tok_Valid tok \<longrightarrow> (\<exists>a \<in> set methods. a \<in> {''HS256'', ''HS384'', ''HS512''})"
  shows "\<exists>msg. jwt_gate parse fmt secret alg claims r = Inl (msg, 401)"
proof -
  have "ToUpper ''HS256'' = ''HS256''" "ToUpper ''HS384'' = ''HS384''" "ToUpper ''HS512'' = ''HS512''"
    by code_simp+
  then have "alg \<notin> {''HS256'', ''HS384'', ''HS512''}" using assms(2) by blast
  moreover have "\<forall>f. f \<noteq> HMAC \<longrightarrow> jwt_keyFunc secret f = None"
    by (auto simp: jwt_keyFunc_def split: jwt_family.splits)
  ultimately have "\<not> tok_Valid tok" if "parse (jwt_keyFunc secret) [alg] t = Some tok" for t tok
    using assms(3) [rule_format, of "jwt_keyFunc secret" "[alg]" t tok] that by auto
  then show ?thesis by (auto simp: jwt_gate_def Let_def split: option.splits)
qed

text \<open>A parser that accepts one token under HS256.\<close>

definition sample_parser :: jwt_parser where
  "sample_parser kf methods t =
     (if kf HMAC \<noteq> None \<and> ''HS256'' \<in> set methods \<and> t = ''good''
      then Some \<lparr>tok_Valid = True, tok_Claims = Some []\<rparr> else None)"

lemma lowercase_algorithm_rejects_all_instance:
  "\<exists>msg. jwt_gate sample_parser (\<lambda>_. []) ''s'' ''hs256'' []
     (sample_request ''GET'' [(''Authorization'', [''Bearer good''])]) = Inl (msg, 401)"
proof -
  have up: "ToUpper ''hs256'' = ''HS256''" by code_simp
  have new: "JWT_New [(''secret'', CStr ''s''), (''algorithm'', CStr ''hs256'')]
      = Inr (JWT ''s'' ''hs256'' [])"
    by (simp add: JWT_New_def stringOr_def stringMap_def up)
  show ?thesis
    by (rule lowercase_algorithm_rejects_all [OF new]) (auto simp: up sample_parser_def split: if_splits)
qed

end
