(* ===== verification/Gateway.thy ===== *)
theory Gateway
  imports Plugin_Props Failover
begin

text \<open>
  Health checking (\<^verbatim>\<open>src/internal/health\<close>), the construction of a route's engine
  (\<^verbatim>\<open>src/internal/proxy/builder.go\<close>) and the gateway (\<^verbatim>\<open>src/internal/proxy/gateway.go\<close>): the
  route table, the choice of the route, plugin chains and hot reload. \<open>url.Parse\<close> and
  \<open>URL.String\<close> are arguments, so what is shown holds for every parser of upstream addresses.
  The metrics registry is shared by all engines of a gateway: it is kept in the gateway and
  handed to the engine that serves a request.
\<close>

section \<open>checkers.go and health.go\<close>

text \<open>The outcome of a GET by the health client: \<open>None\<close> is a transport error.\<close>

definition check :: "(URL \<Rightarrow> string) \<Rightarrow> (string \<Rightarrow> int option) \<Rightarrow> string \<Rightarrow> Upstream \<Rightarrow> Upstream" where
  "check url_String client_Get path upstream =
     (let target = url_String (UpstreamURL upstream) @ path
      in case client_Get target of
           None \<Rightarrow> upstream\<lparr>Healthy := False\<rparr>
         | Some code \<Rightarrow>
             if code \<ge> 200 \<and> code < 400 then upstream\<lparr>Healthy := True\<rparr>
             else upstream\<lparr>Healthy := False\<rparr>)"

text \<open>One round of the loop of \<open>StartHealthChecks\<close>.\<close>

definition health_round ::
  "(URL \<Rightarrow> string) \<Rightarrow> (string \<Rightarrow> int option) \<Rightarrow> string \<Rightarrow> Upstream list \<Rightarrow> Upstream list" where
  "health_round url_String client_Get path upstreams = map (check url_String client_Get path) upstreams"

definition health_Handler :: "'s handler" where
  "health_Handler r w s =
     (let (w1, res) = w_Write ''OK'' (w_WriteHeader 200 w)
      in (w1, s, if res = WritePanic then Panicked else Returned))"

section \<open>builder.go\<close>

definition intOr :: "int \<Rightarrow> int \<Rightarrow> int" where
  "intOr v dflt = (if v = 0 then dflt else v)"

text \<open>\<open>time.Duration(n) * time.Second\<close>, a product of signed 64-bit integers.\<close>

definition seconds :: "int \<Rightarrow> int" where
  "seconds n = wrap64 (n * 1000000000)"

definition newUpstream :: "URL \<Rightarrow> int \<Rightarrow> int \<Rightarrow> int \<Rightarrow> int \<Rightarrow> Upstream" where
  "newUpstream url weight cbThreshold cbDuration cbHalfOpen =
     \<lparr>UpstreamURL = url, Healthy = True, ActiveConns = 0, Weight = weight, FailureCount = 0,
      CircuitOpenUntil = 0, circuitState = CircuitClosed, halfOpenInFlight = 0,
      CBFailureThreshold = cbThreshold, CBOpenDuration = cbDuration, CBHalfOpenRequests = cbHalfOpen\<rparr>"

definition build_upstreams :: "(string \<Rightarrow> URL option) \<Rightarrow> RouteConfig \<Rightarrow> Upstream list" where
  "build_upstreams url_Parse route =
     (let cb = rc_CircuitBreaker route;
          cbThreshold = intOr (cb_FailureThreshold cb) 3;
          cbDuration = seconds (intOr (cb_OpenDurationSeconds cb) 30);
          cbHalfOpen = intOr (cb_HalfOpenRequests cb) 1
      in List.map_filter (\<lambda>raw.
           case url_Parse (uc_URL raw) of
             None \<Rightarrow> None
           | Some parsed \<Rightarrow> Some (newUpstream parsed (uc_Weight raw) cbThreshold cbDuration cbHalfOpen))
           (rc_Upstreams route))"

definition newBalancer :: "string \<Rightarrow> Upstream list \<Rightarrow> Balancer" where
  "newBalancer algorithm upstreams =
     (if algorithm = ''least_conn'' then LB_LeastConn (NewLeastConnections upstreams)
      else if algorithm = ''weighted_rr'' then LB_Weighted (NewWeightedRoundRobin upstreams)
      else LB_RoundRobin (NewRoundRobin upstreams))"

definition buildRouteEngine ::
  "(string \<Rightarrow> URL option) \<Rightarrow> Config \<Rightarrow> RouteConfig \<Rightarrow> Registry \<Rightarrow> Engine" where
  "buildRouteEngine url_Parse cfg route metricsRegistry =
     NewEngine (rc_Name route)
       (newBalancer (px_Algorithm (cfg_Proxy cfg)) (build_upstreams url_Parse route))
       metricsRegistry (intOr (rc_MaxRetries route) 2) (rc_MaxBodyBytes route)
       (seconds (intOr (rc_TimeoutSeconds route) 30))"

section \<open>gateway.go\<close>

record 'l routeEntry =
  re_name :: string
  re_host :: string
  re_pathPrefix :: string
  re_plugins :: "'l plugin_inst list"
  re_engine :: Engine
  re_pluginNames :: "string list"

record 'l Gateway =
  gw_routes :: "'l routeEntry list"
  gw_pluginReg :: plugin_registry
  gw_metrics :: Registry

text \<open>The loop of \<open>buildPluginChain\<close>, from the last plugin to the first.\<close>

definition add_plugin ::
  "plugin_registry \<Rightarrow> PluginConfig \<Rightarrow> 'l plugin_inst list \<Rightarrow> 'l plugin_inst list" where
  "add_plugin reg pc handler =
     (if \<not> pc_Enabled pc then handler
      else (case reg (pc_Name pc) of
              None \<Rightarrow> handler
            | Some p \<Rightarrow>
                (case Plugin_New p (pc_Config pc) of
                   Inl err \<Rightarrow> handler
                 | Inr mw \<Rightarrow> mw # handler)))"

definition buildPluginChain :: "plugin_registry \<Rightarrow> PluginConfig list \<Rightarrow> 'l plugin_inst list" where
  "buildPluginChain reg pluginCfgs = fold (add_plugin reg) (rev pluginCfgs) []"

definition enabledPluginNames :: "PluginConfig list \<Rightarrow> string list" where
  "enabledPluginNames cfgs = map pc_Name (filter pc_Enabled cfgs)"

definition buildRoute ::
  "(string \<Rightarrow> URL option) \<Rightarrow> plugin_registry \<Rightarrow> Registry \<Rightarrow> Config \<Rightarrow> RouteConfig \<Rightarrow> 'l routeEntry" where
  "buildRoute url_Parse reg metrics cfg route =
     \<lparr>re_name = rc_Name route, re_host = rc_Host route, re_pathPrefix = rc_PathPrefix route,
      re_plugins = buildPluginChain reg (rc_Plugins route),
      re_engine = buildRouteEngine url_Parse cfg route metrics,
      re_pluginNames = enabledPluginNames (rc_Plugins route)\<rparr>"

definition buildRoutes ::
  "(string \<Rightarrow> URL option) \<Rightarrow> plugin_registry \<Rightarrow> Registry \<Rightarrow> Config \<Rightarrow> 'l routeEntry list" where
  "buildRoutes url_Parse reg metrics cfg =
     map (buildRoute url_Parse reg metrics cfg) (px_Routes (cfg_Proxy cfg))"

definition Gateway_New :: "(string \<Rightarrow> URL option) \<Rightarrow> Config \<Rightarrow> plugin_registry \<Rightarrow> 'l Gateway" where
  "Gateway_New url_Parse cfg pluginReg =
     (let reg = NewRegistry
      in \<lparr>gw_routes = buildRoutes url_Parse pluginReg reg cfg, gw_pluginReg = pluginReg,
          gw_metrics = reg\<rparr>)"

definition Gateway_Reload :: "(string \<Rightarrow> URL option) \<Rightarrow> Config \<Rightarrow> 'l Gateway \<Rightarrow> 'l Gateway" where
  "Gateway_Reload url_Parse cfg g =
     g\<lparr>gw_routes := buildRoutes url_Parse (gw_pluginReg g) (gw_metrics g) cfg\<rparr>"

text \<open>The snapshots of \<^verbatim>\<open>src/internal/admin/admin.go\<close>.\<close>

record UpstreamSnapshot =
  us_URL :: string
  us_Healthy :: bool
  us_ActiveConns :: int
  us_CircuitState :: string
  us_FailureCount :: int

record RouteSnapshot =
  rs_Name :: string
  rs_PathPrefix :: string
  rs_Host :: string
  rs_Plugins :: "string list"
  rs_Upstreams :: "UpstreamSnapshot list"

definition Gateway_Routes :: "'l Gateway \<Rightarrow> RouteSnapshot list" where
  "Gateway_Routes g =
     map (\<lambda>e. \<lparr>rs_Name = re_name e, rs_PathPrefix = re_pathPrefix e, rs_Host = re_host e,
               rs_Plugins = re_pluginNames e, rs_Upstreams = []\<rparr>) (gw_routes g)"

text \<open>The loop of \<open>match\<close> from entry \<open>i\<close> on, with the best entry so far.\<close>

definition route_score :: "string \<Rightarrow> string \<Rightarrow> int" where
  "route_score rhost prefix = int (length prefix) + (if rhost \<noteq> [] then 10000 else 0)"

definition route_matches :: "string \<Rightarrow> string \<Rightarrow> string \<times> string \<Rightarrow> bool" where
  "route_matches host path hp =
     (case hp of (rhost, prefix) \<Rightarrow>
        \<not> (rhost \<noteq> [] \<and> \<not> EqualFold rhost host) \<and> HasPrefix path prefix)"

fun match_loop ::
  "string \<Rightarrow> string \<Rightarrow> (string \<times> string) list \<Rightarrow> nat \<Rightarrow> nat option \<Rightarrow> int \<Rightarrow> nat option" where
  "match_loop host path [] i best bestScore = best"
| "match_loop host path ((rhost, prefix) # es) i best bestScore =
     (if rhost \<noteq> [] \<and> \<not> EqualFold rhost host then match_loop host path es (Suc i) best bestScore
      else if \<not> HasPrefix path prefix then match_loop host path es (Suc i) best bestScore
      else let score = route_score rhost prefix
           in if score > bestScore then match_loop host path es (Suc i) (Some i) score
              else match_loop host path es (Suc i) best bestScore)"

definition route_keys :: "'l routeEntry list \<Rightarrow> (string \<times> string) list" where
  "route_keys entries = map (\<lambda>e. (re_host e, re_pathPrefix e)) entries"

definition Gateway_match :: "'l routeEntry list \<Rightarrow> Request \<Rightarrow> nat option" where
  "Gateway_match entries r =
     match_loop (ReqHost r) (url_Path (ReqURL r)) (route_keys entries) 0 None (- 1)"

definition engine_handler :: "env \<Rightarrow> Engine handler" where
  "engine_handler env r w e = Engine_ServeHTTP env r e w"

definition route_serve ::
  "'l plugin_env \<Rightarrow> env \<Rightarrow> Registry \<Rightarrow> 'l routeEntry \<Rightarrow> Request \<Rightarrow> writer
     \<Rightarrow> writer \<times> ('l routeEntry \<times> Registry) \<times> outcome" where
  "route_serve penv env metrics route r w =
     (let (w1, (ps, e), out) =
        chain_serve penv (engine_handler env) (re_plugins route) r w
          ((re_engine route)\<lparr>eng_metrics := metrics\<rparr>)
      in (w1, (route\<lparr>re_plugins := ps, re_engine := e\<rparr>, eng_metrics e), out))"

definition Gateway_ServeHTTP :: "'l plugin_env \<Rightarrow> env \<Rightarrow> 'l Gateway handler" where
  "Gateway_ServeHTTP penv env r w g =
     (let entries = gw_routes g
      in case Gateway_match entries r of
           None \<Rightarrow> reply_error ''404 page not found'' 404 w g
         | Some i \<Rightarrow>
             (let (w1, (route, metrics), out) = route_serve penv env (gw_metrics g) (entries ! i) r w
              in (w1, g\<lparr>gw_routes := entries[i := route], gw_metrics := metrics\<rparr>, out)))"

end
