(* ===== verification/Gateway_Props.thy ===== *)
theory Gateway_Props
  imports Gateway
begin

text \<open>
  Properties of the gateway: the choice of the route, the plugin chain, reload, and the
  conservation of connections over whole runs.
\<close>

section \<open>A sample configuration\<close>

definition sample_route :: "PluginConfig list \<Rightarrow> RouteConfig" where
  "sample_route plugins =
     \<lparr>rc_Name = ''api'', rc_Host = [], rc_PathPrefix = ''/'',
      rc_Upstreams = [\<lparr>uc_URL = ''a'', uc_Weight = 1\<rparr>, \<lparr>uc_URL = ''b'', uc_Weight = 1\<rparr>],
      rc_TimeoutSeconds = 30, rc_MaxBodyBytes = 0, rc_MaxRetries = 2, rc_Plugins = plugins,
      rc_CircuitBreaker = zero_CircuitBreaker\<rparr>"

definition sample_config :: "PluginConfig list \<Rightarrow> Config" where
  "sample_config plugins =
     zero_Config\<lparr>cfg_Proxy := \<lparr>px_Algorithm = [], px_Routes = [sample_route plugins]\<rparr>\<rparr>"

definition sample_parse :: "string \<Rightarrow> URL option" where
  "sample_parse s = Some \<lparr>url_Scheme = ''http'', url_Host = s, url_Path = [], url_RawQuery = []\<rparr>"

section \<open>The choice of the route\<close>

definition score_of :: "string \<times> string \<Rightarrow> int" where
  "score_of hp = route_score (fst hp) (snd hp)"

lemma score_nonneg: "0 \<le> score_of hp"
  by (simp add: score_of_def route_score_def)

text \<open>Entry \<open>j\<close> is the first of the best matching entries, and beats a score.\<close>

definition first_best :: "(string \<times> string \<Rightarrow> bool) \<Rightarrow> (string \<times> string) list \<Rightarrow> int \<Rightarrow> nat \<Rightarrow> bool" where
  "first_best M es bs j \<longleftrightarrow>
     j < length es \<and> M (es ! j) \<and> bs < score_of (es ! j) \<and>
     (\<forall>k < length es. M (es ! k) \<longrightarrow> score_of (es ! k) \<le> score_of (es ! j)) \<and>
     (\<forall>k < j. M (es ! k) \<longrightarrow> score_of (es ! k) < score_of (es ! j))"

lemma first_best_Suc:
  "first_best M es bs j \<Longrightarrow> bs' \<le> bs \<Longrightarrow> (M e \<Longrightarrow> score_of e < score_of (es ! j)) \<Longrightarrow>
   first_best M (e # es) bs' (Suc j)"
  by (auto simp: first_best_def All_less_Suc2 intro: less_imp_le)

lemma first_best_0:
  "M e \<Longrightarrow> bs < score_of e \<Longrightarrow> \<forall>x \<in> set es. M x \<longrightarrow> score_of x \<le> score_of e \<Longrightarrow>
   first_best M (e # es) bs 0"
  by (auto simp: first_best_def All_less_Suc2)

lemma match_loop_spec:
  fixes host path
  defines "M \<equiv> route_matches host path"
  shows "(match_loop host path es i best bs = best \<and> (\<forall>e \<in> set es. M e \<longrightarrow> score_of e \<le> bs)) \<or>
         (\<exists>j. match_loop host path es i best bs = Some (i + j) \<and> first_best M es bs j)"
proof (induction es arbitrary: i best bs)
  case Nil
  then show ?case by simp
next
  case (Cons e es)
  obtain rhost prefix where e: "e = (rhost, prefix)" by (cases e)
  have unfold: "match_loop host path (e # es) i best bs =
      (if M e \<and> bs < score_of e then match_loop host path es (Suc i) (Some i) (score_of e)
       else match_loop host path es (Suc i) best bs)"
    by (simp add: e M_def route_matches_def score_of_def Let_def)
  show ?case
  proof (cases "M e \<and> bs < score_of e")
    case True
    from Cons [of "Suc i" "Some i" "score_of e"] show ?thesis
    proof (elim disjE conjE exE)
      assume "match_loop host path es (Suc i) (Some i) (score_of e) = Some i"
        "\<forall>x \<in> set es. M x \<longrightarrow> score_of x \<le> score_of e"
      then show ?thesis using True unfold by (intro disjI2 exI [of _ 0]) (simp add: first_best_0)
    next
      fix j
      assume j: "match_loop host path es (Suc i) (Some i) (score_of e) = Some (Suc i + j)"
        "first_best M es (score_of e) j"
      then have "first_best M (e # es) bs (Suc j)"
        using True by (intro first_best_Suc [of M es "score_of e"]) (auto simp: first_best_def)
      then show ?thesis using True unfold j(1) by (intro disjI2 exI [of _ "Suc j"]) simp
    qed
  next
    case False
    from Cons [of "Suc i" best bs] show ?thesis
    proof (elim disjE conjE exE)
      assume "match_loop host path es (Suc i) best bs = best"
        "\<forall>x \<in> set es. M x \<longrightarrow> score_of x \<le> bs"
      then show ?thesis using False unfold by auto
    next
      fix j
      assume j: "match_loop host path es (Suc i) best bs = Some (Suc i + j)" "first_best M es bs j"
      then have "first_best M (e # es) bs (Suc j)"
        using False by (intro first_best_Suc [of M es bs]) (auto simp: first_best_def)
      then show ?thesis using False unfold j(1) by (intro disjI2 exI [of _ "Suc j"]) auto
    qed
  qed
qed

text \<open>A route applies to a request: its host, if it has one, and its prefix.\<close>

definition applies :: "Request \<Rightarrow> 'l routeEntry \<Rightarrow> bool" where
  "applies r route \<longleftrightarrow>
     (re_host route = [] \<or> EqualFold (re_host route) (ReqHost r)) \<and>
     (\<exists>rest. url_Path (ReqURL r) = re_pathPrefix route @ rest)"

text \<open>A route with a host is more specific than one without; of two alike, the longer prefix is.\<close>

definition more_specific :: "'l routeEntry \<Rightarrow> 'l routeEntry \<Rightarrow> bool" where
  "more_specific a b \<longleftrightarrow>
     re_host a \<noteq> [] \<and> re_host b = [] \<or>
     (re_host a = [] \<longleftrightarrow> re_host b = []) \<and> length (re_pathPrefix b) < length (re_pathPrefix a)"

lemma applies_matches:
  "j < length entries \<Longrightarrow>
   route_matches (ReqHost r) (url_Path (ReqURL r)) (route_keys entries ! j) = applies r (entries ! j)"
  by (auto simp: route_keys_def route_matches_def applies_def HasPrefix_iff)

lemma score_specific:
  assumes "i < length entries" and "j < length entries"
    and "length (re_pathPrefix (entries ! i)) < 10000" and "length (re_pathPrefix (entries ! j)) < 10000"
  shows "score_of (route_keys entries ! i) < score_of (route_keys entries ! j)
           \<longleftrightarrow> more_specific (entries ! j) (entries ! i)"
  using assms by (auto simp: route_keys_def score_of_def route_score_def more_specific_def)

text \<open>
  C8. The gateway picks the most specific route, when every prefix is shorter than 10000 bytes. If no
  route applies to the request's host and path, there is none. Otherwise the route found
  applies; no route that applies is more specific, where a route bound to a host beats one that is
  not and otherwise the longer prefix wins; and every earlier route that applies is less
  specific, so that of several alike the first in the configuration is taken.
\<close>

theorem match_most_specific:
  assumes "\<forall>route \<in> set entries. length (re_pathPrefix route) < 10000"
  shows "case Gateway_match entries r of
           None \<Rightarrow> \<forall>route \<in> set entries. \<not> applies r route
         | Some i \<Rightarrow>
             i < length entries \<and> applies r (entries ! i) \<and>
             (\<forall>route \<in> set entries. applies r route \<longrightarrow> \<not> more_specific route (entries ! i)) \<and>
             (\<forall>j < i. applies r (entries ! j) \<longrightarrow> more_specific (entries ! i) (entries ! j))"
proof -
  let ?M = "route_matches (ReqHost r) (url_Path (ReqURL r))"
  have len: "length (route_keys entries) = length entries" by (simp add: route_keys_def)
  have "\<not> score_of e \<le> - 1" for e using score_nonneg [of e] by linarith
  then have none: "(\<forall>e \<in> set (route_keys entries). ?M e \<longrightarrow> score_of e \<le> - 1) \<longleftrightarrow>
      (\<forall>route \<in> set entries. \<not> applies r route)"
    by (simp add: all_set_conv_all_nth len applies_matches)
  have less: "score_of (route_keys entries ! i) < score_of (route_keys entries ! j)
      \<longleftrightarrow> more_specific (entries ! j) (entries ! i)" if "i < length entries" "j < length entries" for i j
    using that assms by (intro score_specific) auto
  show ?thesis
    using match_loop_spec [of "ReqHost r" "url_Path (ReqURL r)" "route_keys entries" 0 None "- 1"]
    unfolding Gateway_match_def [symmetric] none first_best_def len
  proof (elim disjE exE conjE)
    fix i
    assume i: "i < length entries" "Gateway_match entries r = Some (0 + i)" "?M (route_keys entries ! i)"
      and best: "\<forall>k < length entries. ?M (route_keys entries ! k) \<longrightarrow>
        score_of (route_keys entries ! k) \<le> score_of (route_keys entries ! i)"
      and first: "\<forall>k < i. ?M (route_keys entries ! k) \<longrightarrow>
        score_of (route_keys entries ! k) < score_of (route_keys entries ! i)"
    have "\<forall>k < length entries. applies r (entries ! k) \<longrightarrow> \<not> more_specific (entries ! k) (entries ! i)"
      using best less [OF i(1)] by (auto simp: applies_matches not_less [symmetric])
    moreover have "\<forall>k < i. applies r (entries ! k) \<longrightarrow> more_specific (entries ! i) (entries ! k)"
      using first less [OF _ i(1)] i(1) by (auto simp: applies_matches)
    ultimately show ?thesis using i by (simp add: applies_matches all_set_conv_all_nth)
  qed simp
qed

definition two_routes :: "int routeEntry list" where
  "two_routes = buildRoutes sample_parse Registry_Default NewRegistry
     (zero_Config\<lparr>cfg_Proxy := \<lparr>px_Algorithm = [],
        px_Routes = [sample_route [], (sample_route [])\<lparr>rc_PathPrefix := ''/api''\<rparr>]\<rparr>\<rparr>)"

definition api_request :: Request where
  "api_request = (let r = sample_request ''GET'' [] in r\<lparr>ReqURL := (ReqURL r)\<lparr>url_Path := ''/api/users''\<rparr>\<rparr>)"

theorem match_most_specific_witness: "Gateway_match two_routes api_request = Some 1"
proof -
  have keys: "map (\<lambda>route. (re_host route, re_pathPrefix route)) two_routes = [([], ''/''), ([], ''/api'')]"
    by (simp add: two_routes_def buildRoutes_def buildRoute_def sample_route_def)
  then obtain a b where ab: "two_routes = [a, b]" and
    a: "re_host a = []" "re_pathPrefix a = ''/''" and b: "re_host b = []" "re_pathPrefix b = ''/api''"
    by (auto simp: map_eq_Cons_conv)
  have path: "url_Path (ReqURL api_request) = ''/api/users''" by (simp add: api_request_def Let_def)
  have "\<forall>route \<in> set two_routes. length (re_pathPrefix route) < 10000" by (simp add: ab a b)
  note spec = match_most_specific [OF this, of api_request]
  have "applies api_request a" "applies api_request b" "more_specific b a"
    by (simp_all add: applies_def more_specific_def a b path)
  then show ?thesis
    using spec by (auto simp: ab less_Suc_eq nth_Cons' split: option.splits if_splits)
qed

section \<open>Plugin chains\<close>

text \<open>The instance a plugin configuration gives, if any.\<close>

definition plugin_instance :: "plugin_registry \<Rightarrow> PluginConfig \<Rightarrow> 'l plugin_inst option" where
  "plugin_instance reg pc =
     (if \<not> pc_Enabled pc then None
      else case reg (pc_Name pc) of
             None \<Rightarrow> None
           | Some p \<Rightarrow> (case Plugin_New p (pc_Config pc) of Inl _ \<Rightarrow> None | Inr mw \<Rightarrow> Some mw))"

lemma add_plugin_eq:
  "add_plugin reg pc h = (case plugin_instance reg pc of None \<Rightarrow> h | Some mw \<Rightarrow> mw # h)"
  by (auto simp: add_plugin_def plugin_instance_def split: option.splits sum.splits)

lemma buildPluginChain_Nil: "buildPluginChain reg [] = []"
  by (simp add: buildPluginChain_def)

lemma buildPluginChain_Cons:
  "buildPluginChain reg (pc # pcs) =
     (case plugin_instance reg pc of
        None \<Rightarrow> buildPluginChain reg pcs
      | Some mw \<Rightarrow> mw # buildPluginChain reg pcs)"
  by (simp add: buildPluginChain_def add_plugin_eq split: option.split)

text \<open>
  C37. The plugin chain of a route. The loop over the configuration from its end builds the chain in
  configuration order, the first plugin outermost. It holds an instance of each enabled,
  registered plugin whose configuration is accepted; every other plugin is left out.
\<close>

theorem plugin_chain_order:
  "buildPluginChain reg pcs = List.map_filter (plugin_instance reg) pcs"
  by (induction pcs) (simp_all add: buildPluginChain_Cons buildPluginChain_Nil split: option.splits)

lemma Registry_Default_key_auth: "Registry_Default ''key-auth'' = Some KeyAuthPlugin"
  by (simp add: Registry_Default_def Register_def)

text \<open>
  Authentication fails open. A route whose only plugin is an enabled key authentication without
  keys is served without any authentication, every request going straight to the engine, while
  the admin snapshot lists the plugin as enabled.
\<close>

lemma misconfigured_auth_fails_open:
  assumes "rc_Plugins route = [\<lparr>pc_Name = ''key-auth'', pc_Enabled = True, pc_Config = c\<rparr>]"
    and "as_list (map_of c ''keys'') = []"
  shows "let e = buildRoute url_Parse Registry_Default m cfg route in
           re_plugins e = [] \<and> re_pluginNames e = [''key-auth''] \<and>
           route_serve penv env m e r w =
             (let (w', en, out) = Engine_ServeHTTP env r ((re_engine e)\<lparr>eng_metrics := m\<rparr>) w
              in (w', (e\<lparr>re_engine := en\<rparr>, eng_metrics en), out))"
proof -
  have chain: "buildPluginChain Registry_Default (rc_Plugins route) = []"
    using assms by (simp add: buildPluginChain_def add_plugin_def Registry_Default_key_auth
        KeyAuth_New_def)
  then show ?thesis
    using assms(1)
    by (auto simp: buildRoute_def enabledPluginNames_def route_serve_def engine_handler_def Let_def
        split: prod.splits)
qed

lemma misconfigured_auth_fails_open_instance:
  "re_plugins (buildRoute sample_parse Registry_Default NewRegistry (sample_config [])
     (sample_route [\<lparr>pc_Name = ''key-auth'', pc_Enabled = True, pc_Config = []\<rparr>]))
   = ([] :: int plugin_inst list)"
proof -
  let ?route = "sample_route [\<lparr>pc_Name = ''key-auth'', pc_Enabled = True, pc_Config = []\<rparr>]"
  have "rc_Plugins ?route = [\<lparr>pc_Name = ''key-auth'', pc_Enabled = True, pc_Config = []\<rparr>]"
    by (simp add: sample_route_def)
  from misconfigured_auth_fails_open [OF this, where penv = sample_penv and url_Parse = sample_parse
      and m = NewRegistry and cfg = "sample_config []"]
  show ?thesis by (simp add: as_list_def Let_def)
qed

section \<open>Runs of the gateway\<close>

text \<open>The engine never changes its own configuration.\<close>

lemma answer_engine:
  "answer msg code w e k = (w', e', out) \<Longrightarrow> e' = e \<or> e' = k e"
  by (auto simp: answer_def split: prod.splits if_splits)

lemma maxRetries_answer:
  "(\<And>x. eng_maxRetries (k x) = eng_maxRetries x) \<Longrightarrow>
   eng_maxRetries (run_engine (answer msg code w e k)) = eng_maxRetries e"
  by (cases "answer msg code w e k") (auto dest: answer_engine)

lemma serve_loop_config: "eng_maxRetries (run_engine (serve_loop env r n i e w)) = eng_maxRetries e"
proof (induction n i e rule: serve_loop_rule [where env = env and r = r and w = w])
  case (retry n i e j e2)
  then show ?case using retry_next_frame [OF retry(3)] by (simp add: frame_simps)
next
  case (no_target n i e x e2)
  then show ?case
    using retry_next_frame [OF no_target(3)]
    by (simp add: bad_gateway_end_def maxRetries_answer frame_simps)
next
  case (relayed n i e resp)
  then show ?case
    by (simp add: relay_response_def run_engine_def case_prod_beta frame_simps Let_def)
qed (simp_all add: bad_gateway_end_def maxRetries_answer frame_simps)

lemma engine_config_kept:
  "Engine_ServeHTTP env r e w = (w', e', out) \<Longrightarrow> eng_maxRetries e' = eng_maxRetries e"
proof -
  assume run: "Engine_ServeHTTP env r e w = (w', e', out)"
  have up: "eng_maxRetries (run_engine (serve_upgrade env x i y w)) = eng_maxRetries y" for x i y
    by (simp add: serve_upgrade_def run_engine_def case_prod_beta frame_simps Let_def)
  have "eng_maxRetries (run_engine (Engine_ServeHTTP env r e w)) = eng_maxRetries e"
    by (auto simp: Engine_ServeHTTP_def up serve_loop_config maxRetries_answer frame_simps Let_def
        split: prod.splits sum.splits)
  then show ?thesis using run by simp
qed

text \<open>A route is idle when no upstream has an active connection; then its engine may retry.\<close>

definition route_idle :: "'l routeEntry \<Rightarrow> bool" where
  "route_idle route \<longleftrightarrow>
     set (lb_conns (eng_lb (re_engine route))) \<subseteq> {0} \<and> 0 \<le> eng_maxRetries (re_engine route)"

lemma engine_serve_idle:
  assumes "Engine_ServeHTTP env r e w = (w', e', Returned)"
    and "set (lb_conns (eng_lb e)) \<subseteq> {0}" and "0 \<le> eng_maxRetries e"
  shows "set (lb_conns (eng_lb e')) \<subseteq> {0} \<and> 0 \<le> eng_maxRetries e'"
proof -
  have "lb_conns (eng_lb e') = lb_conns (eng_lb e)"
    using lb_steps_unheld [OF engine_lb_steps [OF assms(1,3), of "{#}"]] by (simp add: unheld_empty)
  then show ?thesis using assms(2,3) engine_config_kept [OF assms(1)] by simp
qed

lemma route_serve_idle:
  assumes "route_idle route" and "route_serve penv env m route r w = (w', (route', m'), Returned)"
  shows "route_idle route'"
proof -
  let ?e = "(re_engine route)\<lparr>eng_metrics := m\<rparr>"
  obtain ps e' where run: "chain_serve penv (engine_handler env) (re_plugins route) r w ?e
      = (w', (ps, e'), Returned)" and e': "re_engine route' = e'"
    using assms(2) by (auto simp: route_serve_def split: prod.splits)
  from chain.serve_passes [OF run] consider "e' = ?e"
    | r1 w1 w2 where "Engine_ServeHTTP env r1 ?e w1 = (w2, e', Returned)"
    by (auto simp: at_most_once_def engine_handler_def)
  then show ?thesis
    using assms(1) e' engine_serve_idle [of env _ ?e] by cases (auto simp: route_idle_def)
qed

lemma build_conns: "set (map ActiveConns (build_upstreams url_Parse route)) \<subseteq> {0}"
proof -
  have "ActiveConns u = 0" if "u \<in> set (build_upstreams url_Parse route)" for u
    using that
    by (auto simp: build_upstreams_def List.map_filter_def newUpstream_def Let_def split: option.splits)
  then show ?thesis by auto
qed

lemma buildRoute_idle:
  "0 \<le> rc_MaxRetries route \<Longrightarrow> route_idle (buildRoute url_Parse reg m cfg route)"
proof -
  assume "0 \<le> rc_MaxRetries route"
  moreover have "Balancer_Upstreams (newBalancer alg us) = us" for alg us
    by (simp add: newBalancer_def NewRoundRobin_def NewWeightedRoundRobin_def NewLeastConnections_def
        RoundRobin_Upstreams_def WeightedRoundRobin_Upstreams_def LeastConnections_Upstreams_def)
  ultimately show ?thesis
    using build_conns [of url_Parse route]
    by (auto simp: route_idle_def buildRoute_def buildRouteEngine_def NewEngine_def lb_conns_def
        intOr_def)
qed

text \<open>What happens to a gateway: requests, and reloads of the configuration.\<close>

datatype 'l gw_event =
    GwRequest "'l plugin_env" env Request writer
  | GwReload Config

fun gw_step :: "(string \<Rightarrow> URL option) \<Rightarrow> 'l gw_event \<Rightarrow> 'l Gateway \<Rightarrow> 'l Gateway \<times> outcome" where
  "gw_step url_Parse (GwRequest penv env r w) g =
     (let (w', g', out) = Gateway_ServeHTTP penv env r w g in (g', out))"
| "gw_step url_Parse (GwReload cfg) g = (Gateway_Reload url_Parse cfg g, Returned)"

fun gw_run :: "(string \<Rightarrow> URL option) \<Rightarrow> 'l gw_event list \<Rightarrow> 'l Gateway \<Rightarrow> 'l Gateway \<times> outcome list" where
  "gw_run url_Parse [] g = (g, [])"
| "gw_run url_Parse (ev # evs) g =
     (let (g1, out) = gw_step url_Parse ev g; (g2, outs) = gw_run url_Parse evs g1
      in (g2, out # outs))"

definition nonneg_retries :: "Config \<Rightarrow> bool" where
  "nonneg_retries cfg = list_all (\<lambda>route. 0 \<le> rc_MaxRetries route) (px_Routes (cfg_Proxy cfg))"

definition gw_idle :: "'l Gateway \<Rightarrow> bool" where
  "gw_idle g = list_all route_idle (gw_routes g)"

lemma buildRoutes_idle: "nonneg_retries cfg \<Longrightarrow> list_all route_idle (buildRoutes url_Parse reg m cfg)"
  by (auto simp: nonneg_retries_def buildRoutes_def list_all_iff buildRoute_idle)

lemma gw_step_idle:
  assumes "gw_idle g" and "gw_step url_Parse ev g = (g', Returned)"
    and "\<And>cfg. ev = GwReload cfg \<Longrightarrow> nonneg_retries cfg"
  shows "gw_idle g'"
proof (cases ev)
  case (GwReload cfg)
  then show ?thesis
    using assms(2,3) buildRoutes_idle by (auto simp: gw_idle_def Gateway_Reload_def)
next
  case (GwRequest penv env r w)
  then obtain w' where serve: "Gateway_ServeHTTP penv env r w g = (w', g', Returned)"
    using assms(2) by (auto split: prod.splits)
  show ?thesis
  proof (cases "Gateway_match (gw_routes g) r")
    case None
    then show ?thesis
      using serve assms(1) by (auto simp: Gateway_ServeHTTP_def reply_error_def split: prod.splits if_splits)
  next
    case (Some i)
    then obtain route m where run: "route_serve penv env (gw_metrics g) (gw_routes g ! i) r w
        = (w', (route, m), Returned)" and g': "gw_routes g' = (gw_routes g)[i := route]"
      using serve by (auto simp: Gateway_ServeHTTP_def Let_def split: prod.splits)
    have "i < length (gw_routes g) \<Longrightarrow> route_idle (gw_routes g ! i)"
      using assms(1) by (simp add: gw_idle_def list_all_length)
    then have "i < length (gw_routes g) \<Longrightarrow> route_idle route"
      using route_serve_idle [OF _ run] by blast
    then show ?thesis
      using assms(1) g'
      by (cases "i < length (gw_routes g)")
        (auto simp: gw_idle_def list_all_length nth_list_update list_update_beyond)
  qed
qed

lemma gw_run_idle:
  "gw_idle g \<Longrightarrow> gw_run url_Parse evs g = (g', outs) \<Longrightarrow> Panicked \<notin> set outs \<Longrightarrow>
   (\<And>cfg. GwReload cfg \<in> set evs \<Longrightarrow> nonneg_retries cfg) \<Longrightarrow> gw_idle g'"
proof (induction evs arbitrary: g outs)
  case (Cons ev evs)
  obtain g1 out where step: "gw_step url_Parse ev g = (g1, out)" by fastforce
  obtain outs1 where rest: "gw_run url_Parse evs g1 = (g', outs1)" and outs: "outs = out # outs1"
    using Cons.prems(2) step by (auto split: prod.splits)
  have "out = Returned" using Cons.prems(3) outs by (cases out) auto
  then have "gw_idle g1" using gw_step_idle [OF Cons.prems(1), of url_Parse ev g1] step Cons.prems(4) by auto
  then show ?case using Cons.IH [OF _ rest] Cons.prems(3,4) outs by auto
qed simp

text \<open>
  C5. The gateway does not leak connections. Start a gateway from any configuration without
  negative retry limits and let it serve any requests, with any outcome of the upstreams and
  the network and any plugins, and reload such configurations in between: if no handler
  panicked, then no upstream of any route is left with an active connection.
\<close>

theorem gateway_never_leaks:
  assumes "nonneg_retries cfg" and "\<forall>c. GwReload c \<in> set evs \<longrightarrow> nonneg_retries c"
    and "gw_run url_Parse evs (Gateway_New url_Parse cfg reg) = (g', outs)"
    and "Panicked \<notin> set outs"
  shows "\<forall>route \<in> set (gw_routes g'). \<forall>c \<in> set (lb_conns (eng_lb (re_engine route))). c = 0"
proof -
  have "gw_idle (Gateway_New url_Parse cfg reg)"
    using buildRoutes_idle [OF assms(1)] by (simp add: gw_idle_def Gateway_New_def Let_def)
  then have "gw_idle g'" using gw_run_idle assms(2-4) by blast
  then show ?thesis by (auto simp: gw_idle_def route_idle_def list_all_iff)
qed

lemma two_zeros:
  assumes "\<forall>cs \<in> set css. \<forall>c \<in> set cs. c = (0 :: int)" and "map length css = [2]"
  shows "css = [[0, 0]]"
proof -
  obtain cs where cs: "css = [cs]" and "length cs = 2" using assms(2) by (cases css) auto
  then obtain a b where "cs = [a, b]" by (auto simp: numeral_2_eq_2 length_Suc_conv)
  then show ?thesis using assms(1) cs by simp
qed

theorem gateway_never_leaks_witness:
  "map (\<lambda>route. lb_conns (eng_lb (re_engine route)))
     (gw_routes (fst (gw_run sample_parse
       [GwReload (sample_config []), GwRequest sample_penv (sample_env [Inl conn_reset, Inr (sample_response 200)])
          (sample_request ''GET'' []) (sample_writer [])]
       (Gateway_New sample_parse (sample_config []) Registry_Default)))) = [[0, 0]]"
proof -
  let ?evs = "[GwReload (sample_config []), GwRequest sample_penv
         (sample_env [Inl conn_reset, Inr (sample_response 200)]) (sample_request ''GET'' []) (sample_writer [])]"
  let ?run = "gw_run sample_parse ?evs (Gateway_New sample_parse (sample_config []) Registry_Default)"
  let ?conns = "map (\<lambda>route. lb_conns (eng_lb (re_engine route))) (gw_routes (fst ?run))"
  have cfg: "nonneg_retries (sample_config [])" by code_simp
  have outs: "Panicked \<notin> set (snd ?run)" by code_simp
  have len: "map length ?conns = [2]" by code_simp
  have "?run = (fst ?run, snd ?run)" by simp
  from gateway_never_leaks [OF cfg _ this outs] cfg
  have zero: "\<forall>cs \<in> set ?conns. \<forall>c \<in> set cs. c = 0" by simp
  show ?thesis by (rule two_zeros [OF zero len])
qed

end
