(* ===== verification/Nginx_Props.thy ===== *)
theory Nginx_Props
  imports Nginx_Sizes Gateway_Props
begin

text \<open>
  What loading an nginx configuration gives, and how it fits the components that use it.
\<close>

section \<open>Invariants of the translation\<close>

definition nginx_algorithms :: "string set" where
  "nginx_algorithms = {[], ''least_conn'', ''round_robin''}"

definition route_served :: "RouteConfig \<Rightarrow> bool" where
  "route_served route \<longleftrightarrow> rc_Upstreams route \<noteq> [] \<and> rc_Name route \<noteq> [] \<and> rc_MaxRetries route = 0"

definition cfg_ok :: "Config \<Rightarrow> bool" where
  "cfg_ok cfg \<longleftrightarrow>
     list_all route_served (px_Routes (cfg_Proxy cfg)) \<and> px_Algorithm (cfg_Proxy cfg) \<in> nginx_algorithms"

lemma location_node_frame:
  "rc_Name (fst (location_node groups n st)) = rc_Name (fst st) \<and>
   rc_MaxRetries (fst (location_node groups n st)) = rc_MaxRetries (fst st)"
  by (cases st) (simp add: location_node_def Let_def split: list.splits option.splits)

lemma fold_location_frame:
  "rc_Name (fst (fold (location_node groups) ns st)) = rc_Name (fst st) \<and>
   rc_MaxRetries (fst (fold (location_node groups) ns st)) = rc_MaxRetries (fst st)"
proof (induction ns arbitrary: st)
  case (Cons n ns)
  then show ?case using location_node_frame [of groups n st] by simp
qed simp

lemma location_name_nonempty: "location_name p \<noteq> []"
  by (simp add: location_name_def Let_def)

lemma parseLocationBlock_served:
  assumes "parseLocationBlock p host maxb ns groups = Some (route, gn)"
  shows "route_served route"
proof -
  let ?r0 = "\<lparr>rc_Name = location_name p, rc_Host = host, rc_PathPrefix = p, rc_Upstreams = [],
      rc_TimeoutSeconds = 0, rc_MaxBodyBytes = maxb, rc_MaxRetries = 0, rc_Plugins = [],
      rc_CircuitBreaker = zero_CircuitBreaker\<rparr>"
  have "fold (location_node groups) ns (?r0, []) = (route, gn)" and "rc_Upstreams route \<noteq> []"
    using assms by (auto simp: parseLocationBlock_def Let_def split: prod.splits if_splits)
  then show ?thesis
    using fold_location_frame [of groups ns "(?r0, [])"] location_name_nonempty
    by (simp add: route_served_def)
qed

lemma add_route_ok:
  assumes "cfg_ok cfg" and "route_served route" and "ran algos \<subseteq> nginx_algorithms"
  shows "cfg_ok (add_route algos route gn cfg)"
proof -
  have "algos gn = Some a \<Longrightarrow> a \<in> nginx_algorithms" for a using assms(3) by (auto intro: ranI)
  then show ?thesis
    using assms(1,2) by (auto simp: cfg_ok_def add_route_def Let_def split: option.splits)
qed

lemma server_node_ok:
  assumes "cfg_ok (sb_cfg st)" and "ran algos \<subseteq> nginx_algorithms"
  shows "cfg_ok (sb_cfg (server_node pf groups algos n st))"
proof -
  have frame: "cfg_Proxy (sb_cfg (apply_listen args st)) = cfg_Proxy (sb_cfg st)"
    "cfg_Proxy (sb_cfg (apply_rate_zone pf args st)) = cfg_Proxy (sb_cfg st)" for args
    by (simp_all add: apply_listen_def apply_rate_zone_def Let_def split: list.splits option.splits)
  have "cfg_ok (sb_cfg (apply_location groups algos n st))"
    using assms add_route_ok parseLocationBlock_served
    by (auto simp: apply_location_def split: option.splits)
  then show ?thesis
    using assms(1) frame by (simp add: server_node_def cfg_ok_def Let_def split: option.splits)
qed

lemma applyServerBlock_ok:
  "cfg_ok cfg \<Longrightarrow> ran algos \<subseteq> nginx_algorithms \<Longrightarrow> cfg_ok (applyServerBlock pf groups algos ns cfg)"
proof -
  assume c: "cfg_ok cfg" and a: "ran algos \<subseteq> nginx_algorithms"
  have "cfg_ok (sb_cfg st) \<Longrightarrow> cfg_ok (sb_cfg (fold (server_node pf groups algos) ns st))" for st
    by (induction ns arbitrary: st) (simp_all add: server_node_ok [OF _ a])
  then show ?thesis using c by (simp add: applyServerBlock_def)
qed

lemma parseUpstreamBlock_algorithm: "snd (parseUpstreamBlock ns) \<in> nginx_algorithms"
proof -
  have "snd st \<in> nginx_algorithms \<Longrightarrow> snd (fold upstream_node ns st) \<in> nginx_algorithms" for st
  proof (induction ns arbitrary: st)
    case (Cons n ns)
    have "snd (upstream_node n st) \<in> nginx_algorithms"
      using Cons.prems
      by (auto simp: upstream_node_def nginx_algorithms_def split: prod.splits list.splits)
    then show ?case using Cons.IH by simp
  qed simp
  then show ?thesis by (simp add: parseUpstreamBlock_def nginx_algorithms_def)
qed

definition ng_ok :: "nginx_state \<Rightarrow> bool" where
  "ng_ok st \<longleftrightarrow> cfg_ok (ng_cfg st) \<and> ran (ng_algos st) \<subseteq> nginx_algorithms"

lemma ran_upd_subset: "ran m \<subseteq> S \<Longrightarrow> v \<in> S \<Longrightarrow> ran (m(k \<mapsto> v)) \<subseteq> S"
  by (auto simp: ran_def split: if_splits)

lemma top_node_ok: "ng_ok st \<Longrightarrow> ng_ok (top_node pf n st)"
  using parseUpstreamBlock_algorithm [of "Block n"]
  by (auto simp: top_node_def ng_ok_def applyServerBlock_ok case_prod_beta Let_def
      split: list.splits dest: ran_upd_subset)

lemma FromNginx_ok: "cfg_ok (FromNginx pf nodes)"
proof -
  have "ng_ok st \<Longrightarrow> ng_ok (fold (top_node pf) nodes st)" for st
    by (induction nodes arbitrary: st) (simp_all add: top_node_ok)
  then show ?thesis
    by (simp add: FromNginx_def ng_ok_def cfg_ok_def zero_Config_def nginx_algorithms_def)
qed

lemma default_route_served:
  "route_served r \<Longrightarrow>
   rc_Upstreams (default_route r) \<noteq> [] \<and> rc_Name (default_route r) \<noteq> [] \<and>
   rc_MaxRetries (default_route r) = 2 \<and> route_ready (default_route r)"
  using default_route_ready [of r]
  by (simp add: route_served_def) (simp add: default_route_def Let_def)

lemma LoadNginx_total: "\<exists>res. LoadNginx env path = Some res"
proof -
  have "\<exists>res. parseNginx data = Some res" for data
    using parser_ends [THEN conjunct1, rule_format, of data "parse_fuel data"]
    by (auto simp: parseNginx_def parse_fuel_def ends_within_def)
  then show ?thesis by (auto simp: LoadNginx_def ParseNginxFile_def split: option.split)
qed

lemma loaded_nginx:
  assumes "LoadNginx env path = Some (Inr cfg)"
  shows "\<exists>nodes. cfg = applyDefaults (FromNginx (le_ParseFloat env) nodes)"
proof -
  from assms obtain res where "ParseNginxFile env path = Some res"
    and "map_sum id (\<lambda>nodes. applyDefaults (FromNginx (le_ParseFloat env) nodes)) res = Inr cfg"
    by (auto simp: LoadNginx_def)
  then show ?thesis by (cases res) auto
qed

lemma loaded_routes:
  assumes "LoadNginx env path = Some (Inr cfg)" and "r \<in> set (px_Routes (cfg_Proxy cfg))"
  shows "rc_Upstreams r \<noteq> [] \<and> rc_Name r \<noteq> [] \<and> rc_MaxRetries r = 2 \<and> route_ready r"
proof -
  from loaded_nginx [OF assms(1)] obtain nodes
    where cfg: "cfg = applyDefaults (FromNginx (le_ParseFloat env) nodes)" ..
  let ?routes = "px_Routes (cfg_Proxy (FromNginx (le_ParseFloat env) nodes))"
  have "px_Routes (cfg_Proxy cfg) = map default_route ?routes"
    by (simp add: cfg applyDefaults_def)
  then obtain r0 where "r0 \<in> set ?routes" "r = default_route r0" using assms(2) by auto
  moreover from this have "route_served r0"
    using FromNginx_ok [of "le_ParseFloat env" nodes] by (simp add: cfg_ok_def list_all_iff)
  ultimately show ?thesis using default_route_served by blast
qed

definition sample_nginx_env :: load_env where
  "sample_nginx_env =
     \<lparr>le_ReadFile = (\<lambda>path. if path = ''gw.conf''
        then Some ''server { location /api/ { proxy_pass http://a; } }'' else None),
      le_ReadInConfig = False, le_Unmarshal = None, le_ParseFloat = (\<lambda>_. None)\<rparr>"

section \<open>Properties\<close>

text \<open>
  C15. Loading an nginx file always ends, in an error or in a configuration the gateway can serve:
  every route has a name and at least one upstream, is complete after the defaults, has the
  default retry limit of two, and so satisfies what the conservation of connections needs.
\<close>

theorem load_nginx_ready:
  "(\<exists>res. LoadNginx env path = Some res) \<and>
   (\<forall>cfg. LoadNginx env path = Some (Inr cfg) \<longrightarrow>
      nonneg_retries cfg \<and>
      list_all (\<lambda>route. rc_Upstreams route \<noteq> [] \<and> rc_Name route \<noteq> [] \<and> rc_MaxRetries route = 2 \<and>
                        route_ready route) (px_Routes (cfg_Proxy cfg)))"
proof -
  have "nonneg_retries cfg \<and>
      list_all (\<lambda>route. rc_Upstreams route \<noteq> [] \<and> rc_Name route \<noteq> [] \<and> rc_MaxRetries route = 2 \<and>
                        route_ready route) (px_Routes (cfg_Proxy cfg))"
    if "LoadNginx env path = Some (Inr cfg)" for cfg
    using loaded_routes [OF that] by (simp add: nonneg_retries_def list_all_iff)
  then show ?thesis using LoadNginx_total by blast
qed

theorem load_nginx_ready_witness:
  "\<exists>cfg. LoadNginx sample_nginx_env ''gw.conf'' = Some (Inr cfg) \<and>
         nonneg_retries cfg \<and> length (px_Routes (cfg_Proxy cfg)) = 1"
proof -
  let ?res = "the (LoadNginx sample_nginx_env ''gw.conf'')"
  have len: "map_sum (\<lambda>_. ()) (\<lambda>cfg. length (px_Routes (cfg_Proxy cfg))) ?res = Inr 1" by code_simp
  then obtain cfg where cfg: "?res = Inr cfg" by (cases ?res) auto
  then have "LoadNginx sample_nginx_env ''gw.conf'' = Some (Inr cfg)"
    using load_nginx_ready [of sample_nginx_env "''gw.conf''", THEN conjunct1] by auto
  moreover from this have "nonneg_retries cfg"
    using load_nginx_ready [of sample_nginx_env "''gw.conf''"] by blast
  ultimately show ?thesis using len cfg by auto
qed

text \<open>
  Weights of an nginx configuration have no effect: the algorithm it selects is never the weighted
  one, so the balancer built from it never is, although the weights are parsed.
\<close>

lemma nginx_never_weighted:
  "newBalancer (px_Algorithm (cfg_Proxy (applyDefaults (FromNginx pf nodes)))) us \<noteq> LB_Weighted w"
proof -
  have "px_Algorithm (cfg_Proxy (applyDefaults (FromNginx pf nodes))) \<in> nginx_algorithms"
    using FromNginx_ok [of pf nodes] by (simp add: cfg_ok_def applyDefaults_def)
  then show ?thesis by (auto simp: newBalancer_def nginx_algorithms_def)
qed

text \<open>
  The burst of \<open>limit_req\<close> is lost between the translator and the plugin. The translator stores it
  as an integer, the plugin reads a float, finds none and takes the rate rounded down instead,
  which the translator has set to half the burst: the limiter admits half of the configured
  burst, and none at all when the burst is one.
\<close>

lemma nginx_burst_halved:
  assumes "0 < burst"
  shows "Plugin_New RateLimitPlugin (pc_Config (limit_req_plugin burst)) =
         Inr (RateLimit (newIPStore (of_int burst / 2) (burst div 2)))"
proof -
  have "(0 :: rat) < of_int burst / 2" using assms by simp
  moreover have "trunc (of_int burst / 2) = burst div 2"
    using assms floor_divide_of_int_eq [of burst 2, where 'a = rat] by (simp add: trunc_def)
  ultimately show ?thesis
    by (simp add: RateLimit_New_def limit_req_plugin_def floatVal_def Let_def trunc_def)
qed

lemma nginx_burst_halved_instance:
  "Plugin_New RateLimitPlugin (pc_Config (limit_req_plugin 50)) = Inr (RateLimit (newIPStore 25 25))"
  using nginx_burst_halved [of 50] by simp

end
