(* ===== verification/Shutdown.thy ===== *)
theory Shutdown
  imports Prelude
begin

text \<open>
  Signals (\<^verbatim>\<open>src/internal/shutdown/shutdown.go\<close>): graceful shutdown and reload on \<^verbatim>\<open>SIGHUP\<close>. The
  channels have a capacity of one, and the runtime drops a signal it cannot send at once.
\<close>

section \<open>Wait\<close>

datatype os_signal = SIGINT | SIGTERM | SIGHUP

datatype shutdown_event = SignalReceived | StopCalled int | ShutdownFailed | ShutdownComplete

definition ten_seconds :: int where
  "ten_seconds = 10000000000"

text \<open>What a call does while the process gets the given signals; \<open>None\<close> when it still blocks.\<close>

definition Wait :: "(int \<Rightarrow> bool) \<Rightarrow> os_signal list \<Rightarrow> shutdown_event list option" where
  "Wait stop signals =
     (if list_ex (\<lambda>s. s = SIGINT \<or> s = SIGTERM) signals
      then Some ([SignalReceived, StopCalled ten_seconds]
                 @ [if stop ten_seconds then ShutdownComplete else ShutdownFailed])
      else None)"

section \<open>WatchReload\<close>

datatype watch_event = Hup | ReloadStarted | ReloadFinished bool

record watch =
  wt_sigs :: nat
  wt_busy :: bool
  wt_trace :: "watch_event list"

definition watch_start :: watch where
  "watch_start = \<lparr>wt_sigs = 0, wt_busy = False, wt_trace = []\<rparr>"

definition sigs_cap :: nat where
  "sigs_cap = 1"

text \<open>The runtime delivers a signal, the loop receives one and calls \<open>reload\<close>, \<open>reload\<close> returns.\<close>

inductive watch_step :: "watch \<Rightarrow> watch \<Rightarrow> bool" where
  notify:
    "watch_step s (s\<lparr>wt_sigs := if wt_sigs s < sigs_cap then wt_sigs s + 1 else wt_sigs s,
                     wt_trace := wt_trace s @ [Hup]\<rparr>)"
| receive:
    "\<not> wt_busy s \<Longrightarrow> 0 < wt_sigs s \<Longrightarrow>
     watch_step s (s\<lparr>wt_sigs := wt_sigs s - 1, wt_busy := True, wt_trace := wt_trace s @ [ReloadStarted]\<rparr>)"
| finish:
    "wt_busy s \<Longrightarrow>
     watch_step s (s\<lparr>wt_busy := False, wt_trace := wt_trace s @ [ReloadFinished ok]\<rparr>)"

inductive_cases watch_stepE: "watch_step s t"

section \<open>Properties\<close>

text \<open>A signal that no later reload has started for.\<close>

definition unserved :: "watch_event list \<Rightarrow> bool" where
  "unserved tr \<longleftrightarrow> (\<exists>xs ys. tr = xs @ Hup # ys \<and> ReloadStarted \<notin> set ys)"

lemma unserved_snoc:
  "unserved (tr @ [e]) \<longleftrightarrow> e = Hup \<or> unserved tr \<and> e \<noteq> ReloadStarted"
proof
  assume "unserved (tr @ [e])"
  then obtain xs ys where eq: "tr @ [e] = xs @ Hup # ys" and ys: "ReloadStarted \<notin> set ys"
    by (auto simp: unserved_def)
  show "e = Hup \<or> unserved tr \<and> e \<noteq> ReloadStarted"
  proof (cases ys rule: rev_cases)
    case Nil
    then show ?thesis using eq by simp
  next
    case (snoc zs z)
    then show ?thesis using eq ys by (auto simp: unserved_def)
  qed
next
  assume "e = Hup \<or> unserved tr \<and> e \<noteq> ReloadStarted"
  then show "unserved (tr @ [e])"
    unfolding unserved_def by (elim disjE conjE exE) (force, metis Un_iff append_Cons append_assoc
        empty_iff insert_iff list.set(1) list.set(2) set_append)
qed

definition started :: "watch_event list \<Rightarrow> nat" where
  "started tr = length (filter (\<lambda>e. e = ReloadStarted) tr)"

definition hups :: "watch_event list \<Rightarrow> nat" where
  "hups tr = length (filter (\<lambda>e. e = Hup) tr)"

definition finished :: "watch_event list \<Rightarrow> nat" where
  "finished tr = length (filter (\<lambda>e. e \<in> {ReloadFinished True, ReloadFinished False}) tr)"

lemmas trace_counts = started_def hups_def finished_def

definition watch_inv :: "watch \<Rightarrow> bool" where
  "watch_inv s \<longleftrightarrow>
     (unserved (wt_trace s) \<longrightarrow> wt_sigs s = 1) \<and>
     wt_sigs s \<le> sigs_cap \<and> started (wt_trace s) + wt_sigs s \<le> hups (wt_trace s) \<and>
     started (wt_trace s) = finished (wt_trace s) + (if wt_busy s then 1 else 0)"

lemma watch_inv_start: "watch_inv watch_start"
  by (simp add: watch_inv_def watch_start_def unserved_def trace_counts)

lemma watch_inv_step: "watch_step s t \<Longrightarrow> watch_inv s \<Longrightarrow> watch_inv t"
  by (erule watch_stepE) (auto simp: watch_inv_def unserved_snoc trace_counts sigs_cap_def)

lemma watch_inv_reachable: "watch_step\<^sup>*\<^sup>* watch_start s \<Longrightarrow> watch_inv s"
  by (induction rule: rtranclp_induct) (auto intro: watch_inv_start watch_inv_step)

text \<open>
  C35. No reload request is lost, although signals that arrive during a reload are merged. In every
  reachable state in which the loop waits on an empty channel, each \<^verbatim>\<open>SIGHUP\<close> was followed by the
  start of a reload, every started reload has ended, and there were no more reloads than signals.
\<close>

theorem sighup_never_lost:
  assumes "watch_step\<^sup>*\<^sup>* watch_start s" and "wt_sigs s = 0" and "\<not> wt_busy s"
  shows "(\<forall>xs ys. wt_trace s = xs @ Hup # ys \<longrightarrow> ReloadStarted \<in> set ys) \<and>
         started (wt_trace s) = finished (wt_trace s) \<and> started (wt_trace s) \<le> hups (wt_trace s)"
  using watch_inv_reachable [OF assms(1)] assms(2,3) by (auto simp: watch_inv_def unserved_def)

theorem sighup_never_lost_witness:
  "\<exists>s. watch_step\<^sup>*\<^sup>* watch_start s \<and> wt_trace s = [Hup, ReloadStarted, ReloadFinished True] \<and>
       started (wt_trace s) \<le> hups (wt_trace s)"
proof -
  define s1 where "s1 = \<lparr>wt_sigs = 1, wt_busy = False, wt_trace = [Hup]\<rparr>"
  define s2 where "s2 = \<lparr>wt_sigs = 0, wt_busy = True, wt_trace = [Hup, ReloadStarted]\<rparr>"
  define s3 where
    "s3 = \<lparr>wt_sigs = 0, wt_busy = False, wt_trace = [Hup, ReloadStarted, ReloadFinished True]\<rparr>"
  have "watch_step watch_start s1"
    using notify [of watch_start] by (simp add: watch_start_def s1_def sigs_cap_def)
  moreover have "watch_step s1 s2" using receive [of s1] by (simp add: s1_def s2_def)
  moreover have "watch_step s2 s3" using finish [of s2 True] by (simp add: s2_def s3_def)
  ultimately have "watch_step\<^sup>*\<^sup>* watch_start s3"
    by (meson converse_rtranclp_into_rtranclp rtranclp.rtrancl_refl)
  with sighup_never_lost [OF this] show ?thesis by (auto simp: s3_def)
qed

end
