(* ===== verification/Admin.thy ===== *)
theory Admin
  imports Gateway_Props Nginx_Translator
begin

text \<open>
  The admin API (\<^verbatim>\<open>src/internal/admin/admin.go\<close>): the handlers over the gateway's route table, and
  the JSON they write with \<^verbatim>\<open>encoding/json\<close>. The multiplexer \<^verbatim>\<open>go-chi/chi\<close> and the text of a load
  error are arguments. The server holds the gateway it reloads and the last configuration.
\<close>

section \<open>encoding/json\<close>

datatype json =
    JNull
  | JBool bool
  | JInt int
  | JStr string
  | JArr "json list"
  | JObj "(string \<times> json) list"

definition hex_digit :: "nat \<Rightarrow> char" where
  "hex_digit d = (if d < 10 then digit_char d else char_of (87 + d))"

text \<open>
  The encoder escapes quotes, backslashes, control characters and, as it is an HTML-escaping
  one, angle brackets and ampersands; other bytes are text in UTF-8 and are copied.
\<close>

definition json_char :: "char \<Rightarrow> string" where
  "json_char c =
     (let n = of_char c :: nat
      in if c = CHR 0x22 \<or> c = CHR 0x5C then [CHR 0x5C, c]
         else if n = 8 then [CHR 0x5C, CHR ''b'']
         else if n = 12 then [CHR 0x5C, CHR ''f'']
         else if n = 10 then [CHR 0x5C, CHR ''n'']
         else if n = 13 then [CHR 0x5C, CHR ''r'']
         else if n = 9 then [CHR 0x5C, CHR ''t'']
         else if n < 32 \<or> c = CHR ''<'' \<or> c = CHR ''>'' \<or> c = CHR ''&''
         then [CHR 0x5C, CHR ''u'', CHR ''0'', CHR ''0'', hex_digit (n div 16), hex_digit (n mod 16)]
         else [c])"

definition json_quote :: "string \<Rightarrow> string" where
  "json_quote s = CHR 0x22 # concat (map json_char s) @ [CHR 0x22]"

definition newline :: "nat \<Rightarrow> string" where
  "newline depth = CHR 0x0A # replicate (2 * depth) (CHR '' '')"

fun json_join :: "string \<Rightarrow> string list \<Rightarrow> string" where
  "json_join sep [] = []"
| "json_join sep [x] = x"
| "json_join sep (x # y # zs) = x @ sep @ json_join sep (y # zs)"

text \<open>The encoding with \<open>SetIndent("", "  ")\<close>; an empty array or object stays on one line.\<close>

fun json_print :: "nat \<Rightarrow> json \<Rightarrow> string" where
  "json_print d JNull = ''null''"
| "json_print d (JBool b) = (if b then ''true'' else ''false'')"
| "json_print d (JInt i) = Itoa i"
| "json_print d (JStr s) = json_quote s"
| "json_print d (JArr xs) =
     (if xs = [] then ''[]''
      else ''['' @ newline (Suc d) @ json_join ('','' @ newline (Suc d)) (map (json_print (Suc d)) xs)
           @ newline d @ '']'')"
| "json_print d (JObj kvs) =
     (if kvs = [] then ''{}''
      else ''{'' @ newline (Suc d)
           @ json_join ('','' @ newline (Suc d))
               (map (\<lambda>kv. json_quote (fst kv) @ '': '' @ json_print (Suc d) (snd kv)) kvs)
           @ newline d @ ''}'')"

text \<open>The struct tags: fields in order, the last three left out when empty.\<close>

definition upstream_json :: "UpstreamSnapshot \<Rightarrow> json" where
  "upstream_json u =
     JObj [(''url'', JStr (us_URL u)), (''healthy'', JBool (us_Healthy u)),
           (''active_conns'', JInt (us_ActiveConns u)), (''circuit_state'', JStr (us_CircuitState u)),
           (''failure_count'', JInt (us_FailureCount u))]"

definition route_json :: "RouteSnapshot \<Rightarrow> json" where
  "route_json s =
     JObj ([(''name'', JStr (rs_Name s)), (''path_prefix'', JStr (rs_PathPrefix s))]
       @ (if rs_Host s = [] then [] else [(''host'', JStr (rs_Host s))])
       @ (if rs_Plugins s = [] then [] else [(''plugins'', JArr (map JStr (rs_Plugins s)))])
       @ (if rs_Upstreams s = [] then [] else [(''upstreams'', JArr (map upstream_json (rs_Upstreams s)))]))"

section \<open>The server\<close>

record 'l Server =
  srv_gw :: "'l Gateway"
  srv_cfg :: Config

text \<open>What \<open>chi\<close> finds for a request, with the URL parameter of \<^verbatim>\<open>/admin/routes/{name}\<close>.\<close>

datatype admin_endpoint =
    AdminRoutes | AdminRoute string | AdminUpstreams | AdminReload | AdminHealth | AdminUnrouted

record admin_env =
  ad_chi :: "string \<Rightarrow> string \<Rightarrow> admin_endpoint"
  ad_unrouted :: "Request \<Rightarrow> writer \<Rightarrow> writer \<times> outcome"
  ad_load :: load_env
  ad_error_text :: "load_error \<Rightarrow> string"
  ad_url_Parse :: "string \<Rightarrow> URL option"

definition Admin_New :: "Config \<Rightarrow> 'l Gateway \<Rightarrow> 'l Server \<times> string" where
  "Admin_New cfg gw =
     (\<lparr>srv_gw = gw, srv_cfg = cfg\<rparr>,
      adm_Host (cfg_Admin cfg) @ '':'' @ Itoa (adm_Port (cfg_Admin cfg)))"

text \<open>\<open>Encode\<close> writes the text and a newline at once, and fails when that write fails.\<close>

definition writeJSON :: "json \<Rightarrow> writer \<Rightarrow> 's \<Rightarrow> writer \<times> 's \<times> outcome" where
  "writeJSON v w s =
     (let w1 = w_set_header (Set ''Content-Type'' ''application/json'') w;
          (w2, res) = w_Write (json_print 0 v @ [CHR 0x0A]) w1
      in case res of
           Wrote n \<Rightarrow> (w2, s, Returned)
         | WriteFailed n \<Rightarrow> reply_error ''json encode error'' 500 w2 s
         | WritePanic \<Rightarrow> (w2, s, Panicked))"

definition handleHealth :: "'s handler" where
  "handleHealth r w s =
     (let (w1, res) = w_Write ''OK'' (w_WriteHeader 200 w)
      in (w1, s, if res = WritePanic then Panicked else Returned))"

definition handleRoutes :: "'l Server handler" where
  "handleRoutes r w s = writeJSON (JArr (map route_json (Gateway_Routes (srv_gw s)))) w s"

definition handleRoute :: "string \<Rightarrow> 'l Server handler" where
  "handleRoute name r w s =
     (case find (\<lambda>snap. rs_Name snap = name) (Gateway_Routes (srv_gw s)) of
        Some snap \<Rightarrow> writeJSON (route_json snap) w s
      | None \<Rightarrow> reply_error ''route not found'' 404 w s)"

text \<open>The rows of \<open>handleUpstreams\<close>: maps, whose keys the encoder sorts; no row is a nil slice.\<close>

definition upstream_row :: "string \<Rightarrow> UpstreamSnapshot \<Rightarrow> json" where
  "upstream_row route up =
     JObj [(''active_conns'', JInt (us_ActiveConns up)), (''circuit_state'', JStr (us_CircuitState up)),
           (''failure_count'', JInt (us_FailureCount up)), (''healthy'', JBool (us_Healthy up)),
           (''route'', JStr route), (''url'', JStr (us_URL up))]"

definition handleUpstreams :: "'l Server handler" where
  "handleUpstreams r w s =
     (let all = concat (map (\<lambda>route. map (upstream_row (rs_Name route)) (rs_Upstreams route))
                  (Gateway_Routes (srv_gw s)))
      in writeJSON (if all = [] then JNull else JArr all) w s)"

text \<open>The gateway's \<open>Reload\<close> always returns nil, so its error branch is left out.\<close>

definition handleReload :: "admin_env \<Rightarrow> 'l Server handler" where
  "handleReload env r w s =
     (case Config_Reload (ad_load env) of
        Inl err \<Rightarrow> reply_error (''config reload failed: '' @ ad_error_text env err) 500 w s
      | Inr newCfg \<Rightarrow>
          (let s1 = s\<lparr>srv_gw := Gateway_Reload (ad_url_Parse env) newCfg (srv_gw s)\<rparr>
           in writeJSON (JObj [(''status'', JStr ''reloaded'')]) w (s1\<lparr>srv_cfg := newCfg\<rparr>)))"

definition Admin_ServeHTTP :: "admin_env \<Rightarrow> 'l Server handler" where
  "Admin_ServeHTTP env r w s =
     (case ad_chi env (Method r) (url_Path (ReqURL r)) of
        AdminRoutes \<Rightarrow> handleRoutes r w s
      | AdminRoute name \<Rightarrow> handleRoute name r w s
      | AdminUpstreams \<Rightarrow> handleUpstreams r w s
      | AdminReload \<Rightarrow> handleReload env r w s
      | AdminHealth \<Rightarrow> handleHealth r w s
      | AdminUnrouted \<Rightarrow> (let (w1, out) = ad_unrouted env r w in (w1, s, out)))"

end
