(* ===== verification/Router.thy ===== *)
theory Router
  imports Gateway
begin

text \<open>
  The HTTP handler of the gateway (\<^verbatim>\<open>src/internal/router/router.go\<close>): the middleware stack and
  the endpoints behind it. \<open>New\<close> registers the middlewares in order, so the first one is the
  outermost. The values the middlewares' closures capture and change (the limiter's store, the
  log, the instances of global plugins) are kept in the stack. The multiplexer
  \<^verbatim>\<open>go-chi/chi\<close>, its own answer to requests it has no route for, and the Prometheus handler are
  arguments; so are a fresh identifier, whether the timeout fires, and the gzip encoder.
\<close>

section \<open>The middleware stack\<close>

datatype 'l mw =
    MW_RequestID
  | MW_Recovery
  | MW_Timeout int
  | MW_Logging "log_entry list"
  | MW_RateLimit "'l ipStore"
  | MW_CORS
  | MW_Gzip GzipConfig
  | MW_Plugin "'l plugin_inst"

datatype endpoint = HealthEndpoint | MetricsEndpoint | GatewayEndpoint | Unrouted

record 'l router_env =
  ro_uuid :: string
  ro_timeout :: timeout_event
  ro_codec :: gzip_codec
  ro_plugins :: "'l plugin_env"
  ro_chi :: "string \<Rightarrow> string \<Rightarrow> endpoint"
  ro_unrouted :: "Request \<Rightarrow> writer \<Rightarrow> writer \<times> outcome"
  ro_promhttp :: "Registry \<Rightarrow> Request \<Rightarrow> writer \<Rightarrow> writer \<times> outcome"
  ro_engine :: env

text \<open>A middleware around a handler, with what the middleware keeps.\<close>

definition keep_mw :: "'l mw \<Rightarrow> writer \<times> 's \<times> outcome \<Rightarrow> writer \<times> ('l mw \<times> 's) \<times> outcome" where
  "keep_mw m res = (case res of (w, s, out) \<Rightarrow> (w, (m, s), out))"

fun mw_serve ::
  "'l router_env \<Rightarrow> 's handler \<Rightarrow> 'l mw \<Rightarrow> Request \<Rightarrow> writer \<Rightarrow> 's
     \<Rightarrow> writer \<times> ('l mw \<times> 's) \<times> outcome" where
  "mw_serve env next MW_RequestID r w s = keep_mw MW_RequestID (RequestID (ro_uuid env) next r w s)"
| "mw_serve env next MW_Recovery r w s = keep_mw MW_Recovery (Recovery next r w s)"
| "mw_serve env next (MW_Timeout d) r w s =
     keep_mw (MW_Timeout d) (Timeout (ro_timeout env) d next r w s)"
| "mw_serve env next (MW_Logging entries) r w s =
     (let (w1, (entries1, s1), out) = Logging next r w (entries, s)
      in (w1, (MW_Logging entries1, s1), out))"
| "mw_serve env next (MW_RateLimit store) r w s =
     (let (w1, (store1, s1), out) =
        IPRateLimit (pe_limiter (ro_plugins env)) (pe_now (ro_plugins env)) next r w (store, s)
      in (w1, (MW_RateLimit store1, s1), out))"
| "mw_serve env next MW_CORS r w s = keep_mw MW_CORS (CORS next r w s)"
| "mw_serve env next (MW_Gzip cfg) r w s =
     keep_mw (MW_Gzip cfg) (GzipMiddleware cfg (ro_codec env) next r w s)"
| "mw_serve env next (MW_Plugin p) r w s =
     (let (w1, (p1, s1), out) = plugin_serve (ro_plugins env) next p r w s
      in (w1, (MW_Plugin p1, s1), out))"

fun stack_serve ::
  "'l router_env \<Rightarrow> 's handler \<Rightarrow> 'l mw list \<Rightarrow> Request \<Rightarrow> writer \<Rightarrow> 's
     \<Rightarrow> writer \<times> ('l mw list \<times> 's) \<times> outcome" where
  "stack_serve env next [] r w s = (let (w1, s1, out) = next r w s in (w1, ([], s1), out))"
| "stack_serve env next (m # ms) r w s =
     (let (w1, (m1, ms1, s1), out) =
        mw_serve env (\<lambda>r w (_, s). stack_serve env next ms r w s) m r w (ms, s)
      in (w1, (m1 # ms1, s1), out))"

section \<open>router.go\<close>

record 'l Router =
  rt_stack :: "'l mw list"
  rt_gateway :: "'l Gateway"

text \<open>The loop over the global plugins.\<close>

definition use_plugin :: "plugin_registry \<Rightarrow> PluginConfig \<Rightarrow> 'l mw list \<Rightarrow> 'l mw list" where
  "use_plugin pluginReg pc stack =
     (if \<not> pc_Enabled pc then stack
      else (case pluginReg (pc_Name pc) of
              None \<Rightarrow> stack
            | Some p \<Rightarrow>
                (case Plugin_New p (pc_Config pc) of
                   Inl err \<Rightarrow> stack
                 | Inr mw \<Rightarrow> stack @ [MW_Plugin mw])))"

definition thirty_seconds :: int where
  "thirty_seconds = 30000000000"

definition RateLimit_of :: "Config \<Rightarrow> 'l mw" where
  "RateLimit_of cfg =
     MW_RateLimit (newIPStore (rate_RequestsPerSecond (cfg_Rate cfg)) (rate_Burst (cfg_Rate cfg)))"

definition Router_New :: "(string \<Rightarrow> URL option) \<Rightarrow> Config \<Rightarrow> 'l Router" where
  "Router_New url_Parse cfg =
     (let pluginReg = Registry_Default;
          stack = [MW_RequestID, MW_Recovery, MW_Timeout thirty_seconds, MW_Logging [],
                   RateLimit_of cfg, MW_CORS];
          stack1 = (if gz_Enabled (cfg_Gzip cfg) then stack @ [MW_Gzip (cfg_Gzip cfg)] else stack);
          stack2 = fold (use_plugin pluginReg) (cfg_Plugins cfg) stack1
      in \<lparr>rt_stack = stack2, rt_gateway = Gateway_New url_Parse cfg pluginReg\<rparr>)"

text \<open>What the multiplexer runs behind the stack.\<close>

definition serve_endpoint :: "'l router_env \<Rightarrow> 'l Gateway handler" where
  "serve_endpoint env r w g =
     (case ro_chi env (Method r) (url_Path (ReqURL r)) of
        HealthEndpoint \<Rightarrow> health_Handler r w g
      | MetricsEndpoint \<Rightarrow> (let (w1, out) = ro_promhttp env (gw_metrics g) r w in (w1, g, out))
      | GatewayEndpoint \<Rightarrow> Gateway_ServeHTTP (ro_plugins env) (ro_engine env) r w g
      | Unrouted \<Rightarrow> (let (w1, out) = ro_unrouted env r w in (w1, g, out)))"

definition Router_ServeHTTP :: "'l router_env \<Rightarrow> 'l Router handler" where
  "Router_ServeHTTP env r w rt =
     (let (w1, (stack, g), out) =
        stack_serve env (serve_endpoint env) (rt_stack rt) r w (rt_gateway rt)
      in (w1, rt\<lparr>rt_stack := stack, rt_gateway := g\<rparr>, out))"

end
