(* ===== verification/Router_Props.thy ===== *)
theory Router_Props
  imports Router Gateway_Props
begin

text \<open>
  Properties of the whole handler: the shape of the stack, that a client always gets an answer,
  that preflight requests stay in the gateway, and what the stack does to upgrade requests.
\<close>

section \<open>The stack calls the endpoint at most once, on a writer that cannot be hijacked\<close>

text \<open>The kind of a middleware: what does not change while it serves.\<close>

fun mw_shape :: "'l mw \<Rightarrow> 'l mw" where
  "mw_shape (MW_Logging _) = MW_Logging []"
| "mw_shape (MW_RateLimit s) = MW_RateLimit (newIPStore (st_rps s) (st_burst s))"
| "mw_shape (MW_Plugin p) = MW_Plugin (plugin_shape p)"
| "mw_shape m = m"

lemma mw_serve_shape:
  assumes "mw_serve env next m r w s = (w', (m', s'), out)"
  shows "mw_shape m' = mw_shape m"
proof (cases m)
  case (MW_Logging entries)
  then show ?thesis using assms by (auto split: prod.splits)
next
  case (MW_RateLimit store)
  then show ?thesis
    using assms by (auto simp: IPRateLimit_def reply_error_def Let_def
        split: prod.splits if_splits dest!: allow_ip_config)
next
  case (MW_Plugin p)
  then obtain p' where "plugin_serve (ro_plugins env) next p r w s = (w', (p', s'), out)"
    and "m' = MW_Plugin p'"
    using assms by (auto split: prod.splits)
  then show ?thesis using plugin_serve_shape [of "ro_plugins env" "next" p r w s] MW_Plugin by simp
qed (use assms in \<open>auto simp: keep_mw_def split: prod.splits\<close>)

lemma mw_serve_once:
  "mw_serve env h m r w s = (w', (m', s'), out) \<Longrightarrow>
   calls_once h s s'"
proof (cases m)
  case (MW_Plugin p)
  moreover assume "mw_serve env h m r w s = (w', (m', s'), out)"
  ultimately show ?thesis
    by (auto split: prod.splits intro: at_most_once_calls dest: plugin_serve_once)
qed (auto simp: calls_once_def keep_mw_def RequestID_def Recovery_def Timeout_def Logging_def IPRateLimit_def CORS_def
      GzipMiddleware_def Let_def
      split: prod.splits if_splits timeout_event.splits option.splits layer.splits outcome.splits
      dest!: reply_error_state)

lemma mw_serve_agree:
  "agree_unhijackable h h' \<Longrightarrow> unhijackable w \<Longrightarrow> mw_serve env h m r w s = mw_serve env h' m r w s"
  by (cases m)
    (simp_all add: RequestID_def Recovery_def Timeout_def Logging_def IPRateLimit_def CORS_def
      GzipMiddleware_def agreeD plugin_serve_agree cong: prod.case_cong if_cong)

interpretation stack: layered "mw_serve env" "stack_serve env" mw_shape
  for env :: "'l router_env"
proof unfold_locales
  fix h :: "'s handler" and r w s
  show "stack_serve env h [] r w s = (let (w1, s1, out) = h r w s in (w1, ([], s1), out))" by simp
qed (auto dest: mw_serve_once mw_serve_shape
     simp del: mw_serve.simps mw_shape.simps simp: mw_serve_agree)

fun not_gzip_mw :: "'l mw \<Rightarrow> bool" where
  "not_gzip_mw (MW_Gzip cfg) = False"
| "not_gzip_mw _ = True"

lemma not_gzip_shape [simp]: "not_gzip_mw (mw_shape m) = not_gzip_mw m"
  by (cases m) simp_all

lemma mw_serve_plain:
  assumes "not_gzip_mw m" and "plain w" and "mw_serve env h m r w s = (w', (m', s'), out)"
  shows "s' = s \<or> (\<exists>r1 w1 w2 o1. plain w1 \<and> h r1 w1 s = (w2, s', o1))"
proof (cases m)
  case MW_RequestID
  then show ?thesis
    using assms plain_set_header [of "Set ''X-Request-ID'' (ro_uuid env)" w]
    by (auto simp: keep_mw_def RequestID_def Let_def split: prod.splits)
next
  case MW_Recovery
  then show ?thesis
    using assms by (auto simp: keep_mw_def Recovery_def split: prod.splits if_splits dest!: reply_error_state)
next
  case (MW_Timeout d)
  then show ?thesis
    using assms plain_timeoutWriter [of "ro_timeout env \<noteq> InTime"]
    by (auto simp: keep_mw_def Timeout_def Let_def
        split: prod.splits if_splits timeout_event.splits option.splits)
next
  case (MW_Logging es)
  then show ?thesis
    using assms plain_push [of "Recorder NewResponseRecorder" w]
    by (auto simp: Logging_def Let_def split: prod.splits outcome.splits option.splits layer.splits)
next
  case (MW_RateLimit store)
  then show ?thesis
    using assms by (auto simp: IPRateLimit_def Let_def split: prod.splits if_splits dest: reply_error_state)
next
  case MW_CORS
  then show ?thesis
    using assms plain_set_header [of _ w]
    by (auto simp: keep_mw_def CORS_def Let_def split: prod.splits if_splits)
next
  case (MW_Plugin p)
  then show ?thesis using assms by (auto split: prod.splits dest: plugin_serve_plain)
qed (use assms in simp)

interpretation stack_plain: layered_on "mw_serve env" "stack_serve env" mw_shape plain not_gzip_mw
  for env :: "'l router_env"
  by unfold_locales (rule mw_serve_plain)

section \<open>Upgrade requests\<close>

lemma forward_env_ws: "forward (env\<lparr>env_ws := io\<rparr>) n e r t = forward env n e r t"
  by (simp add: forward_def)

lemma retry_next_env_ws: "retry_next (env\<lparr>env_ws := io\<rparr>) n l e = retry_next env n l e"
  by (simp add: retry_next_def)

lemma serve_loop_env_ws: "serve_loop (env\<lparr>env_ws := io\<rparr>) r n i e w = serve_loop env r n i e w"
proof (induction env r n i e w rule: serve_loop.induct)
  case (1 env r n i e w)
  show ?case
    by (subst (1 2) serve_loop.simps)
      (simp add: forward_env_ws retry_next_env_ws 1 Let_def cong: sum.case_cong prod.case_cong if_cong)
qed

lemma Engine_env_ws:
  "unhijackable w \<Longrightarrow> Engine_ServeHTTP (env\<lparr>env_ws := io\<rparr>) r e w = Engine_ServeHTTP env r e w"
  by (simp add: Engine_ServeHTTP_def serve_upgrade_def handleWebSocket_def unhijackable_def
      serve_loop_env_ws Let_def split: prod.split sum.split)

lemma Gateway_env_ws:
  "unhijackable w \<Longrightarrow> Gateway_ServeHTTP penv (env\<lparr>env_ws := io\<rparr>) r w g = Gateway_ServeHTTP penv env r w g"
proof -
  assume w: "unhijackable w"
  have "agree_unhijackable (engine_handler (env\<lparr>env_ws := io\<rparr>)) (engine_handler env)"
    by (simp add: agree_unhijackable_def engine_handler_def Engine_env_ws)
  then have "chain_serve penv (engine_handler (env\<lparr>env_ws := io\<rparr>)) ps r w e =
      chain_serve penv (engine_handler env) ps r w e" for ps e
    using w by (rule chain.serve_agree)
  then have "route_serve penv (env\<lparr>env_ws := io\<rparr>) m route r w = route_serve penv env m route r w" for m route
    by (simp add: route_serve_def)
  then show ?thesis by (simp add: Gateway_ServeHTTP_def Let_def split: option.split)
qed

section \<open>Reachable routers\<close>

text \<open>A router serves requests; a hot reload replaces the route table of its gateway.\<close>

inductive router_reach :: "(string \<Rightarrow> URL option) \<Rightarrow> Config \<Rightarrow> 'l Router \<Rightarrow> bool" for url_Parse cfg where
  start: "router_reach url_Parse cfg (Router_New url_Parse cfg)"
| serve: "router_reach url_Parse cfg rt \<Longrightarrow> Router_ServeHTTP env r w rt = (w', rt', out) \<Longrightarrow>
          router_reach url_Parse cfg rt'"
| reload: "router_reach url_Parse cfg rt \<Longrightarrow>
           router_reach url_Parse cfg (rt\<lparr>rt_gateway := Gateway_Reload url_Parse cfg' (rt_gateway rt)\<rparr>)"

lemma use_plugin_eq:
  "use_plugin reg pc stack =
     (case plugin_instance reg pc of None \<Rightarrow> stack | Some mw \<Rightarrow> stack @ [MW_Plugin mw])"
  by (auto simp: use_plugin_def plugin_instance_def split: option.splits sum.splits)

lemma fold_use_plugin:
  "fold (use_plugin reg) pcs stack = stack @ map MW_Plugin (List.map_filter (plugin_instance reg) pcs)"
  by (induction pcs arbitrary: stack) (simp_all add: use_plugin_eq split: option.split)

text \<open>The stack of a configuration.\<close>

definition config_stack :: "Config \<Rightarrow> 'l mw list" where
  "config_stack cfg =
     [MW_RequestID, MW_Recovery, MW_Timeout thirty_seconds, MW_Logging [], RateLimit_of cfg, MW_CORS] @
     (if gz_Enabled (cfg_Gzip cfg) then [MW_Gzip (cfg_Gzip cfg)] else []) @
     map MW_Plugin (List.map_filter (plugin_instance Registry_Default) (cfg_Plugins cfg))"

lemma Router_New_stack: "rt_stack (Router_New url_Parse cfg) = config_stack cfg"
  by (simp add: Router_New_def config_stack_def fold_use_plugin Let_def)

lemma router_reach_shape:
  "router_reach url_Parse cfg rt \<Longrightarrow> map mw_shape (rt_stack rt) = map mw_shape (config_stack cfg)"
proof (induction rule: router_reach.induct)
  case (serve rt env r w w' rt' out)
  then show ?case
    using stack.serve_shape [of env "serve_endpoint env" "rt_stack rt" r w "rt_gateway rt"]
    by (auto simp: Router_ServeHTTP_def Let_def split: prod.splits)
qed (simp_all add: Router_New_stack)

lemma mw_shape_eq:
  "mw_shape m = MW_RequestID \<longleftrightarrow> m = MW_RequestID"
  "mw_shape m = MW_Recovery \<longleftrightarrow> m = MW_Recovery"
  "mw_shape m = MW_Timeout d \<longleftrightarrow> m = MW_Timeout d"
  "mw_shape m = MW_Logging [] \<longleftrightarrow> (\<exists>es. m = MW_Logging es)"
  "mw_shape m = MW_CORS \<longleftrightarrow> m = MW_CORS"
  by (cases m; simp)+

lemma mw_shape_RateLimit:
  "mw_shape m = RateLimit_of cfg \<Longrightarrow>
   \<exists>store. m = MW_RateLimit store \<and> st_rps store = rate_RequestsPerSecond (cfg_Rate cfg) \<and>
           st_burst store = rate_Burst (cfg_Rate cfg)"
  by (cases m) (auto simp: RateLimit_of_def newIPStore_def)

lemma router_reach_stack:
  assumes "router_reach url_Parse cfg rt"
  obtains es store ms where
    "rt_stack rt = MW_RequestID # MW_Recovery # MW_Timeout thirty_seconds # MW_Logging es #
                   MW_RateLimit store # MW_CORS # ms"
    and "st_rps store = rate_RequestsPerSecond (cfg_Rate cfg)" and "st_burst store = rate_Burst (cfg_Rate cfg)"
proof -
  have RL: "mw_shape (RateLimit_of cfg) = RateLimit_of cfg"
    by (simp add: RateLimit_of_def newIPStore_def)
  show ?thesis
    using router_reach_shape [OF assms] that
    by (auto simp: config_stack_def map_eq_Cons_conv mw_shape_eq RL dest!: mw_shape_RateLimit)
qed

section \<open>Properties\<close>

text \<open>
  The middleware stack is what the configuration at start says, in every reachable state: the six
  fixed layers in their order, the gzip layer if enabled, then the global plugins that could be
  built, in configuration order. Serving requests changes no more than the log and the
  limiters' stores, and a hot reload changes nothing of it.
\<close>

lemma router_stack_fixed:
  assumes "router_reach url_Parse cfg rt"
  shows "map mw_shape (rt_stack rt) =
         map mw_shape ([MW_RequestID, MW_Recovery, MW_Timeout thirty_seconds, MW_Logging [],
                        RateLimit_of cfg, MW_CORS] @
           (if gz_Enabled (cfg_Gzip cfg) then [MW_Gzip (cfg_Gzip cfg)] else []) @
           map MW_Plugin (List.map_filter (plugin_instance Registry_Default) (cfg_Plugins cfg)))"
  using router_reach_shape [OF assms] by (simp add: config_stack_def)

text \<open>A client's writer before anything was sent.\<close>

definition fresh :: "writer \<Rightarrow> bool" where
  "fresh w \<longleftrightarrow> w_layers w = [] \<and> bw_sent (w_base w) = None \<and> \<not> bw_timeout (w_base w)"

lemma bare_WriteHeader:
  "w_layers w = [] \<Longrightarrow> w_layers (w_WriteHeader code w) = []"
  by (simp add: w_WriteHeader_def)

lemma bare_Write:
  assumes "w_layers w = []" and "w_Write bs w = (w', res)"
  shows "res \<noteq> WritePanic \<and> w_layers w' = [] \<and>
         (case bw_sent (w_base w) of
            None \<Rightarrow> bw_sent (w_base w') = Some (200, bw_header (w_base w))
          | Some x \<Rightarrow> bw_sent (w_base w') = Some x)"
  using assms
  by (auto simp: w_Write_def base_Write_def base_WriteHeader_def informational_def Let_def
      split: prod.splits if_splits option.splits)

lemma bare_sent_WriteHeader:
  "fresh w \<Longrightarrow> bw_sent (w_base (w_WriteHeader code w)) =
     (if invalid_code code \<or> informational code then None else Some (code, bw_header (w_base w)))"
  by (simp add: fresh_def w_WriteHeader_def base_WriteHeader_def)

lemma reply_fresh:
  assumes "fresh w" and "\<not> invalid_code code" and "\<not> informational code"
    and "reply_error msg code w s = (w', s', out)"
  shows "out = Returned \<and> s' = s \<and> (\<exists>h. bw_sent (w_base w') = Some (code, h))"
proof -
  let ?f = "\<lambda>h. Set ''X-Content-Type-Options'' ''nosniff''
              (Set ''Content-Type'' ''text/plain; charset=utf-8'' (Del ''Content-Length'' h))"
  let ?w1 = "w_WriteHeader code (w_set_header ?f w)"
  have "fresh (w_set_header ?f w)" using assms(1) by (simp add: fresh_def w_set_header_def)
  then have sent: "bw_sent (w_base ?w1) = Some (code, bw_header (w_base (w_set_header ?f w)))"
    and lay: "w_layers ?w1 = []"
    using bare_sent_WriteHeader [of "w_set_header ?f w" code] assms(2,3)
    by (simp_all add: bare_WriteHeader fresh_def)
  obtain w2 res where w2: "w_Write (msg @ [CHR 0x0A]) ?w1 = (w2, res)" by fastforce
  show ?thesis
    using bare_Write [OF lay w2] assms(2,4) sent w2
    by (auto simp: reply_error_def http_Error_def w_WriteHeader_panics_def Let_def)
qed

lemma Timeout_answers:
  assumes "fresh w" and "Timeout ev d h r w s = (w', s', out)"
  shows "out = Panicked \<and> ev = InTime \<and> fresh w' \<or>
         out = Returned \<and> (\<exists>code hd. bw_sent (w_base w') = Some (code, hd) \<and>
           (ev \<noteq> InTime \<longrightarrow> code = 503 \<and> hd = bw_header (w_base w)))"
proof (cases ev)
  case InTime
  obtain tw s1 o1 where tw: "h (r\<lparr>ReqCtx := WithTimeout (ReqCtx r) d\<rparr>) (timeoutWriter False) s
      = (tw, s1, o1)"
    using prod_cases3 by blast
  let ?code = "case bw_sent (w_base tw) of None \<Rightarrow> 200 | Some (c, _) \<Rightarrow> c"
  let ?w1 = "w_set_header (fold (\<lambda>(k, vs). AList.update k vs) (w_header tw)) w"
  obtain w2 res where w2: "w_Write (bw_body (w_base tw)) (w_WriteHeader ?code ?w1) = (w2, res)" by fastforce
  have "w_layers (w_WriteHeader ?code ?w1) = []"
    using assms(1) by (intro bare_WriteHeader) (simp add: fresh_def w_set_header_def)
  from bare_Write [OF this w2] have "res \<noteq> WritePanic" "bw_sent (w_base w2) \<noteq> None"
    by (auto split: option.splits)
  moreover have "fresh (w_WriteHeader ?code ?w1)" if "w_WriteHeader_panics ?code ?w1"
    using that assms(1) WriteHeader_panics_invalid [of ?code "w_layers ?w1" "w_base ?w1"]
    by (simp add: fresh_def w_WriteHeader_panics_def w_WriteHeader_def w_set_header_def base_WriteHeader_def)
  ultimately show ?thesis
    using assms tw w2 InTime by (auto simp: Timeout_def Let_def split: if_splits)
next
  case DeadlineExceeded
  have lay: "w_layers (w_WriteHeader 503 w) = []" using assms(1) by (simp add: bare_WriteHeader fresh_def)
  have sent: "bw_sent (w_base (w_WriteHeader 503 w)) = Some (503, bw_header (w_base w))"
    using bare_sent_WriteHeader [OF assms(1), of 503] by (simp add: informational_def)
  obtain w2 res where w2: "w_Write ''request timeout'' (w_WriteHeader 503 w) = (w2, res)" by fastforce
  show ?thesis
    using bare_Write [OF lay w2] sent w2 assms(2) DeadlineExceeded
    by (auto simp: Timeout_def Let_def split: prod.splits)
next
  case ClientCanceled
  then show ?thesis
    using bare_sent_WriteHeader [OF assms(1), of 503] assms(2)
    by (auto simp: Timeout_def informational_def Let_def split: prod.splits)
qed

lemma Timeout_in_time:
  assumes "fresh w" and "h (r\<lparr>ReqCtx := WithTimeout (ReqCtx r) d\<rparr>) (timeoutWriter False) s = (tw, s1, Returned)"
    and "bw_sent (w_base tw) = Some (code, hs)" and "\<not> informational code" and "\<not> invalid_code code"
  shows "\<exists>w2 hd'. Timeout InTime d h r w s = (w2, s1, Returned) \<and> bw_sent (w_base w2) = Some (code, hd')"
proof -
  let ?w1 = "w_set_header (fold (\<lambda>(k, vs). AList.update k vs) (w_header tw)) w"
  obtain w2 res where w2: "w_Write (bw_body (w_base tw)) (w_WriteHeader code ?w1) = (w2, res)" by fastforce
  have fresh: "fresh ?w1" using assms(1) by (simp add: fresh_def w_set_header_def)
  then have "w_layers (w_WriteHeader code ?w1) = []" by (simp add: bare_WriteHeader fresh_def)
  from bare_Write [OF this w2] bare_sent_WriteHeader [OF fresh, of code] assms(4,5)
  have "res \<noteq> WritePanic" "bw_sent (w_base w2) = Some (code, bw_header (w_base ?w1))" by simp_all
  then show ?thesis using assms(2,3,5) w2 by (simp add: Timeout_def w_WriteHeader_panics_def Let_def)
qed

lemma fresh_set_header: "fresh (w_set_header f w) \<longleftrightarrow> fresh w"
  by (simp add: fresh_def w_set_header_def)

text \<open>The three outer layers, as equations over the rest of the stack.\<close>

lemma stack_RequestID:
  fixes ms :: "'l mw list" and s :: 's
  assumes "stack_serve env h (MW_RequestID # ms) r w s = (w', (ms', s'), out)"
  obtains ms1 where "stack_serve env h ms
      (r\<lparr>ReqHeader := Set ''X-Request-ID'' (ro_uuid env) (ReqHeader r)\<rparr>)
      (w_set_header (Set ''X-Request-ID'' (ro_uuid env)) w) s = (w', (ms1, s'), out)"
  by (rule stack.serve_ConsE [OF assms])
    (auto simp: keep_mw_def RequestID_def Let_def split: prod.splits intro: that)

lemma stack_Recovery:
  fixes ms :: "'l mw list" and s :: 's
  assumes "stack_serve env h (MW_Recovery # ms) r w s = (w', (ms', s'), out)"
  obtains w1 ms1 o1 where "stack_serve env h ms r w s = (w1, (ms1, s'), o1)"
    and "o1 = Panicked \<Longrightarrow> reply_error ''internal server error'' 500 w1 () = (w', (), out)"
    and "o1 = Returned \<Longrightarrow> w' = w1 \<and> out = Returned"
proof -
  obtain m1 ms1 where "mw_serve env (\<lambda>r w x. stack_serve env h ms r w (snd x)) MW_Recovery r w (ms, s)
      = (w', (m1, ms1, s'), out)"
    using stack.serve_ConsE [OF assms] by blast
  then show ?thesis
    using that
    by (cases "stack_serve env h ms r w s")
      (auto simp: keep_mw_def Recovery_def reply_error_def Let_def split: prod.splits if_splits outcome.splits)
qed

lemma stack_Timeout:
  fixes ms :: "'l mw list" and s :: 's
  assumes "stack_serve env h (MW_Timeout d # ms) r w s = (w', (ms', s'), out)"
  obtains s1 where "Timeout (ro_timeout env) d (\<lambda>r w x. stack_serve env h ms r w (snd x)) r w (ms, s)
      = (w', s1, out)"
  by (rule stack.serve_ConsE [OF assms]) (auto simp: keep_mw_def split: prod.splits intro: that)

text \<open>
  C2. Every request is answered and no panic gets out. In every reachable state of the router,
  whatever the plugins, the upstreams and the endpoints do, panics included, the handler
  returns normally, and a client whose response had not begun has been sent a status line. If
  the timeout fired or the client went away it is 503, with the identifier of the request.
\<close>

theorem router_always_answers:
  assumes "router_reach url_Parse cfg rt" and "fresh w"
    and "Router_ServeHTTP env r w rt = (w', rt', out)"
  shows "out = Returned \<and>
         (\<exists>code h. bw_sent (w_base w') = Some (code, h) \<and>
            (ro_timeout env \<noteq> InTime \<longrightarrow> code = 503 \<and> Get h ''X-Request-ID'' = ro_uuid env))"
proof -
  obtain es store ms where st: "rt_stack rt = MW_RequestID # MW_Recovery # MW_Timeout thirty_seconds #
      MW_Logging es # MW_RateLimit store # MW_CORS # ms"
    using assms(1) by (rule router_reach_stack)
  let ?w1 = "w_set_header (Set ''X-Request-ID'' (ro_uuid env)) w"
  obtain ms' g' where "stack_serve env (serve_endpoint env) (rt_stack rt) r w (rt_gateway rt)
      = (w', (ms', g'), out)"
    using assms(3) by (auto simp: Router_ServeHTTP_def Let_def split: prod.splits)
  then obtain w2 r2 ms2 ms3 o1 s1 where
    run: "Timeout (ro_timeout env) thirty_seconds (\<lambda>r w x. stack_serve env (serve_endpoint env) ms2 r w (snd x))
        r2 ?w1 (ms3, rt_gateway rt) = (w2, s1, o1)"
    and rec: "o1 = Panicked \<Longrightarrow> reply_error ''internal server error'' 500 w2 () = (w', (), out)"
      "o1 = Returned \<Longrightarrow> w' = w2 \<and> out = Returned"
    unfolding st by (elim stack_RequestID stack_Recovery stack_Timeout) blast
  have fresh: "fresh ?w1" using assms(2) by (simp add: fresh_set_header)
  have id: "Get (bw_header (w_base ?w1)) ''X-Request-ID'' = ro_uuid env"
    by (simp add: w_set_header_def header_simps)
  from Timeout_answers [OF fresh run] show ?thesis
  proof (elim disjE conjE)
    assume "o1 = Panicked" "ro_timeout env = InTime" "fresh w2"
    then show ?thesis
      using reply_fresh [OF _ _ _ rec(1)] by (auto simp: informational_def)
  next
    assume "o1 = Returned" and "\<exists>code hd. bw_sent (w_base w2) = Some (code, hd) \<and>
      (ro_timeout env \<noteq> InTime \<longrightarrow> code = 503 \<and> hd = bw_header (w_base ?w1))"
    then show ?thesis using rec(2) id by auto
  qed
qed

section \<open>Preflight requests\<close>

definition cors_headers :: "header \<Rightarrow> header" where
  "cors_headers h = Set ''Access-Control-Allow-Methods'' ''GET, POST, PUT, DELETE, OPTIONS''
     (Set ''Access-Control-Allow-Headers'' ''*'' (Set ''Access-Control-Allow-Origin'' ''*'' h))"

text \<open>The stack from the logging layer on, for an \<^verbatim>\<open>OPTIONS\<close> request.\<close>

lemma preflight_inner:
  assumes "Method r = ''OPTIONS''"
    and "stack_serve env h (MW_Logging es # MW_RateLimit store # MW_CORS # ms) r (timeoutWriter False) s
           = (w', (ms', s'), out)"
  shows "s' = s \<and> out = Returned \<and>
         (if fst (allow_ip (pe_limiter (ro_plugins env)) (pe_now (ro_plugins env)) (clientIP r) store)
          then bw_sent (w_base w') = Some (204, cors_headers []) \<and> bw_header (w_base w') = cors_headers []
          else fst (the (bw_sent (w_base w'))) = 429 \<and> bw_sent (w_base w') \<noteq> None)"
  using assms
  by (auto simp: Logging_def IPRateLimit_def CORS_def reply_error_def http_Error_def push_layer_def
      pop_layer_def timeoutWriter_def w_WriteHeader_def w_WriteHeader_panics_def w_Write_def w_set_header_def base_WriteHeader_def
      base_Write_def keep_mw_def cors_headers_def Let_def split: prod.splits if_splits)

lemma preflight_state:
  assumes "Method r = ''OPTIONS''"
    and "stack_serve env h (MW_Logging es # MW_RateLimit store # MW_CORS # ms) r w s = (w', (ms', s'), out)"
  shows "s' = s"
  using assms
  by (auto simp: Logging_def IPRateLimit_def CORS_def reply_error_def keep_mw_def Let_def
      split: prod.splits if_splits outcome.splits option.splits layer.splits)

lemma clientIP_request_id:
  "clientIP (r\<lparr>ReqHeader := Set ''X-Request-ID'' v (ReqHeader r), ReqCtx := c\<rparr>) = clientIP r"
proof -
  have "CanonicalHeaderKey ''X-Forwarded-For'' \<noteq> CanonicalHeaderKey ''X-Request-ID''" by code_simp
  then show ?thesis by (simp add: clientIP_def header_simps Let_def split: option.split)
qed

lemma preflight_timed_state:
  assumes "Method r = ''OPTIONS''"
    and "stack_serve env (serve_endpoint env) (MW_Timeout d # MW_Logging es # MW_RateLimit store # MW_CORS # ms)
           r w g = (w', (ms', g'), out)"
  shows "g' = g"
proof -
  let ?r = "r\<lparr>ReqCtx := WithTimeout (ReqCtx r) d\<rparr>"
  obtain tw msi gi oi where inner: "stack_serve env (serve_endpoint env)
      (MW_Logging es # MW_RateLimit store # MW_CORS # ms) ?r (timeoutWriter (ro_timeout env \<noteq> InTime)) g
      = (tw, (msi, gi), oi)"
    using prod_cases4 by (metis prod.collapse)
  have "Method ?r = ''OPTIONS''" using assms(1) by simp
  from preflight_state [OF this inner] show ?thesis
    using assms(2) inner
    by (auto simp: keep_mw_def Timeout_def Let_def split: prod.splits if_splits timeout_event.splits)
qed

lemma preflight_timed_answer:
  assumes "Method r = ''OPTIONS''" and "fresh w" and "ro_timeout env = InTime"
    and top: "stack_serve env (serve_endpoint env)
           (MW_Timeout d # MW_Logging es # MW_RateLimit store # MW_CORS # ms) r w g = (w', (ms', g'), out)"
  shows "out = Returned \<and> (\<exists>h. bw_sent (w_base w') = Some (if fst (allow_ip (pe_limiter (ro_plugins env))
           (pe_now (ro_plugins env)) (clientIP r) store) then 204 else 429, h))"
proof -
  let ?r = "r\<lparr>ReqCtx := WithTimeout (ReqCtx r) d\<rparr>"
  let ?ms = "MW_Logging es # MW_RateLimit store # MW_CORS # ms"
  let ?inner = "\<lambda>r w x. stack_serve env (serve_endpoint env) ?ms r w (snd x)"
  let ?code = "if fst (allow_ip (pe_limiter (ro_plugins env)) (pe_now (ro_plugins env)) (clientIP r) store)
               then 204 else 429 :: int"
  obtain tw msi gi oi where inner: "stack_serve env (serve_endpoint env) ?ms ?r (timeoutWriter False) g
      = (tw, (msi, gi), oi)"
    using prod_cases4 by (metis prod.collapse)
  have m: "Method ?r = ''OPTIONS''" and ip: "clientIP ?r = clientIP r"
    using assms(1) by (simp_all add: clientIP_def Let_def split: option.split)
  note pre = preflight_inner [OF m inner, unfolded ip]
  obtain hs where sent: "bw_sent (w_base tw) = Some (?code, hs)"
    using pre by (cases "bw_sent (w_base tw)") (auto split: if_splits)
  have "?inner ?r (timeoutWriter False) (?ms, g) = (tw, (msi, gi), Returned)" using inner pre by simp
  moreover have "\<not> informational ?code" "\<not> invalid_code ?code" by (simp_all add: informational_def)
  ultimately obtain w3 h where "Timeout InTime d ?inner r w (?ms, g) = (w3, (msi, gi), Returned)"
    and "bw_sent (w_base w3) = Some (?code, h)"
    using Timeout_in_time [where h = ?inner and r = r and d = d] assms(2) sent by blast
  moreover obtain s1 where "Timeout InTime d ?inner r w (?ms, g) = (w', s1, out)"
    using stack_Timeout [OF top] assms(3) by auto
  ultimately show ?thesis by auto
qed

text \<open>
  C32. Preflight requests stay in the gateway. An \<^verbatim>\<open>OPTIONS\<close> request never reaches an endpoint, so
  neither a route, nor an upstream, nor a plugin of a route sees it; served in time, it gets
  204 if the limiter of its address admits it, and 429 otherwise.
\<close>

theorem preflight_stays_local:
  assumes "router_reach url_Parse cfg rt" and "fresh w" and "Method r = ''OPTIONS''"
    and "Router_ServeHTTP env r w rt = (w', rt', out)"
  shows "rt_gateway rt' = rt_gateway rt \<and>
         (ro_timeout env = InTime \<longrightarrow>
            (\<exists>store h. rt_stack rt ! 4 = MW_RateLimit store \<and>
               bw_sent (w_base w') = Some (if fst (allow_ip (pe_limiter (ro_plugins env))
                 (pe_now (ro_plugins env)) (clientIP r) store) then 204 else 429, h)))"
proof -
  obtain es store ms where st: "rt_stack rt = MW_RequestID # MW_Recovery # MW_Timeout thirty_seconds #
      MW_Logging es # MW_RateLimit store # MW_CORS # ms"
    using assms(1) by (rule router_reach_stack)
  let ?w1 = "w_set_header (Set ''X-Request-ID'' (ro_uuid env)) w"
  let ?r1 = "r\<lparr>ReqHeader := Set ''X-Request-ID'' (ro_uuid env) (ReqHeader r)\<rparr>"
  obtain ms' where "stack_serve env (serve_endpoint env) (rt_stack rt) r w (rt_gateway rt)
      = (w', (ms', rt_gateway rt'), out)"
    using assms(4) by (auto simp: Router_ServeHTTP_def Let_def split: prod.splits)
  then obtain w2 ms1 o1 where
    top: "stack_serve env (serve_endpoint env) (MW_Timeout thirty_seconds # MW_Logging es #
        MW_RateLimit store # MW_CORS # ms) ?r1 ?w1 (rt_gateway rt) = (w2, (ms1, rt_gateway rt'), o1)"
    and rec: "o1 = Returned \<Longrightarrow> w' = w2 \<and> out = Returned"
    unfolding st by (elim stack_RequestID stack_Recovery) blast
  have m: "Method ?r1 = ''OPTIONS''" and w: "fresh ?w1" and ip: "clientIP ?r1 = clientIP r"
    using assms(2,3) clientIP_request_id [where r = r and v = "ro_uuid env" and c = "ReqCtx r"]
    by (simp_all add: fresh_set_header)
  note answer = preflight_timed_answer [OF m w _ top, unfolded ip]
  show ?thesis using preflight_timed_state [OF m top] answer rec st by auto
qed

section \<open>Upgrade requests through the stack\<close>

lemma endpoint_env_ws:
  fixes env :: "'l router_env" and io :: ws_io
  defines "env' \<equiv> env\<lparr>ro_engine := (ro_engine env)\<lparr>env_ws := io\<rparr>\<rparr>"
  shows "agree_unhijackable (serve_endpoint env') (serve_endpoint env)"
  by (simp add: agree_unhijackable_def serve_endpoint_def env'_def Gateway_env_ws split: endpoint.split)

lemma mw_serve_env_engine: "mw_serve (env\<lparr>ro_engine := x\<rparr>) h m r w s = mw_serve env h m r w s"
  by (cases m) simp_all

lemma stack_serve_env_engine:
  "stack_serve (env\<lparr>ro_engine := x\<rparr>) h ms r w s = stack_serve env h ms r w s"
proof (induction ms arbitrary: r w s)
  case (Cons m ms)
  then have "stack_serve (env\<lparr>ro_engine := x\<rparr>) h ms = stack_serve env h ms" by (intro ext)
  then show ?case by (simp add: mw_serve_env_engine)
qed simp

text \<open>
  C40. No WebSocket upgrade gets through the stack. What a dial, a handshake, the upstream's reply or
  a relay would do has no influence on what the router does with any request, upgrade
  requests included: the timeout layer hands every handler a writer that cannot be hijacked,
  so the tunnel gives up before it opens a connection.
\<close>

theorem upgrade_never_attempted:
  assumes "router_reach url_Parse cfg rt"
  shows "Router_ServeHTTP (env\<lparr>ro_engine := (ro_engine env)\<lparr>env_ws := io\<rparr>\<rparr>) r w rt
         = Router_ServeHTTP env r w rt"
proof -
  let ?env' = "env\<lparr>ro_engine := (ro_engine env)\<lparr>env_ws := io\<rparr>\<rparr>"
  obtain es store ms where st: "rt_stack rt = MW_RequestID # MW_Recovery # MW_Timeout thirty_seconds #
      MW_Logging es # MW_RateLimit store # MW_CORS # ms"
    using assms by (rule router_reach_stack)
  let ?ms = "MW_Logging es # MW_RateLimit store # MW_CORS # ms"
  have inner: "stack_serve env (serve_endpoint ?env') ?ms r1 (timeoutWriter l) g =
      stack_serve env (serve_endpoint env) ?ms r1 (timeoutWriter l) g" for r1 l g
    by (rule stack.serve_agree [OF endpoint_env_ws]) simp
  have "stack_serve env (serve_endpoint ?env') (rt_stack rt) r w g =
      stack_serve env (serve_endpoint env) (rt_stack rt) r w g" for g
    unfolding st
    by (simp add: RequestID_def Recovery_def Timeout_def Let_def inner del: stack_serve.simps(2)
        add: stack_serve.simps(2) [of _ _ MW_RequestID] stack_serve.simps(2) [of _ _ MW_Recovery]
          stack_serve.simps(2) [of _ _ "MW_Timeout thirty_seconds"])
  then show ?thesis by (simp add: Router_ServeHTTP_def stack_serve_env_engine)
qed

section \<open>Sample runs\<close>

definition router_config :: Config where
  "router_config = (sample_config [])\<lparr>cfg_Rate := \<lparr>rate_RequestsPerSecond = 5, rate_Burst = 5\<rparr>\<rparr>"

definition sample_router :: "int Router" where
  "sample_router = Router_New sample_parse router_config"

definition sample_router_env :: "timeout_event \<Rightarrow> (go_error + Response) list \<Rightarrow> int router_env" where
  "sample_router_env ev outs =
     \<lparr>ro_uuid = ''7f3a'', ro_timeout = ev,
      ro_codec = \<lparr>cd_head = [], cd_rest = (\<lambda>d. d)\<rparr>, ro_plugins = sample_penv,
      ro_chi = (\<lambda>method path. if path = ''/health'' \<and> method = ''GET'' then HealthEndpoint
                 else if path = ''/metrics'' then MetricsEndpoint else GatewayEndpoint),
      ro_unrouted = (\<lambda>r w. (w_WriteHeader 405 w, Returned)),
      ro_promhttp = (\<lambda>m r w. (w, Returned)), ro_engine = sample_env outs\<rparr>"

lemma sample_reach: "router_reach sample_parse router_config sample_router"
  unfolding sample_router_def by (rule start)

lemma fresh_sample: "fresh (sample_writer [])"
  by (simp add: fresh_def sample_writer_def sample_base_def)

lemma router_stack_fixed_instance:
  "length (rt_stack (fst (snd (Router_ServeHTTP (sample_router_env InTime [Inr (sample_response 200)])
     (sample_request ''GET'' []) (sample_writer []) sample_router)))) = 6"
proof -
  let ?run = "Router_ServeHTTP (sample_router_env InTime [Inr (sample_response 200)])
     (sample_request ''GET'' []) (sample_writer []) sample_router"
  have "?run = (fst ?run, fst (snd ?run), snd (snd ?run))" by simp
  from arg_cong [where f = length, OF router_stack_fixed [OF serve [OF sample_reach this]]]
  show ?thesis by (simp add: router_config_def sample_config_def zero_Config_def)
qed

theorem router_always_answers_witness:
  "map_option fst (bw_sent (w_base (fst (Router_ServeHTTP
     (sample_router_env DeadlineExceeded [Inr (sample_response 200)]) (sample_request ''GET'' [])
     (sample_writer []) sample_router)))) = Some 503"
proof -
  let ?env = "sample_router_env DeadlineExceeded [Inr (sample_response 200)]"
  let ?run = "Router_ServeHTTP ?env (sample_request ''GET'' []) (sample_writer []) sample_router"
  have "?run = (fst ?run, fst (snd ?run), snd (snd ?run))" by simp
  from router_always_answers [OF sample_reach fresh_sample this]
  show ?thesis by (auto simp: sample_router_env_def)
qed

theorem preflight_stays_local_witness:
  "rt_gateway (fst (snd (Router_ServeHTTP (sample_router_env InTime []) (sample_request ''OPTIONS'' [])
     (sample_writer []) sample_router))) = rt_gateway sample_router \<and>
   map_option fst (bw_sent (w_base (fst (Router_ServeHTTP (sample_router_env InTime [])
     (sample_request ''OPTIONS'' []) (sample_writer []) sample_router)))) = Some 204"
proof -
  let ?env = "sample_router_env InTime []"
  let ?run = "Router_ServeHTTP ?env (sample_request ''OPTIONS'' []) (sample_writer []) sample_router"
  have m: "Method (sample_request ''OPTIONS'' []) = ''OPTIONS''" by (simp add: sample_request_def)
  have "?run = (fst ?run, fst (snd ?run), snd (snd ?run))" by simp
  note pre = preflight_stays_local [OF sample_reach fresh_sample m this]
  have "rt_stack sample_router ! 4 = MW_RateLimit (newIPStore 5 5)"
    by (simp add: sample_router_def Router_New_stack config_stack_def RateLimit_of_def router_config_def)
  moreover have "fst (allow_ip (pe_limiter (ro_plugins ?env)) (pe_now (ro_plugins ?env)) ip (newIPStore 5 5))" for ip
    by (simp add: allow_ip_def ipStore_get_def newIPStore_def sample_router_env_def sample_penv_def)
  moreover have "ro_timeout ?env = InTime" by (simp add: sample_router_env_def)
  ultimately show ?thesis using pre by auto
qed

text \<open>An upgrade request that cannot be hijacked ends as an empty 200 and a failure of the upstream.\<close>

theorem upgrade_never_attempted_witness:
  "let run = (\<lambda>env. Router_ServeHTTP env
        (sample_request ''GET'' [(''Connection'', [''Upgrade'']), (''Upgrade'', [''websocket''])])
        (sample_writer []) sample_router);
       env = sample_router_env InTime [] in
   run (env\<lparr>ro_engine := (ro_engine env)\<lparr>env_ws := (env_ws (ro_engine env))\<lparr>io_reply := False\<rparr>\<rparr>\<rparr>) = run env \<and>
   map_option fst (bw_sent (w_base (fst (run env)))) = Some 200"
proof -
  have "map_option fst (bw_sent (w_base (fst (Router_ServeHTTP (sample_router_env InTime [])
      (sample_request ''GET'' [(''Connection'', [''Upgrade'']), (''Upgrade'', [''websocket''])])
      (sample_writer []) sample_router)))) = Some 200"
    by code_simp
  then show ?thesis using upgrade_never_attempted [OF sample_reach] by (simp add: Let_def)
qed

end
