(* ===== verification/Admin_Props.thy ===== *)
theory Admin_Props
  imports Admin Router_Props
begin

text \<open>
  Properties of the admin API: what the route snapshot shows over whole runs of the gateway,
  what a reload does, and what the upstream listing shows.
\<close>

section \<open>The snapshot follows the configuration\<close>

definition config_snapshot :: "Config \<Rightarrow> RouteSnapshot list" where
  "config_snapshot cfg =
     map (\<lambda>route. \<lparr>rs_Name = rc_Name route, rs_PathPrefix = rc_PathPrefix route, rs_Host = rc_Host route,
                   rs_Plugins = map pc_Name (filter pc_Enabled (rc_Plugins route)), rs_Upstreams = []\<rparr>)
       (px_Routes (cfg_Proxy cfg))"

text \<open>The configuration in force after some events.\<close>

fun current_config :: "'l gw_event list \<Rightarrow> Config \<Rightarrow> Config" where
  "current_config [] cfg = cfg"
| "current_config (GwRequest _ _ _ _ # evs) cfg = current_config evs cfg"
| "current_config (GwReload cfg' # evs) cfg = current_config evs cfg'"

lemma Routes_buildRoutes:
  "gw_routes g = buildRoutes url_Parse reg m cfg \<Longrightarrow> Gateway_Routes g = config_snapshot cfg"
  by (simp add: Gateway_Routes_def buildRoutes_def buildRoute_def config_snapshot_def enabledPluginNames_def)

lemma route_serve_frame:
  "route_serve penv env m route r w = (w', (route', m'), out) \<Longrightarrow>
   re_name route' = re_name route \<and> re_pathPrefix route' = re_pathPrefix route \<and>
   re_host route' = re_host route \<and> re_pluginNames route' = re_pluginNames route"
  by (auto simp: route_serve_def split: prod.splits)

lemma match_in_range: "Gateway_match entries r = Some i \<Longrightarrow> i < length entries"
  using match_loop_spec [of "ReqHost r" "url_Path (ReqURL r)" "route_keys entries" 0 None "- 1"]
  by (auto simp: Gateway_match_def first_best_def route_keys_def)

lemma Gateway_Routes_serve:
  assumes "Gateway_ServeHTTP penv env r w g = (w', g', out)"
  shows "Gateway_Routes g' = Gateway_Routes g"
proof (cases "Gateway_match (gw_routes g) r")
  case None
  then have "g' = g" using assms by (auto simp: Gateway_ServeHTTP_def dest: reply_error_state)
  then show ?thesis by simp
next
  case (Some i)
  then obtain route m where run: "route_serve penv env (gw_metrics g) (gw_routes g ! i) r w = (w', (route, m), out)"
    and g': "gw_routes g' = (gw_routes g)[i := route]"
    using assms by (auto simp: Gateway_ServeHTTP_def Let_def split: prod.splits)
  let ?snap = "\<lambda>e. \<lparr>rs_Name = re_name e, rs_PathPrefix = re_pathPrefix e, rs_Host = re_host e,
                  rs_Plugins = re_pluginNames e, rs_Upstreams = []\<rparr>"
  have "?snap route = ?snap (gw_routes g ! i)" using route_serve_frame [OF run] by simp
  then have "map ?snap ((gw_routes g)[i := route]) = map ?snap (gw_routes g)"
    using match_in_range [OF Some] by (simp add: map_update list_update_same_conv)
  then show ?thesis by (simp add: Gateway_Routes_def g')
qed

lemma run_snapshot:
  "Gateway_Routes g = config_snapshot cfg \<Longrightarrow>
   Gateway_Routes (fst (gw_run url_Parse evs g)) = config_snapshot (current_config evs cfg)"
proof (induction evs cfg arbitrary: g rule: current_config.induct)
  case (2 penv env r w evs cfg)
  obtain w' g1 out where "Gateway_ServeHTTP penv env r w g = (w', g1, out)" using prod_cases3 by blast
  with 2 Gateway_Routes_serve [OF this] show ?case by (simp add: case_prod_beta)
next
  case (3 cfg' evs cfg)
  have "Gateway_Routes (Gateway_Reload url_Parse cfg' g) = config_snapshot cfg'"
    by (rule Routes_buildRoutes) (simp add: Gateway_Reload_def)
  with 3(1) show ?case by (simp add: case_prod_beta)
qed simp

text \<open>
  C30. The admin snapshot always shows the configuration in force. After any sequence of requests,
  however they end, and reloads, the snapshot lists the routes of the last configuration
  loaded, in order, with their names, prefixes, hosts and enabled plugins: requests never
  change the route table, and a reload replaces it as a whole.
\<close>

theorem snapshot_tracks_config:
  "Gateway_Routes (fst (gw_run url_Parse evs (Gateway_New url_Parse cfg reg)))
   = config_snapshot (current_config evs cfg)"
  by (rule run_snapshot, rule Routes_buildRoutes) (simp add: Gateway_New_def Let_def)

section \<open>Handlers\<close>

lemma bare_Write_body:
  assumes "fresh w" and "\<not> bw_broken (w_base w)" and "w_Write bs w = (w', res)"
  shows "res = Wrote (length bs) \<and> bw_sent (w_base w') = Some (200, bw_header (w_base w)) \<and>
         bw_body (w_base w') = bw_body (w_base w) @ bs"
  using assms
  by (auto simp: fresh_def w_Write_def base_Write_def base_WriteHeader_def informational_def
      bodyAllowed_def Let_def split: prod.splits if_splits option.splits)

lemma writeJSON_fresh:
  assumes "fresh w" and "\<not> bw_broken (w_base w)" and "writeJSON v w s = (w', s', out)"
  shows "out = Returned \<and> s' = s \<and> (\<exists>h. bw_sent (w_base w') = Some (200, h)) \<and>
         bw_body (w_base w') = bw_body (w_base w) @ json_print 0 v @ [CHR 0x0A]"
proof -
  let ?w1 = "w_set_header (Set ''Content-Type'' ''application/json'') w"
  obtain w2 res where w2: "w_Write (json_print 0 v @ [CHR 0x0A]) ?w1 = (w2, res)" by fastforce
  have "fresh ?w1" "\<not> bw_broken (w_base ?w1)" "bw_body (w_base ?w1) = bw_body (w_base w)"
    using assms(1,2) by (simp_all add: fresh_set_header) (simp_all add: w_set_header_def)
  with bare_Write_body [OF _ _ w2] assms(3) w2 show ?thesis by (auto simp: writeJSON_def Let_def)
qed

text \<open>
  C31. A reload by the admin API is all or nothing. If the configuration cannot be read, the client
  gets 500 and neither the gateway nor the stored configuration changes; otherwise the whole
  route table is the one built from the new configuration, with the registries of plugins and
  metrics kept, the stored configuration is the new one, and the client gets 200.
\<close>

theorem admin_reload_all_or_nothing:
  assumes "fresh w" and "\<not> bw_broken (w_base w)" and "handleReload env r w s = (w', s', out)"
  shows "out = Returned \<and>
    (case Config_Reload (ad_load env) of
       Inl err \<Rightarrow> s' = s \<and> map_option fst (bw_sent (w_base w')) = Some 500
     | Inr cfg \<Rightarrow> srv_cfg s' = cfg \<and> map_option fst (bw_sent (w_base w')) = Some 200 \<and>
         gw_routes (srv_gw s') =
           buildRoutes (ad_url_Parse env) (gw_pluginReg (srv_gw s)) (gw_metrics (srv_gw s)) cfg \<and>
         gw_pluginReg (srv_gw s') = gw_pluginReg (srv_gw s) \<and> gw_metrics (srv_gw s') = gw_metrics (srv_gw s))"
proof (cases "Config_Reload (ad_load env)")
  case (Inl err)
  with assms(3) have "reply_error (''config reload failed: '' @ ad_error_text env err) 500 w s = (w', s', out)"
    by (simp add: handleReload_def)
  from reply_fresh [OF assms(1) _ _ this] show ?thesis by (auto simp: Inl informational_def)
next
  case (Inr cfg)
  let ?s1 = "s\<lparr>srv_gw := Gateway_Reload (ad_url_Parse env) cfg (srv_gw s), srv_cfg := cfg\<rparr>"
  have "writeJSON (JObj [(''status'', JStr ''reloaded'')]) w ?s1 = (w', s', out)"
    using assms(3) by (simp add: handleReload_def Inr Let_def)
  from writeJSON_fresh [OF assms(1,2) this] show ?thesis by (auto simp: Inr Gateway_Reload_def)
qed

definition sample_admin_env :: "Config option \<Rightarrow> admin_env" where
  "sample_admin_env loaded =
     \<lparr>ad_chi = (\<lambda>_ _. AdminReload), ad_unrouted = (\<lambda>r w. (w, Returned)),
      ad_load = \<lparr>le_ReadFile = (\<lambda>_. None), le_ReadInConfig = True, le_Unmarshal = loaded,
                 le_ParseFloat = (\<lambda>_. None)\<rparr>,
      ad_error_text = (\<lambda>_. ''invalid''), ad_url_Parse = sample_parse\<rparr>"

definition sample_server :: "int Server" where
  "sample_server = fst (Admin_New zero_Config (Gateway_New sample_parse zero_Config Registry_Default))"

theorem admin_reload_all_or_nothing_witness:
  "length (gw_routes (srv_gw (fst (snd (handleReload (sample_admin_env (Some (sample_config [])))
     (sample_request ''POST'' []) (sample_writer []) sample_server))))) = 1 \<and>
   fst (snd (handleReload (sample_admin_env None) (sample_request ''POST'' []) (sample_writer []) sample_server))
     = sample_server"
proof -
  let ?run = "\<lambda>l. handleReload (sample_admin_env l) (sample_request ''POST'' []) (sample_writer []) sample_server"
  have run: "?run l = (fst (?run l), fst (snd (?run l)), snd (snd (?run l)))" for l by simp
  have ok: "\<not> bw_broken (w_base (sample_writer []))" by (simp add: sample_writer_def sample_base_def)
  note reload = admin_reload_all_or_nothing [OF fresh_sample ok run]
  have "Config_Reload (ad_load (sample_admin_env (Some (sample_config [])))) = Inr (applyDefaults (sample_config []))"
    and "Config_Reload (ad_load (sample_admin_env None)) = Inl UnmarshalError"
    by (simp_all add: Config_Reload_def sample_admin_env_def)
  then show ?thesis
    using reload [of "Some (sample_config [])"] reload [of None]
    by (simp add: buildRoutes_def applyDefaults_def sample_config_def)
qed

text \<open>
  The upstream listing is always empty. Whatever requests the gateway has served and whatever
  configurations it has loaded, \<open>handleUpstreams\<close> writes the JSON value null, because the
  snapshot of a route never has its upstreams filled in.
\<close>

lemma upstream_listing_empty:
  "handleUpstreams r w s = writeJSON JNull w s"
  by (simp add: handleUpstreams_def Gateway_Routes_def comp_def)

end
