(* ===== verification/System.thy ===== *)
theory System
  imports Admin_Props
begin

text \<open>
  The running server: the handler of the router, the admin API over the gateway the router
  returned, and the health checks of the upstreams. The upstreams answer with valid status codes. The function that starts these parts is not
  in the repository; they are put together as \<^verbatim>\<open>router.New\<close> and \<^verbatim>\<open>admin.New\<close> ask for. The steps
  follow each other in any order; a step of the router serves one request completely.
\<close>

section \<open>The steps\<close>

record 'l System =
  sys_router :: "'l Router"
  sys_cfg :: Config

definition System_start :: "(string \<Rightarrow> URL option) \<Rightarrow> Config \<Rightarrow> 'l System" where
  "System_start url_Parse cfg = \<lparr>sys_router = Router_New url_Parse cfg, sys_cfg = cfg\<rparr>"

definition admin_server :: "'l System \<Rightarrow> 'l Server" where
  "admin_server s = \<lparr>srv_gw = rt_gateway (sys_router s), srv_cfg = sys_cfg s\<rparr>"

text \<open>A health check of upstream \<open>i\<close> of route \<open>k\<close> stores its verdict.\<close>

definition check_route ::
  "(URL \<Rightarrow> string) \<Rightarrow> (string \<Rightarrow> int option) \<Rightarrow> string \<Rightarrow> nat \<Rightarrow> nat \<Rightarrow> 'l Gateway \<Rightarrow> 'l Gateway" where
  "check_route url_String client_Get path k i g =
     g\<lparr>gw_routes := at_slot k (\<lambda>route. route\<lparr>re_engine :=
         (re_engine route)\<lparr>eng_lb := Balancer_apply i (check url_String client_Get path)
                              (eng_lb (re_engine route))\<rparr>\<rparr>) (gw_routes g)\<rparr>"

text \<open>The configurations the admin API loads satisfy \<open>ok\<close>.\<close>

inductive sys_step :: "(string \<Rightarrow> URL option) \<Rightarrow> (Config \<Rightarrow> bool) \<Rightarrow> 'l System \<Rightarrow> 'l System \<Rightarrow> bool"
  for url_Parse ok where
  request:
    "w_layers w = [] \<Longrightarrow> valid_answers (ro_engine env) \<Longrightarrow> Router_ServeHTTP env r w (sys_router s) = (w', rt', out) \<Longrightarrow>
     sys_step url_Parse ok s (s\<lparr>sys_router := rt'\<rparr>)"
| admin:
    "ad_url_Parse env = url_Parse \<Longrightarrow> (\<And>c. Config_Reload (ad_load env) = Inr c \<Longrightarrow> ok c) \<Longrightarrow>
     Admin_ServeHTTP env r w (admin_server s) = (w', srv, out) \<Longrightarrow>
     sys_step url_Parse ok s
       \<lparr>sys_router = (sys_router s)\<lparr>rt_gateway := srv_gw srv\<rparr>, sys_cfg = srv_cfg srv\<rparr>"
| health:
    "sys_step url_Parse ok s (s\<lparr>sys_router := (sys_router s)\<lparr>rt_gateway :=
       check_route url_String client_Get path k i (rt_gateway (sys_router s))\<rparr>\<rparr>)"

inductive_cases sys_stepE: "sys_step url_Parse ok s t"

section \<open>Conservation of connections\<close>

lemma route_serve_plain:
  assumes "route_idle route" and "plain w" and "route_serve penv env m route r w = (w', (route', m'), out)"
    and "valid_answers env"
  shows "route_idle route'"
proof -
  let ?e = "(re_engine route)\<lparr>eng_metrics := m\<rparr>"
  obtain ps e' where run: "chain_serve penv (engine_handler env) (re_plugins route) r w ?e
      = (w', (ps, e'), out)" and e': "re_engine route' = e'"
    using assms(3) by (auto simp: route_serve_def split: prod.splits)
  have "list_all (\<lambda>_. True) (re_plugins route)" by (simp add: list_all_iff)
  from chain_plain.serve_on [OF this assms(2) run] consider "e' = ?e"
    | r1 w1 w2 o1 where "plain w1" "Engine_ServeHTTP env r1 ?e w1 = (w2, e', o1)"
    by (auto simp: engine_handler_def)
  then show ?thesis
  proof cases
    case 1
    then show ?thesis using assms(1) e' by (simp add: route_idle_def)
  next
    case (2 r1 w1 w2 o1)
    then have "Engine_ServeHTTP env r1 ?e w1 = (w2, e', Returned)"
      using plain_engine_returns [OF 2(1) assms(4) 2(2)] by simp
    then show ?thesis using assms(1) e' engine_serve_idle [of env _ ?e] by (auto simp: route_idle_def)
  qed
qed

lemma gateway_serve_plain:
  assumes "gw_idle g" and "plain w" and "Gateway_ServeHTTP penv env r w g = (w', g', out)"
    and "valid_answers env"
  shows "gw_idle g'"
proof (cases "Gateway_match (gw_routes g) r")
  case None
  then have "g' = g" using assms(3) by (auto simp: Gateway_ServeHTTP_def dest: reply_error_state)
  then show ?thesis using assms(1) by simp
next
  case (Some i)
  then obtain route m where run: "route_serve penv env (gw_metrics g) (gw_routes g ! i) r w = (w', (route, m), out)"
    and g': "gw_routes g' = (gw_routes g)[i := route]"
    using assms(3) by (auto simp: Gateway_ServeHTTP_def Let_def split: prod.splits)
  have i: "i < length (gw_routes g)" using Some by (rule match_in_range)
  then have "route_idle route"
    using route_serve_plain [OF _ assms(2) run assms(4)] assms(1) by (simp add: gw_idle_def list_all_length)
  then show ?thesis using assms(1) i g' by (auto simp: gw_idle_def list_all_length nth_list_update)
qed

lemma endpoint_plain:
  assumes "gw_idle g" and "plain w" and "serve_endpoint env r w g = (w', g', out)"
    and "valid_answers (ro_engine env)"
  shows "gw_idle g'"
  using assms gateway_serve_plain [of g w]
  by (auto simp: serve_endpoint_def health_Handler_def Let_def split: endpoint.splits prod.splits)

definition sys_inv :: "'l System \<Rightarrow> bool" where
  "sys_inv s \<longleftrightarrow> gw_idle (rt_gateway (sys_router s)) \<and> list_all not_gzip_mw (rt_stack (sys_router s))"

lemma shape_not_gzip:
  "map mw_shape ms' = map mw_shape ms \<Longrightarrow> list_all not_gzip_mw ms' = list_all not_gzip_mw ms"
  by (metis (no_types, lifting) list.pred_map list_all_cong not_gzip_shape comp_apply)

lemma router_step_inv:
  assumes "sys_inv s" and "w_layers w = []" and "Router_ServeHTTP env r w (sys_router s) = (w', rt', out)"
    and "valid_answers (ro_engine env)"
  shows "sys_inv (s\<lparr>sys_router := rt'\<rparr>)"
proof -
  let ?rt = "sys_router s"
  obtain ms g where run: "stack_serve env (serve_endpoint env) (rt_stack ?rt) r w (rt_gateway ?rt)
      = (w', (ms, g), out)" and rt': "rt_stack rt' = ms" "rt_gateway rt' = g"
    using assms(3) by (auto simp: Router_ServeHTTP_def Let_def split: prod.splits)
  have ms: "list_all not_gzip_mw (rt_stack ?rt)" and idle: "gw_idle (rt_gateway ?rt)"
    using assms(1) by (simp_all add: sys_inv_def)
  have "plain w" using assms(2) by (simp add: plain_def)
  from stack_plain.serve_on [OF ms this run] idle endpoint_plain assms(4) have "gw_idle g" by blast
  moreover have "list_all not_gzip_mw ms" using shape_not_gzip [OF stack.serve_shape [OF run]] ms by simp
  ultimately show ?thesis by (simp add: sys_inv_def rt')
qed

lemma admin_keeps_gateway:
  assumes "Admin_ServeHTTP env r w s = (w', s', out)"
  shows "srv_gw s' = srv_gw s \<or>
         (\<exists>c. Config_Reload (ad_load env) = Inr c \<and> srv_gw s' = Gateway_Reload (ad_url_Parse env) c (srv_gw s))"
proof -
  have json: "writeJSON v w x = (w1, x1, o1) \<Longrightarrow> x1 = x" for v x x1 w1 o1
    by (auto simp: writeJSON_def Let_def split: prod.splits write_result.splits dest: reply_error_state)
  show ?thesis
    using assms
    by (auto simp: Admin_ServeHTTP_def handleRoutes_def handleRoute_def handleUpstreams_def
        handleReload_def handleHealth_def Let_def
        split: admin_endpoint.splits option.splits sum.splits prod.splits
        dest!: json reply_error_state)
qed

lemma check_route_idle: "gw_idle g \<Longrightarrow> gw_idle (check_route url_String client_Get path k i g)"
proof -
  have "ActiveConns (check url_String client_Get path u) = ActiveConns u" for u
    by (simp add: check_def Let_def split: option.split)
  then show "gw_idle g \<Longrightarrow> ?thesis"
    unfolding gw_idle_def check_route_def
    by (auto simp: route_idle_def lb_conns_apply intro!: list_all_at_slot)
qed

lemma sys_step_inv: "sys_step url_Parse nonneg_retries s t \<Longrightarrow> sys_inv s \<Longrightarrow> sys_inv t"
proof (erule sys_stepE)
  fix w env r w' rt' out
  assume "sys_inv s" "w_layers w = []" "valid_answers (ro_engine env)" "Router_ServeHTTP env r w (sys_router s) = (w', rt', out)"
    "t = s\<lparr>sys_router := rt'\<rparr>"
  then show ?thesis using router_step_inv by blast
next
  fix env r w w' srv out
  assume inv: "sys_inv s" and ok: "\<And>c. Config_Reload (ad_load env) = Inr c \<Longrightarrow> nonneg_retries c"
    and run: "Admin_ServeHTTP env r w (admin_server s) = (w', srv, out)"
    and t: "t = \<lparr>sys_router = (sys_router s)\<lparr>rt_gateway := srv_gw srv\<rparr>, sys_cfg = srv_cfg srv\<rparr>"
  have "gw_idle (srv_gw srv)"
    using admin_keeps_gateway [OF run] inv ok buildRoutes_idle
    by (auto simp: admin_server_def sys_inv_def gw_idle_def Gateway_Reload_def)
  then show ?thesis using inv by (simp add: t sys_inv_def)
next
  fix url_String client_Get path k i
  assume "sys_inv s" and "t = s\<lparr>sys_router := (sys_router s)\<lparr>rt_gateway :=
      check_route url_String client_Get path k i (rt_gateway (sys_router s))\<rparr>\<rparr>"
  then show ?thesis by (simp add: sys_inv_def check_route_idle)
qed

lemma sys_start_inv:
  assumes "nonneg_retries cfg" and "\<not> gz_Enabled (cfg_Gzip cfg)"
  shows "sys_inv (System_start url_Parse cfg)"
proof -
  have "gw_idle (rt_gateway (Router_New url_Parse cfg))"
    using buildRoutes_idle [OF assms(1)]
    by (simp add: Router_New_def gw_idle_def Gateway_New_def Let_def)
  moreover have "list_all not_gzip_mw (config_stack cfg)"
    using assms(2) by (simp add: config_stack_def RateLimit_of_def list_all_iff)
  ultimately show ?thesis by (simp add: sys_inv_def System_start_def Router_New_stack)
qed

lemma sys_reachable_inv:
  "(sys_step url_Parse nonneg_retries)\<^sup>*\<^sup>* s t \<Longrightarrow> sys_inv s \<Longrightarrow> sys_inv t"
  by (induction rule: rtranclp_induct) (auto intro: sys_step_inv)

end
