(* ===== verification/Spec2Isabelle.thy ===== *)
theory Spec2Isabelle
  imports Half_Open_Race Engine_Steps Gzip_Props Nginx_Props Shutdown System
begin

text \<open>
  A model of an HTTP gateway written in Go, and theorems about it. All paths are below
  \<^verbatim>\<open>src/internal\<close>.

  \<^bold>\<open>The program.\<close> A request enters the handler that \<^verbatim>\<open>router/router.go\<close> builds: a stack of
  middlewares (request identifier, panic recovery, timeout, logging, rate limit, CORS, gzip,
  global plugins) around a multiplexer with a health endpoint, a metrics endpoint and the
  gateway. The gateway (\<^verbatim>\<open>proxy/gateway.go\<close>) picks a route by host and path prefix and runs the
  plugin chain of the route around its engine. The engine (\<^verbatim>\<open>proxy/engine.go\<close>) asks a load
  balancer (\<^verbatim>\<open>lb\<close>) for an upstream, forwards the request, retries, relays the response or opens a
  WebSocket tunnel (\<^verbatim>\<open>proxy/tunnel.go\<close>), and tells the balancer and the upstream's circuit breaker
  (\<^verbatim>\<open>types/upstream.go\<close>) what happened. Health checks (\<^verbatim>\<open>health\<close>) take upstreams out of rotation.
  Configurations are read from YAML or translated from nginx files (\<^verbatim>\<open>config\<close>); the admin API
  (\<^verbatim>\<open>admin\<close>) and a signal (\<^verbatim>\<open>shutdown\<close>) reload them.

  \<^bold>\<open>The theories,\<close> with the files they model.

  \<^item> \<open>Prelude\<close>: collections of simplification facts, lists, slots of a pool, 64-bit arithmetic.
    \<open>Go_Strings\<close>, \<open>Http\<close>, \<open>Net_IP\<close>, \<open>Query\<close>: what the code uses of the Go library: strings, header
    maps, requests and responses, addresses and networks, URL queries. \<open>Http\<close> states what a header
    map promises as the locale \<open>header_iface\<close> and interprets it on the association lists.
  \<^item> \<open>Upstreams\<close> (\<^verbatim>\<open>types/upstream.go\<close>): the circuit breaker, one definition per method.
    \<open>Half_Open_Race\<close>: the atomic steps of \<open>TryHalfOpen\<close>, run by any number of goroutines.
  \<^item> \<open>Balancer\<close>, \<open>Balancer_Props\<close> (\<^verbatim>\<open>lb\<close>): the three balancers. What the engine may rely on is the
    locale \<open>balancer_iface\<close>, refined by \<open>cyclic_balancer\<close> for the two that rotate; both are
    interpreted on the code's definitions.
  \<^item> \<open>Proxy_Headers\<close> (\<^verbatim>\<open>proxy/headers.go\<close>, \<^verbatim>\<open>request.go\<close>, \<^verbatim>\<open>upgrade.go\<close>), \<open>Copier\<close> (\<^verbatim>\<open>proxy/copier.go\<close>),
    \<open>Retry\<close> (\<^verbatim>\<open>proxy/retry.go\<close>), \<open>Metrics\<close> (\<^verbatim>\<open>metrics\<close>), \<open>Tunnel\<close> (\<^verbatim>\<open>proxy/tunnel.go\<close>, \<^verbatim>\<open>tls.go\<close>).
  \<^item> \<open>Writer\<close> (\<^verbatim>\<open>middleware/recorder.go\<close>, \<^verbatim>\<open>gzip.go\<close>, \<^verbatim>\<open>plugin/plugins/response_transformer.go\<close>): the
    response writers as a chain of wrappers around the server's writer.
  \<^item> \<open>Engine\<close>, \<open>Engine_Props\<close>, \<open>Client_Answer\<close>, \<open>Failover\<close> (\<^verbatim>\<open>proxy/engine.go\<close>). \<open>Engine_Steps\<close>: the same handler as a sequence
    of visible actions, any number of handlers interleaved by a schedule.
  \<^item> \<open>Middleware\<close> (the other files of \<^verbatim>\<open>middleware\<close>), \<open>Gzip_Props\<close>, \<open>Rate_Limit\<close>
    (\<^verbatim>\<open>middleware/ratelimit.go\<close>). \<open>Layers\<close>: the locale \<open>layered\<close>, the contract of a list of layers
    around a handler, its extension \<open>layered_passing\<close>, and \<open>layered_on\<close> for layers that keep a
    property of the writer. \<open>Plain_Writers\<close>: chains of writers that do not compress, and the panic
    on an invalid status.
  \<^item> \<open>Plugins\<close>, \<open>Plugin_Props\<close> (\<^verbatim>\<open>plugin\<close>, \<^verbatim>\<open>pluginreg\<close>): the six plugins and chains of them; the chain
    interprets \<open>layered_passing\<close> and \<open>layered_on\<close>.
  \<^item> \<open>Gateway\<close>, \<open>Gateway_Props\<close> (\<^verbatim>\<open>proxy/builder.go\<close>, \<^verbatim>\<open>gateway.go\<close>, \<^verbatim>\<open>health\<close>).
  \<^item> \<open>Config\<close> (\<^verbatim>\<open>config/config.go\<close>), \<open>Nginx_Parser\<close>, \<open>Nginx_Translator\<close>, \<open>Nginx_Sizes\<close>, \<open>Nginx_Props\<close>
    (\<^verbatim>\<open>config/nginx_parser.go\<close>, \<^verbatim>\<open>nginx_translator.go\<close> and the loading functions).
  \<^item> \<open>Router\<close>, \<open>Router_Props\<close> (\<^verbatim>\<open>router/router.go\<close>): the stack interprets \<open>layered\<close>
    and \<open>layered_on\<close>.
  \<^item> \<open>Admin\<close>, \<open>Admin_Props\<close> (\<^verbatim>\<open>admin/admin.go\<close>), \<open>Shutdown\<close> (\<^verbatim>\<open>shutdown/shutdown.go\<close>).
  \<^item> \<open>System\<close>: the server as a step relation over the router, the admin API and the health checks.

  \<^bold>\<open>State and effects.\<close> Go structures are records with the source's field names behind a prefix. A
  handler maps a request, a writer and its state to the writer and the state it leaves and to
  whether it returned or panicked. Pointers to upstreams are positions in the balancer's pool.
  Errors are values of sum types, a dropped error is a dropped value. Counters that wrap are
  64-bit words, sizes and durations wrap by \<open>wrap64\<close>; other integers are unbounded.

  \<^bold>\<open>Arguments of the model\<close> stand for code outside the repository and for the environment: the HTTP
  transport (one answer per attempt), clock readings, the outcome of connection calls, random
  numbers, \<open>url.Parse\<close>, the token bucket, the JWT parser, the gzip encoder, viper, the file system,
  \<open>strconv.ParseFloat\<close>, the multiplexer chi and the Prometheus handler. A theorem that needs
  something of them says so in a hypothesis, and its witness instantiates it.

  \<^bold>\<open>What is shown.\<close> For the breaker: when it trips, the invariant of its counters, the only edges of
  its state machine, the probe limit under concurrency, and that the atomic steps refine the
  sequential method. For the balancers: which targets are eligible, fairness, minimality, and
  that connections are counted exactly over every interleaving. For the engine: what a client is
  answered, failover, the bound on attempts, and how requests are counted; that its steps
  compute the sequential handler, and that overlapping requests all end and give back what they
  took. For the gateway: the choice of the route, plugin chains, and that no
  connection is lost over any run. For the plugins: authentication, address ranges and query
  rewriting against their specifications. For the middlewares: that compression is transparent,
  clients do not share rate limits, preflight requests stay local, and every request is
  answered. For the whole server: without compression, and as long as the
  upstreams answer with valid status codes, no run of it loses a connection. For configuration:
  parsing inverts printing and always ends, and what loading gives
  can be served. For the tunnel and the signals: nothing blocks, leaks or is lost. Lemmas beside
  these theorems show where the code does not do what it means to.

  \<^bold>\<open>Termination and fuel.\<close> The retry loop has a measure on the attempts left. The nginx parser
  runs on fuel, three units per byte and three more; \<open>nginx_parse_total\<close> shows that this is enough
  for every input. Every other loop is structural.

  \<^bold>\<open>Not modelled.\<close> \<^verbatim>\<open>transport/transport.go\<close> and \<^verbatim>\<open>logging/logger.go\<close>, which only fill in a structure of
  a library; listening and serving sockets; the ticker of the health checks and of the limiter's
  clean-up, whose rounds are modelled; the time a retry sleeps and a request takes; HTTP/2 push;
  rates that are infinite or not a number. Requests that overlap are interleaved in the engine
  (\<open>Engine_Steps\<close>, where a call of the balancer is one step) and inside the breaker
  (\<open>Half_Open_Race\<close>); in the layers around the engine a request is served as one step.
\<close>

section \<open>The running server\<close>

text \<open>
  C1. The server without compression never loses a connection. Start it with a configuration and let
  requests through the middleware stack, admin calls that may reload the configuration, and
  health checks follow each other in any order: afterwards no upstream of any route is counted
  as busy, although plugins may panic, requests may time out and upstreams may fail. The retry
  budgets of the configurations must not be negative and the upstreams must answer with status
  codes from 100 to 999. (Without these conditions it is not so: \<open>gzip_mismatch_panics_and_leaks\<close>,
  \<open>negative_retries_leak\<close>, \<open>invalid_status_leaks\<close>.)
\<close>

theorem server_never_leaks:
  assumes "nonneg_retries cfg" and "\<not> gz_Enabled (cfg_Gzip cfg)"
    and "(sys_step url_Parse nonneg_retries)\<^sup>*\<^sup>* (System_start url_Parse cfg) s"
  shows "\<forall>route \<in> set (gw_routes (rt_gateway (sys_router s))).
           \<forall>c \<in> set (lb_conns (eng_lb (re_engine route))). c = 0"
  using sys_reachable_inv [OF assms(3) sys_start_inv [OF assms(1,2)]]
  by (auto simp: sys_inv_def gw_idle_def route_idle_def list_all_iff)

text \<open>A request whose first attempt fails leaves both upstreams idle.\<close>

theorem server_never_leaks_witness:
  "map (\<lambda>route. lb_conns (eng_lb (re_engine route)))
     (gw_routes (rt_gateway (fst (snd (Router_ServeHTTP
        (sample_router_env InTime [Inl conn_reset, Inr (sample_response 200)])
        (sample_request ''GET'' []) (sample_writer []) sample_router))))) = [[0, 0]]"
proof -
  let ?run = "Router_ServeHTTP (sample_router_env InTime [Inl conn_reset, Inr (sample_response 200)])
        (sample_request ''GET'' []) (sample_writer []) sample_router"
  let ?conns = "map (\<lambda>route. lb_conns (eng_lb (re_engine route))) (gw_routes (rt_gateway (fst (snd ?run))))"
  let ?start = "System_start sample_parse router_config :: int System"
  have "Router_ServeHTTP (sample_router_env InTime [Inl conn_reset, Inr (sample_response 200)])
        (sample_request ''GET'' []) (sample_writer []) (sys_router ?start)
      = (fst ?run, fst (snd ?run), snd (snd ?run))"
    by (simp add: System_start_def sample_router_def)
  moreover have "w_layers (sample_writer []) = []" using fresh_sample by (simp add: fresh_def)
  moreover have "valid_answers (ro_engine (sample_router_env InTime [Inl conn_reset, Inr (sample_response 200)]))"
    by (auto simp: valid_answers_def sample_router_env_def sample_env_def sample_response_def nth_Cons'
        split: if_splits)
  ultimately have "sys_step sample_parse nonneg_retries ?start (?start\<lparr>sys_router := fst (snd ?run)\<rparr>)"
    by (intro sys_step.request)
  then have "(sys_step sample_parse nonneg_retries)\<^sup>*\<^sup>* ?start (?start\<lparr>sys_router := fst (snd ?run)\<rparr>)"
    by (rule r_into_rtranclp)
  moreover have "nonneg_retries router_config" "\<not> gz_Enabled (cfg_Gzip router_config)" by code_simp+
  ultimately have zero: "\<forall>cs \<in> set ?conns. \<forall>c \<in> set cs. c = 0"
    using server_never_leaks by fastforce
  have "map length ?conns = [2]" by code_simp
  with zero show ?thesis by (rule two_zeros)
qed

end
